theory Spec2Isabelle
  imports Complex_Main "HOL-Library.Multiset"
begin

section \<open>The well manager of the ECL black-oil simulator (eclwellmanager.hh)\<close>

text \<open>
  A shallow embedding of \<^verbatim>\<open>Ewoms::EclWellManager\<close>. The manager reads a parsed
  deck (the schedule and the grid dimensions), keeps one runtime well per deck well and
  registers the wells' degrees of freedom (DOFs) and auxiliary equations with the
  simulator. Everything the manager calls but does not define (the deck classes, the
  runtime well class, the grid view, the discretization's registry of auxiliary modules)
  is data here: a record of what the manager reads from it or writes to it.
\<close>

subsection \<open>Scalars\<close>

text \<open>
  \<^verbatim>\<open>Scalar\<close> is a floating-point type. The manager copies scalars, halves one
  (\<^verbatim>\<open>0.5*completion->getDiameter()\<close>) and tests one with \<^verbatim>\<open>std::isfinite(ctf) && ctf > 0.0\<close>;
  the model keeps the finite values as reals and the three special values apart.
  Rounding is outside the model.
\<close>

datatype Scalar = Finite real | PlusInf | MinusInf | NaN

fun isfinite :: "Scalar \<Rightarrow> bool" where
  "isfinite (Finite _) = True"
| "isfinite _ = False"

fun positive :: "Scalar \<Rightarrow> bool" where
  "positive (Finite r) = (r > 0)"
| "positive PlusInf = True"
| "positive _ = False"

fun half :: "Scalar \<Rightarrow> Scalar" where
  "half (Finite r) = Finite (r / 2)"
| "half s = s"

subsection \<open>The deck: what the manager reads of opm-parser's classes\<close>

text \<open>
  The enumerations of the deck, with the values that the switches of \<^verbatim>\<open>beginEpisode\<close>
  list.
\<close>

datatype StatusEnum = WellCommon_OPEN | WellCommon_STOP | WellCommon_SHUT | WellCommon_AUTO

datatype InjectorTypeEnum =
  WellInjector_WATER | WellInjector_GAS | WellInjector_OIL | WellInjector_MULTI

datatype InjectorCModeEnum =
  WellInjector_RATE | WellInjector_RESV | WellInjector_BHP | WellInjector_THP
| WellInjector_GRUP | WellInjector_CMODE_UNDEFINED

datatype ProducerCModeEnum =
  WellProducer_ORAT | WellProducer_WRAT | WellProducer_GRAT | WellProducer_LRAT
| WellProducer_CRAT | WellProducer_RESV | WellProducer_BHP | WellProducer_THP
| WellProducer_GRUP | WellProducer_CMODE_UNDEFINED

record WellInjectionProperties =
  injectorType :: InjectorTypeEnum
  inj_controlMode :: InjectorCModeEnum
  surfaceInjectionRate :: Scalar
  reservoirInjectionRate :: Scalar
  inj_BHPLimit :: Scalar
  inj_THPLimit :: Scalar

record WellProductionProperties =
  prod_controlMode :: ProducerCModeEnum
  OilRate :: Scalar
  GasRate :: Scalar
  WaterRate :: Scalar
  LiquidRate :: Scalar
  ResVRate :: Scalar
  prod_BHPLimit :: Scalar
  prod_THPLimit :: Scalar

text \<open>
  A completion: its logical cell (I, J, K), its diameter (\<^verbatim>\<open>getDiameter\<close> throws
  \<^verbatim>\<open>std::logic_error\<close> when the deck gives none: \<open>None\<close>) and its connection
  transmissibility factor.
\<close>

record Completion =
  getI :: int
  getJ :: int
  getK :: int
  getDiameter :: "Scalar option"
  getConnectionTransmissibilityFactor :: Scalar

text \<open>
  A deck well (\<^verbatim>\<open>Opm::Well\<close>): one object for the whole schedule, whose status,
  flags, properties and completions are read per report step.
\<close>

record DeckWell =
  name :: string
  getStatus :: "nat \<Rightarrow> StatusEnum"
  isInjector :: "nat \<Rightarrow> bool"
  isProducer :: "nat \<Rightarrow> bool"
  getInjectionProperties :: "nat \<Rightarrow> WellInjectionProperties"
  getProductionProperties :: "nat \<Rightarrow> WellProductionProperties"
  getRefDepthDefaulted :: bool
  getRefDepth :: Scalar
  getCompletions :: "nat \<Rightarrow> Completion list"

text \<open>
  The schedule: \<^verbatim>\<open>getWells()\<close> (all wells, \<^verbatim>\<open>numWells()\<close> of them) and
  \<^verbatim>\<open>getWells(reportStep)\<close>. The Eclipse state: the schedule and the grid's
  \<^verbatim>\<open>getNX()\<close>, \<^verbatim>\<open>getNY()\<close>.
\<close>

record Schedule =
  getAllWells :: "DeckWell list"
  getWells :: "nat \<Rightarrow> DeckWell list"

record EclipseState =
  getSchedule :: Schedule
  getNX :: int
  getNY :: int

subsection \<open>The runtime well (EclPeacemanWell), as far as the manager drives it\<close>

datatype WellStatus = Open | Closed | Shut

datatype WellType = Injector | Producer

datatype ControlMode =
  VolumetricSurfaceRate | VolumetricReservoirRate | BottomHolePressure | TubingHeadPressure

datatype PhaseIdx = oilPhaseIdx | gasPhaseIdx | waterPhaseIdx

record DofVariables =
  radius :: "Scalar option"
  connectionTransmissibilityFactor :: "Scalar option"

text \<open>
  Modelled from the spec: the class \<^verbatim>\<open>EclPeacemanWell\<close> (eclpeacemanwell.hh) is
  not among the sources. Its state is the spec's well runtime state: a name, a status, a
  type, a control mode, three phase weights (oil, gas, water), the target limits, the
  reference depth, the injected phase and the owned DOFs with their per-DOF overrides.
  A field is \<open>None\<close> until its setter runs: after \<^verbatim>\<open>init\<close> a well has only
  its name. The DOFs are keyed by their global index.
\<close>

record Well =
  wellName :: string
  wellStatus :: "WellStatus option"
  wellType :: "WellType option"
  controlMode :: "ControlMode option"
  injectedPhaseIndex :: "PhaseIdx option"
  volumetricPhaseWeights :: "(Scalar \<times> Scalar \<times> Scalar) option"
  maximumSurfaceRate :: "Scalar option"
  maximumReservoirRate :: "Scalar option"
  targetBottomHolePressure :: "Scalar option"
  targetTubingHeadPressure :: "Scalar option"
  referenceDepth :: "Scalar option"
  dofVariables :: "nat \<rightharpoonup> DofVariables"

definition newWell :: "string \<Rightarrow> Well" where
  \<comment> \<open>\<^verbatim>\<open>new Well(simulator_)\<close>, then \<^verbatim>\<open>beginSpec(); setName(wellName); endSpec()\<close>\<close>
  "newWell n = \<lparr> wellName = n, wellStatus = None, wellType = None, controlMode = None,
     injectedPhaseIndex = None, volumetricPhaseWeights = None, maximumSurfaceRate = None,
     maximumReservoirRate = None, targetBottomHolePressure = None,
     targetTubingHeadPressure = None, referenceDepth = None, dofVariables = Map.empty \<rparr>"

definition setWellStatus :: "WellStatus \<Rightarrow> Well \<Rightarrow> Well" where
  "setWellStatus s w = w\<lparr>wellStatus := Some s\<rparr>"

definition setWellType :: "WellType \<Rightarrow> Well \<Rightarrow> Well" where
  "setWellType ty w = w\<lparr>wellType := Some ty\<rparr>"

definition setControlMode :: "ControlMode \<Rightarrow> Well \<Rightarrow> Well" where
  "setControlMode c w = w\<lparr>controlMode := Some c\<rparr>"

definition setInjectedPhaseIndex :: "PhaseIdx \<Rightarrow> Well \<Rightarrow> Well" where
  "setInjectedPhaseIndex p w = w\<lparr>injectedPhaseIndex := Some p\<rparr>"

definition setVolumetricPhaseWeights :: "Scalar \<Rightarrow> Scalar \<Rightarrow> Scalar \<Rightarrow> Well \<Rightarrow> Well" where
  "setVolumetricPhaseWeights oil gas water w = w\<lparr>volumetricPhaseWeights := Some (oil, gas, water)\<rparr>"

definition setMaximumSurfaceRate :: "Scalar \<Rightarrow> Well \<Rightarrow> Well" where
  "setMaximumSurfaceRate r w = w\<lparr>maximumSurfaceRate := Some r\<rparr>"

definition setMaximumReservoirRate :: "Scalar \<Rightarrow> Well \<Rightarrow> Well" where
  "setMaximumReservoirRate r w = w\<lparr>maximumReservoirRate := Some r\<rparr>"

definition setTargetBottomHolePressure :: "Scalar \<Rightarrow> Well \<Rightarrow> Well" where
  "setTargetBottomHolePressure p w = w\<lparr>targetBottomHolePressure := Some p\<rparr>"

definition setTargetTubingHeadPressure :: "Scalar \<Rightarrow> Well \<Rightarrow> Well" where
  "setTargetTubingHeadPressure p w = w\<lparr>targetTubingHeadPressure := Some p\<rparr>"

definition setReferenceDepth :: "Scalar \<Rightarrow> Well \<Rightarrow> Well" where
  "setReferenceDepth d w = w\<lparr>referenceDepth := Some d\<rparr>"

definition clear :: "Well \<Rightarrow> Well" where
  \<comment> \<open>\<^verbatim>\<open>Well::clear()\<close>: the well owns no DOF afterwards\<close>
  "clear w = w\<lparr>dofVariables := Map.empty\<rparr>"

definition addDof :: "nat \<Rightarrow> Well \<Rightarrow> Well" where
  \<comment> \<open>\<^verbatim>\<open>Well::addDof(elemCtx, dofIdx)\<close>, by the DOF's global index; an owned DOF keeps its entry\<close>
  "addDof g w =
     (case dofVariables w g of
        None \<Rightarrow> w\<lparr>dofVariables := (dofVariables w)(g \<mapsto> \<lparr>radius = None, connectionTransmissibilityFactor = None\<rparr>)\<rparr>
      | Some _ \<Rightarrow> w)"

definition setRadius :: "nat \<Rightarrow> Scalar \<Rightarrow> Well \<Rightarrow> Well" where
  \<comment> \<open>an override of a DOF the well owns; the spec applies overrides to owned DOFs only\<close>
  "setRadius g r w =
     (case dofVariables w g of
        None \<Rightarrow> w
      | Some v \<Rightarrow> w\<lparr>dofVariables := (dofVariables w)(g \<mapsto> v\<lparr>radius := Some r\<rparr>)\<rparr>)"

definition setConnectionTransmissibilityFactor :: "nat \<Rightarrow> Scalar \<Rightarrow> Well \<Rightarrow> Well" where
  "setConnectionTransmissibilityFactor g c w =
     (case dofVariables w g of
        None \<Rightarrow> w
      | Some v \<Rightarrow> w\<lparr>dofVariables := (dofVariables w)(g \<mapsto> v\<lparr>connectionTransmissibilityFactor := Some c\<rparr>)\<rparr>)"

subsection \<open>Errors\<close>

text \<open>
  \<^verbatim>\<open>OPM_THROW(std::runtime_error, msg)\<close> is \<open>RuntimeError msg\<close>; a failed
  \<^verbatim>\<open>assert\<close> aborts the run and is \<open>AssertionFailed\<close> with the asserted
  expression (the model is of a build with assertions enabled). \<open>OutOfRange\<close> stands
  for an index outside a vector, which is undefined behaviour in C++.
\<close>

datatype error = RuntimeError string | AssertionFailed string | OutOfRange string


subsection \<open>The simulator, as far as the manager reads it\<close>

datatype PartitionType =
  InteriorEntity | BorderEntity | OverlapEntity | FrontEntity | GhostEntity

text \<open>
  An element of the grid view: its partition type and, for each primary DOF of its
  stencil (\<^verbatim>\<open>dofIdx < elemCtx.numPrimaryDof(0)\<close>), the DOF's global index
  (\<^verbatim>\<open>elemCtx.globalSpaceIndex(dofIdx, 0)\<close>).
\<close>

record Element =
  partitionType :: PartitionType
  globalSpaceIndex :: "nat list"

text \<open>
  The simulator: its episode index (an \<^verbatim>\<open>int\<close> in the source; the episodes of the
  model count from 0), the Eclipse state and the grid view of its grid manager, and the
  grid manager's table \<^verbatim>\<open>cartesianCellId\<close> from global DOF indices to logically
  Cartesian cell indices.
\<close>

record Simulator =
  episodeIndex :: nat
  gridManager_eclState :: EclipseState
  gridView :: "Element list"
  cartesianCellId :: "nat \<Rightarrow> int"

text \<open>
  Modelled from the spec: the discretization (\<^verbatim>\<open>simulator_.model()\<close>) and its registry
  of auxiliary modules are not among the sources. A registered module is a well of the
  manager (a \<^verbatim>\<open>shared_ptr<Well>\<close>, named here by the well's index in
  \<^verbatim>\<open>wells_\<close>) or a module of another kind. By the spec a topology rebuild "clears all
  wells' auxiliary-equation registration from the global model", so
  \<^verbatim>\<open>clearAuxiliaryModules\<close> drops the wells' registrations; \<^verbatim>\<open>addAuxiliaryModule\<close>
  registers one module. The registry is a set: the manager registers from a
  \<^verbatim>\<open>std::set\<close> of pointers, whose order is the order of addresses.
\<close>

datatype AuxiliaryModule = WellModule nat | OtherModule nat

fun isWellModule :: "AuxiliaryModule \<Rightarrow> bool" where
  "isWellModule (WellModule _) = True"
| "isWellModule (OtherModule _) = False"

definition clearAuxiliaryModules :: "AuxiliaryModule set \<Rightarrow> AuxiliaryModule set" where
  "clearAuxiliaryModules reg = {a \<in> reg. \<not> isWellModule a}"

definition addAuxiliaryModule :: "AuxiliaryModule \<Rightarrow> AuxiliaryModule set \<Rightarrow> AuxiliaryModule set" where
  "addAuxiliaryModule a reg = insert a reg"

subsection \<open>The manager's state\<close>

text \<open>
  \<^verbatim>\<open>wells_\<close> and \<^verbatim>\<open>wellNameToIndex_\<close> are the manager's members (the model's
  names drop the trailing underscore, here and in the protected methods); the registry of
  auxiliary modules belongs to the simulator's model, which the manager mutates through
  its reference \<^verbatim>\<open>simulator_\<close>. A \<^verbatim>\<open>shared_ptr<Well>\<close> is the index of the well
  in \<^verbatim>\<open>wells_\<close>: \<^verbatim>\<open>init\<close> allocates one object per entry and nothing removes one.
\<close>

record EclWellManager =
  wells :: "Well list"
  wellNameToIndex :: "string \<rightharpoonup> nat"
  auxiliaryModules :: "AuxiliaryModule set"

text \<open>\<^verbatim>\<open>init\<close>: one runtime well per deck well of \<^verbatim>\<open>getWells()\<close>, in order.\<close>

fun init_loop :: "DeckWell list \<Rightarrow> EclWellManager \<Rightarrow> EclWellManager" where
  "init_loop [] m = m"
| "init_loop (deckWell # rest) m =
     init_loop rest
       (m\<lparr> wellNameToIndex := (wellNameToIndex m)(name deckWell \<mapsto> length (wells m)),
           wells := wells m @ [newWell (name deckWell)] \<rparr>)"

definition init :: "EclipseState \<Rightarrow> EclWellManager \<Rightarrow> EclWellManager" where
  "init eclState m = init_loop (getAllWells (getSchedule eclState)) m"

definition EclWellManager_new :: "AuxiliaryModule set \<Rightarrow> EclWellManager" where
  \<comment> \<open>the constructor: no wells; the model's registry is what it is\<close>
  "EclWellManager_new reg = \<lparr> wells = [], wellNameToIndex = Map.empty, auxiliaryModules = reg \<rparr>"

definition numWells :: "EclWellManager \<Rightarrow> nat" where
  "numWells m = length (wells m)"

definition hasWell :: "EclWellManager \<Rightarrow> string \<Rightarrow> bool" where
  "hasWell m wellName' = (wellNameToIndex m wellName' \<noteq> None)"

definition wellIndex :: "EclWellManager \<Rightarrow> string \<Rightarrow> error + nat" where
  "wellIndex m wellName' =
     (case wellNameToIndex m wellName' of
        None \<Rightarrow> Inl (RuntimeError (''No well called '' @ [CHR 0x27] @ wellName' @ [CHR 0x27] @ ''found''))
      | Some i \<Rightarrow> Inr i)"

text \<open>
  \<^verbatim>\<open>wells_[i]\<close> outside the vector is undefined behaviour in C++. The model gives it an
  error of its own, which no theorem below counts as a result of the program: under the
  invariant that \<^verbatim>\<open>init\<close> establishes it does not arise.
\<close>

definition well :: "EclWellManager \<Rightarrow> string \<Rightarrow> error + nat" where
  \<comment> \<open>\<^verbatim>\<open>well(wellName)\<close> is \<^verbatim>\<open>wells_[wellIndex(wellName)]\<close>; the pointer is the index\<close>
  "well m wellName' =
     (case wellIndex m wellName' of
        Inl e \<Rightarrow> Inl e
      | Inr i \<Rightarrow> if i < length (wells m) then Inr i
                 else Inl (OutOfRange ''wells_[wellIndex(wellName)]''))"

definition updWell :: "nat \<Rightarrow> (Well \<Rightarrow> Well) \<Rightarrow> EclWellManager \<Rightarrow> EclWellManager" where
  \<comment> \<open>a call through the pointer: the well at the index is replaced by its new state\<close>
  "updWell i f m = m\<lparr>wells := (wells m)[i := f (wells m ! i)]\<rparr>"


subsection \<open>wellTopologyChanged_\<close>

definition sameIJK :: "Completion \<Rightarrow> Completion \<Rightarrow> bool" where
  "sameIJK c p = (getI c = getI p \<and> getJ c = getJ p \<and> getK c = getK p)"

text \<open>
  The inner loop over \<^verbatim>\<open>prevWellComplIdx\<close>, for the current completion at
  \<^verbatim>\<open>curWellComplIdx\<close>: \<open>True\<close> is the loop's \<^verbatim>\<open>return true\<close>, \<open>False\<close> its
  \<^verbatim>\<open>break\<close>. The previous completion is read at \<^verbatim>\<open>curWellComplIdx\<close>, as the source
  does. The loop's exit test is \<^verbatim>\<open>prevWellComplIdx == prevCompletionSet->size()\<close>;
  the index starts at 0 and grows by one, so the test \<open>\<ge>\<close> is the same one.
\<close>

function prevCompletionLoop :: "Completion \<Rightarrow> Completion list \<Rightarrow> nat \<Rightarrow> nat \<Rightarrow> bool" where
  "prevCompletionLoop curCompletion prevCompletionSet curWellComplIdx prevWellComplIdx =
     (if prevWellComplIdx \<ge> length prevCompletionSet then True
      else if sameIJK curCompletion (prevCompletionSet ! curWellComplIdx) then False
      else prevCompletionLoop curCompletion prevCompletionSet curWellComplIdx (Suc prevWellComplIdx))"
  by pat_completeness auto
termination
  by (relation "measure (\<lambda>(c, ps, i, j). length ps - j)") auto

declare prevCompletionLoop.simps [simp del]

text \<open>The loop over \<^verbatim>\<open>curWellComplIdx\<close>: \<open>True\<close> when an iteration returns true.\<close>

definition curCompletionLoop :: "Completion list \<Rightarrow> Completion list \<Rightarrow> bool" where
  "curCompletionLoop curCompletionSet prevCompletionSet =
     list_ex (\<lambda>curWellComplIdx.
         prevCompletionLoop (curCompletionSet ! curWellComplIdx) prevCompletionSet curWellComplIdx 0)
       [0 ..< length curCompletionSet]"

text \<open>
  The loop over the current wells. The previous well is the first of the previous report
  step with the current well's name; both completion sets are read at
  \<^verbatim>\<open>reportStepIdx\<close>, as the source does.
\<close>

fun curWellLoop :: "nat \<Rightarrow> DeckWell list \<Rightarrow> DeckWell list \<Rightarrow> bool" where
  "curWellLoop reportStepIdx prevDeckWells [] = False"
| "curWellLoop reportStepIdx prevDeckWells (curWell # rest) =
     (case find (\<lambda>prevWell. name prevWell = name curWell) prevDeckWells of
        None \<Rightarrow> True
      | Some prevWell \<Rightarrow>
          (let curCompletionSet = getCompletions curWell reportStepIdx;
               prevCompletionSet = getCompletions prevWell reportStepIdx
           in if length curCompletionSet \<noteq> length prevCompletionSet then True
              else if curCompletionLoop curCompletionSet prevCompletionSet then True
              else curWellLoop reportStepIdx prevDeckWells rest))"

definition wellTopologyChanged :: "EclipseState \<Rightarrow> nat \<Rightarrow> bool" where
  "wellTopologyChanged eclState reportStepIdx =
     (if reportStepIdx = 0 then True
      else
        (let deckSchedule = getSchedule eclState;
             curDeckWells = getWells deckSchedule reportStepIdx;
             prevDeckWells = getWells deckSchedule (reportStepIdx - 1)
         in if length curDeckWells \<noteq> length prevDeckWells then True
            else curWellLoop reportStepIdx prevDeckWells curDeckWells))"

subsection \<open>computeWellCompletionsMap_\<close>

text \<open>
  \<^verbatim>\<open>WellCompletionsMap\<close>: from the logically Cartesian index to the completion and the
  well's pointer. The index is computed in \<^verbatim>\<open>int\<close>; the model computes it in the
  integers, for grids whose cell count fits an \<^verbatim>\<open>int\<close> (signed overflow is undefined
  in C++).
\<close>

type_synonym WellCompletionsMap = "int \<rightharpoonup> (Completion \<times> nat)"

definition cartIdxOf :: "int \<Rightarrow> int \<Rightarrow> Completion \<Rightarrow> int" where
  "cartIdxOf nx ny completion = getI completion + getJ completion * nx + getK completion * nx * ny"

fun completionLoop ::
  "EclWellManager \<Rightarrow> int \<Rightarrow> int \<Rightarrow> string \<Rightarrow> Completion list \<Rightarrow> WellCompletionsMap
   \<Rightarrow> error + WellCompletionsMap" where
  "completionLoop m nx ny wellName' [] cartesianIdxToCompletionMap = Inr cartesianIdxToCompletionMap"
| "completionLoop m nx ny wellName' (completion # rest) cartesianIdxToCompletionMap =
     (let cartIdx = cartIdxOf nx ny completion
      in if cartesianIdxToCompletionMap cartIdx \<noteq> None
         then Inl (AssertionFailed ''cartesianIdxToCompletionMap.count(cartIdx) == 0'')
         else (case well m wellName' of
                 Inl e \<Rightarrow> Inl e
               | Inr eclWell \<Rightarrow>
                   completionLoop m nx ny wellName' rest
                     (cartesianIdxToCompletionMap(cartIdx \<mapsto> (completion, eclWell)))))"

text \<open>
  The loop over the deck wells of the report step. A well the manager does not know is
  skipped (the source prints a line to \<^verbatim>\<open>std::cout\<close>, which is not part of the state).
\<close>

fun deckWellCompletionsLoop ::
  "EclWellManager \<Rightarrow> int \<Rightarrow> int \<Rightarrow> nat \<Rightarrow> DeckWell list \<Rightarrow> WellCompletionsMap
   \<Rightarrow> error + WellCompletionsMap" where
  "deckWellCompletionsLoop m nx ny reportStepIdx [] cm = Inr cm"
| "deckWellCompletionsLoop m nx ny reportStepIdx (deckWell # rest) cm =
     (if \<not> hasWell m (name deckWell) then deckWellCompletionsLoop m nx ny reportStepIdx rest cm
      else (case completionLoop m nx ny (name deckWell) (getCompletions deckWell reportStepIdx) cm of
              Inl e \<Rightarrow> Inl e
            | Inr cm' \<Rightarrow> deckWellCompletionsLoop m nx ny reportStepIdx rest cm'))"

definition computeWellCompletionsMap ::
  "Simulator \<Rightarrow> EclWellManager \<Rightarrow> nat \<Rightarrow> WellCompletionsMap \<Rightarrow> error + WellCompletionsMap" where
  "computeWellCompletionsMap simulator m reportStepIdx cartesianIdxToCompletionMap =
     (let eclStatePtr = gridManager_eclState simulator;
          deckSchedule = getSchedule eclStatePtr;
          nx = getNX eclStatePtr;
          ny = getNY eclStatePtr
      in deckWellCompletionsLoop m nx ny reportStepIdx (getWells deckSchedule reportStepIdx)
           cartesianIdxToCompletionMap)"

subsection \<open>updateWellTopology_\<close>

text \<open>
  The walk over the DOFs of one element and over the elements of the grid view. The
  accumulator is the wells and the local \<^verbatim>\<open>std::set\<close> of the wells that got a DOF
  (a list without repetition: the registry it is read into is a set).
\<close>

fun topologyDofLoop ::
  "(nat \<Rightarrow> int) \<Rightarrow> WellCompletionsMap \<Rightarrow> nat list \<Rightarrow> Well list \<times> nat list \<Rightarrow> Well list \<times> nat list" where
  "topologyDofLoop cartesianCellId' wellCompletions [] acc = acc"
| "topologyDofLoop cartesianCellId' wellCompletions (globalDofIdx # rest) (ws, wellSet) =
     (let cartesianDofIdx = cartesianCellId' globalDofIdx
      in case wellCompletions cartesianDofIdx of
           None \<Rightarrow> topologyDofLoop cartesianCellId' wellCompletions rest (ws, wellSet)
         | Some (completion, eclWell) \<Rightarrow>
             topologyDofLoop cartesianCellId' wellCompletions rest
               (ws[eclWell := addDof globalDofIdx (ws ! eclWell)], List.insert eclWell wellSet))"

fun topologyElemLoop ::
  "(nat \<Rightarrow> int) \<Rightarrow> WellCompletionsMap \<Rightarrow> Element list \<Rightarrow> Well list \<times> nat list \<Rightarrow> Well list \<times> nat list" where
  "topologyElemLoop cartesianCellId' wellCompletions [] acc = acc"
| "topologyElemLoop cartesianCellId' wellCompletions (elem # rest) acc =
     (if partitionType elem \<noteq> InteriorEntity
      then topologyElemLoop cartesianCellId' wellCompletions rest acc
      else topologyElemLoop cartesianCellId' wellCompletions rest
             (topologyDofLoop cartesianCellId' wellCompletions (globalSpaceIndex elem) acc))"

definition updateWellTopology ::
  "Simulator \<Rightarrow> nat \<Rightarrow> WellCompletionsMap \<Rightarrow> EclWellManager \<Rightarrow> EclWellManager" where
  "updateWellTopology simulator reportStepIdx wellCompletions m =
     (let cleared = clearAuxiliaryModules (auxiliaryModules m);
          ws0 = map clear (wells m);
          (ws, wellSet) = topologyElemLoop (cartesianCellId simulator) wellCompletions
                            (gridView simulator) (ws0, [])
      in m\<lparr> wells := ws,
            auxiliaryModules := fold (\<lambda>eclWell. addAuxiliaryModule (WellModule eclWell)) wellSet cleared \<rparr>)"


subsection \<open>updateWellParameters_\<close>

text \<open>
  The first loop sets the reference depths. It asks \<^verbatim>\<open>wellIndex\<close> for every deck well
  of the report step whose reference depth is not defaulted, without asking
  \<^verbatim>\<open>hasWell\<close> first.
\<close>

fun refDepthLoop :: "DeckWell list \<Rightarrow> EclWellManager \<Rightarrow> error + EclWellManager" where
  "refDepthLoop [] m = Inr m"
| "refDepthLoop (deckWell # rest) m =
     (if \<not> getRefDepthDefaulted deckWell
      then (case well m (name deckWell) of
              Inl e \<Rightarrow> Inl e
            | Inr i \<Rightarrow> refDepthLoop rest (updWell i (setReferenceDepth (getRefDepth deckWell)) m))
      else refDepthLoop rest m)"

definition applyCompletion :: "nat \<Rightarrow> Completion \<Rightarrow> Well \<Rightarrow> Well" where
  \<comment> \<open>the body for one DOF of a completion: the radius unless \<^verbatim>\<open>getDiameter\<close> throws, then the factor\<close>
  "applyCompletion globalDofIdx completion w =
     (let w1 = (case getDiameter completion of
                  None \<Rightarrow> w
                | Some d \<Rightarrow> setRadius globalDofIdx (half d) w);
          ctf = getConnectionTransmissibilityFactor completion
      in if isfinite ctf \<and> positive ctf
         then setConnectionTransmissibilityFactor globalDofIdx ctf w1
         else w1)"

fun parametersDofLoop ::
  "(nat \<Rightarrow> int) \<Rightarrow> WellCompletionsMap \<Rightarrow> nat list \<Rightarrow> Well list \<Rightarrow> Well list" where
  "parametersDofLoop cartesianCellId' wellCompletions [] ws = ws"
| "parametersDofLoop cartesianCellId' wellCompletions (globalDofIdx # rest) ws =
     (let cartesianDofIdx = cartesianCellId' globalDofIdx
      in case wellCompletions cartesianDofIdx of
           None \<Rightarrow> parametersDofLoop cartesianCellId' wellCompletions rest ws
         | Some (completion, eclWell) \<Rightarrow>
             parametersDofLoop cartesianCellId' wellCompletions rest
               (ws[eclWell := applyCompletion globalDofIdx completion (ws ! eclWell)]))"

fun parametersElemLoop ::
  "(nat \<Rightarrow> int) \<Rightarrow> WellCompletionsMap \<Rightarrow> Element list \<Rightarrow> Well list \<Rightarrow> Well list" where
  "parametersElemLoop cartesianCellId' wellCompletions [] ws = ws"
| "parametersElemLoop cartesianCellId' wellCompletions (elem # rest) ws =
     (if partitionType elem \<noteq> InteriorEntity
      then parametersElemLoop cartesianCellId' wellCompletions rest ws
      else parametersElemLoop cartesianCellId' wellCompletions rest
             (parametersDofLoop cartesianCellId' wellCompletions (globalSpaceIndex elem) ws))"

definition updateWellParameters ::
  "Simulator \<Rightarrow> nat \<Rightarrow> WellCompletionsMap \<Rightarrow> EclWellManager \<Rightarrow> error + EclWellManager" where
  "updateWellParameters simulator reportStepIdx wellCompletions m =
     (let deckSchedule = getSchedule (gridManager_eclState simulator);
          deckWells = getWells deckSchedule reportStepIdx
      in case refDepthLoop deckWells m of
           Inl e \<Rightarrow> Inl e
         | Inr m1 \<Rightarrow>
             Inr (m1\<lparr> wells := parametersElemLoop (cartesianCellId simulator) wellCompletions
                                  (gridView simulator) (wells m1) \<rparr>))"

subsection \<open>beginEpisode\<close>

definition setDeckWellStatus :: "StatusEnum \<Rightarrow> Well \<Rightarrow> Well" where
  \<comment> \<open>the switch on \<^verbatim>\<open>deckWellStatus\<close>; \<^verbatim>\<open>AUTO\<close> falls through to \<^verbatim>\<open>OPEN\<close>\<close>
  "setDeckWellStatus deckWellStatus w =
     (case deckWellStatus of
        WellCommon_AUTO \<Rightarrow> setWellStatus Open w
      | WellCommon_OPEN \<Rightarrow> setWellStatus Open w
      | WellCommon_STOP \<Rightarrow> setWellStatus Closed w
      | WellCommon_SHUT \<Rightarrow> setWellStatus Shut w)"

definition notImplemented :: "string \<Rightarrow> error" where
  "notImplemented what = RuntimeError (''Not implemented: '' @ what)"

definition controlModeUndefined :: "string \<Rightarrow> error" where
  "controlModeUndefined n = RuntimeError (''Control mode of well '' @ n @ '' is undefined.'')"

text \<open>The block for an injector: the three switches in the source's order, then the limits.\<close>

definition setInjector :: "WellInjectionProperties \<Rightarrow> Well \<Rightarrow> error + Well" where
  "setInjector injectProperties w0 =
     (let w1 = setWellType Injector w0 in
      case (case injectorType injectProperties of
              WellInjector_WATER \<Rightarrow> Inr (setInjectedPhaseIndex waterPhaseIdx w1)
            | WellInjector_GAS \<Rightarrow> Inr (setInjectedPhaseIndex gasPhaseIdx w1)
            | WellInjector_OIL \<Rightarrow> Inr (setInjectedPhaseIndex oilPhaseIdx w1)
            | WellInjector_MULTI \<Rightarrow> Inl (notImplemented ''Multi-phase injector wells'')) of
        Inl e \<Rightarrow> Inl e
      | Inr w2 \<Rightarrow>
      case (case inj_controlMode injectProperties of
              WellInjector_RATE \<Rightarrow> Inr (setControlMode VolumetricSurfaceRate w2)
            | WellInjector_RESV \<Rightarrow> Inr (setControlMode VolumetricReservoirRate w2)
            | WellInjector_BHP \<Rightarrow> Inr (setControlMode BottomHolePressure w2)
            | WellInjector_THP \<Rightarrow> Inr (setControlMode TubingHeadPressure w2)
            | WellInjector_GRUP \<Rightarrow> Inl (notImplemented ''Well groups'')
            | WellInjector_CMODE_UNDEFINED \<Rightarrow> Inl (controlModeUndefined (wellName w2))) of
        Inl e \<Rightarrow> Inl e
      | Inr w3 \<Rightarrow>
      case (case injectorType injectProperties of
              WellInjector_WATER \<Rightarrow> Inr (setVolumetricPhaseWeights (Finite 0) (Finite 0) (Finite 1) w3)
            | WellInjector_OIL \<Rightarrow> Inr (setVolumetricPhaseWeights (Finite 1) (Finite 0) (Finite 0) w3)
            | WellInjector_GAS \<Rightarrow> Inr (setVolumetricPhaseWeights (Finite 0) (Finite 1) (Finite 0) w3)
            | WellInjector_MULTI \<Rightarrow> Inl (notImplemented ''Multi-phase injection wells'')) of
        Inl e \<Rightarrow> Inl e
      | Inr w4 \<Rightarrow>
          Inr (setTargetTubingHeadPressure (Finite (10 ^ 100))
                (setTargetBottomHolePressure (inj_BHPLimit injectProperties)
                  (setMaximumReservoirRate (reservoirInjectionRate injectProperties)
                    (setMaximumSurfaceRate (surfaceInjectionRate injectProperties) w4)))))"

text \<open>The block for a producer: the switch on the control mode, then the limits.\<close>

definition setProducer :: "WellProductionProperties \<Rightarrow> Well \<Rightarrow> error + Well" where
  "setProducer producerProperties w0 =
     (let w1 = setWellType Producer w0 in
      case (case prod_controlMode producerProperties of
              WellProducer_ORAT \<Rightarrow>
                Inr (setMaximumSurfaceRate (OilRate producerProperties)
                      (setVolumetricPhaseWeights (Finite 1) (Finite 0) (Finite 0)
                        (setControlMode VolumetricSurfaceRate w1)))
            | WellProducer_GRAT \<Rightarrow>
                Inr (setMaximumSurfaceRate (GasRate producerProperties)
                      (setVolumetricPhaseWeights (Finite 0) (Finite 1) (Finite 0)
                        (setControlMode VolumetricSurfaceRate w1)))
            | WellProducer_WRAT \<Rightarrow>
                Inr (setMaximumSurfaceRate (WaterRate producerProperties)
                      (setVolumetricPhaseWeights (Finite 0) (Finite 0) (Finite 1)
                        (setControlMode VolumetricSurfaceRate w1)))
            | WellProducer_LRAT \<Rightarrow>
                Inr (setMaximumSurfaceRate (LiquidRate producerProperties)
                      (setVolumetricPhaseWeights (Finite 1) (Finite 0) (Finite 1)
                        (setControlMode VolumetricSurfaceRate w1)))
            | WellProducer_CRAT \<Rightarrow> Inl (notImplemented ''Linearly combined rates'')
            | WellProducer_RESV \<Rightarrow>
                Inr (setMaximumSurfaceRate (ResVRate producerProperties)
                      (setVolumetricPhaseWeights (Finite 1) (Finite 1) (Finite 1)
                        (setControlMode VolumetricReservoirRate w1)))
            | WellProducer_BHP \<Rightarrow> Inr (setControlMode BottomHolePressure w1)
            | WellProducer_THP \<Rightarrow> Inr (setControlMode TubingHeadPressure w1)
            | WellProducer_GRUP \<Rightarrow> Inl (notImplemented ''Well groups'')
            | WellProducer_CMODE_UNDEFINED \<Rightarrow> Inl (controlModeUndefined (wellName w1))) of
        Inl e \<Rightarrow> Inl e
      | Inr w2 \<Rightarrow>
          Inr (setTargetTubingHeadPressure (Finite (- (10 ^ 100)))
                (setTargetBottomHolePressure (prod_BHPLimit producerProperties) w2)))"

text \<open>
  The body of the loop over the deck wells, for a well the manager knows: the status, the
  assertion that the well is an injector or a producer and not both, the injector's
  block, the producer's block.
\<close>

definition setDeckWell :: "nat \<Rightarrow> DeckWell \<Rightarrow> Well \<Rightarrow> error + Well" where
  "setDeckWell episodeIdx deckWell w0 =
     (let w1 = setDeckWellStatus (getStatus deckWell episodeIdx) w0 in
      if (if isInjector deckWell episodeIdx then 1 else 0) +
         (if isProducer deckWell episodeIdx then 1 else 0) \<noteq> (1::nat)
      then Inl (AssertionFailed ''isInjector + isProducer == 1'')
      else
        case (if isInjector deckWell episodeIdx
              then setInjector (getInjectionProperties deckWell episodeIdx) w1
              else Inr w1) of
          Inl e \<Rightarrow> Inl e
        | Inr w2 \<Rightarrow>
            if isProducer deckWell episodeIdx
            then setProducer (getProductionProperties deckWell episodeIdx) w2
            else Inr w2)"

fun deckWellLoop :: "nat \<Rightarrow> DeckWell list \<Rightarrow> EclWellManager \<Rightarrow> error + EclWellManager" where
  "deckWellLoop episodeIdx [] m = Inr m"
| "deckWellLoop episodeIdx (deckWell # rest) m =
     (if \<not> hasWell m (name deckWell) then deckWellLoop episodeIdx rest m
      else (case well m (name deckWell) of
              Inl e \<Rightarrow> Inl e
            | Inr i \<Rightarrow>
                (case setDeckWell episodeIdx deckWell (wells m ! i) of
                   Inl e \<Rightarrow> Inl e
                 | Inr w \<Rightarrow> deckWellLoop episodeIdx rest (m\<lparr>wells := (wells m)[i := w]\<rparr>))))"

definition beginEpisode ::
  "Simulator \<Rightarrow> EclipseState \<Rightarrow> bool \<Rightarrow> EclWellManager \<Rightarrow> error + EclWellManager" where
  "beginEpisode simulator eclState' wasRestarted m =
     (let episodeIdx = episodeIndex simulator;
          deckSchedule = getSchedule eclState'
      in case computeWellCompletionsMap simulator m episodeIdx Map.empty of
           Inl e \<Rightarrow> Inl e
         | Inr wellCompMap \<Rightarrow>
             (let m1 = (if wasRestarted \<or> wellTopologyChanged eclState' episodeIdx
                        then updateWellTopology simulator episodeIdx wellCompMap m
                        else m)
              in case updateWellParameters simulator episodeIdx wellCompMap m1 of
                   Inl e \<Rightarrow> Inl e
                 | Inr m2 \<Rightarrow> deckWellLoop episodeIdx (getWells deckSchedule episodeIdx) m2))"

subsection \<open>serialize, deserialize\<close>

definition serialize :: "EclWellManager \<Rightarrow> EclWellManager \<times> string list" where
  \<comment> \<open>the manager is unchanged and nothing is written to the restarter\<close>
  "serialize m = (m, [])"

definition deserialize :: "Simulator \<Rightarrow> string list \<Rightarrow> EclWellManager \<Rightarrow> error + EclWellManager" where
  "deserialize simulator res m = beginEpisode simulator (gridManager_eclState simulator) True m"

subsection \<open>computeTotalRatesForDof\<close>

text \<open>
  Modelled from the spec: \<^verbatim>\<open>Well::computeTotalRatesForDof\<close> is not among the sources.
  By the spec a well that does not own the DOF contributes the zero vector; what a well
  contributes at a DOF it owns is the well's physics, a parameter \<open>wellPhysics\<close> here.
  The context (a template parameter of the method) gives the DOF's global index:
  \<^verbatim>\<open>context.globalSpaceIndex(dofIdx, timeIdx)\<close>. A \<^verbatim>\<open>RateVector\<close> is a value of a
  commutative monoid: \<^verbatim>\<open>= 0.0\<close> is its zero and \<^verbatim>\<open>+=\<close> its addition (the rounding of
  floating-point addition is outside the model).
\<close>

definition Well_computeTotalRatesForDof ::
  "(Well \<Rightarrow> nat \<Rightarrow> 'q) \<Rightarrow> Well \<Rightarrow> 'q \<Rightarrow> (nat \<Rightarrow> nat \<Rightarrow> nat) \<Rightarrow> nat \<Rightarrow> nat \<Rightarrow> 'q::comm_monoid_add" where
  "Well_computeTotalRatesForDof wellPhysics w q context dofIdx timeIdx =
     (let globalDofIdx = context dofIdx timeIdx
      in if dofVariables w globalDofIdx = None then q
         else q + wellPhysics w globalDofIdx)"

text \<open>The manager's loop: \<open>q\<close> after \<^verbatim>\<open>q = 0.0\<close> and one \<^verbatim>\<open>q += wellRate\<close> per well.\<close>

fun totalRatesLoop ::
  "(Well \<Rightarrow> nat \<Rightarrow> 'q) \<Rightarrow> (nat \<Rightarrow> nat \<Rightarrow> nat) \<Rightarrow> nat \<Rightarrow> nat \<Rightarrow> Well list \<Rightarrow> 'q \<Rightarrow> 'q::comm_monoid_add" where
  "totalRatesLoop wellPhysics context dofIdx timeIdx [] q = q"
| "totalRatesLoop wellPhysics context dofIdx timeIdx (w # rest) q =
     (let wellRate = Well_computeTotalRatesForDof wellPhysics w 0 context dofIdx timeIdx
      in totalRatesLoop wellPhysics context dofIdx timeIdx rest (q + wellRate))"

definition computeTotalRatesForDof ::
  "(Well \<Rightarrow> nat \<Rightarrow> 'q) \<Rightarrow> EclWellManager \<Rightarrow> (nat \<Rightarrow> nat \<Rightarrow> nat) \<Rightarrow> nat \<Rightarrow> nat \<Rightarrow> 'q::comm_monoid_add" where
  "computeTotalRatesForDof wellPhysics m context dofIdx timeIdx =
     totalRatesLoop wellPhysics context dofIdx timeIdx (wells m) 0"

section \<open>Invariants and auxiliary notions\<close>

text \<open>
  The manager's invariant, which \<^verbatim>\<open>init\<close> establishes and every method keeps: a name
  of the index leads to a well of the vector, and that well carries the name.
\<close>

definition wf_manager :: "EclWellManager \<Rightarrow> bool" where
  "wf_manager m =
     (\<forall>n i. wellNameToIndex m n = Some i \<longrightarrow> i < length (wells m) \<and> wellName (wells m ! i) = n)"

text \<open>
  Two states of the manager with the same wells by name and index (their other fields
  may differ).
\<close>

definition same_wells :: "EclWellManager \<Rightarrow> EclWellManager \<Rightarrow> bool" where
  "same_wells m m' =
     (wellNameToIndex m' = wellNameToIndex m \<and> map wellName (wells m') = map wellName (wells m))"

text \<open>
  The deck well that a loop over the deck wells of a report step handles last under a
  name. The names of a schedule's wells are unique; then it is the deck well of that name.
\<close>

fun lastDeckWellNamed :: "string \<Rightarrow> DeckWell list \<Rightarrow> DeckWell option" where
  "lastDeckWellNamed n [] = None"
| "lastDeckWellNamed n (deckWell # rest) =
     (case lastDeckWellNamed n rest of
        Some d \<Rightarrow> Some d
      | None \<Rightarrow> if name deckWell = n then Some deckWell else None)"

text \<open>
  The completions that \<^verbatim>\<open>computeWellCompletionsMap_\<close> inserts for a report step, in the
  order of insertion: those of the deck wells that the manager knows.
\<close>

definition knownCompletions :: "EclWellManager \<Rightarrow> nat \<Rightarrow> DeckWell list \<Rightarrow> Completion list" where
  "knownCompletions m reportStepIdx deckWells =
     concat (map (\<lambda>deckWell. getCompletions deckWell reportStepIdx)
                 (filter (\<lambda>deckWell. hasWell m (name deckWell)) deckWells))"

text \<open>
  The DOFs that the walks of \<^verbatim>\<open>updateWellTopology_\<close> and \<^verbatim>\<open>updateWellParameters_\<close>
  visit, in the order of the walk: the primary DOFs of the interior elements. And those
  of a list of DOFs whose Cartesian cell the completions map gives to a well.
\<close>

definition localDofs :: "Simulator \<Rightarrow> nat list" where
  "localDofs simulator =
     concat (map globalSpaceIndex
               (filter (\<lambda>elem. partitionType elem = InteriorEntity) (gridView simulator)))"

definition completionDofs :: "(nat \<Rightarrow> int) \<Rightarrow> WellCompletionsMap \<Rightarrow> nat \<Rightarrow> nat list \<Rightarrow> nat set" where
  "completionDofs cartesianCellId' wellCompletions eclWell dofs =
     {globalDofIdx \<in> set dofs. \<exists>completion.
        wellCompletions (cartesianCellId' globalDofIdx) = Some (completion, eclWell)}"

section \<open>Example data\<close>

text \<open>
  A grid of 3 x 1 x 1 cells. The producer PROD is completed in cell 0 and the injector
  INJ in cell 2. The process holds the DOFs 0 and 1 in an interior element and the DOF 2
  in a ghost element; the Cartesian index of a DOF is its global index. The completions
  give no diameter and no transmissibility factor.
\<close>

definition ex_completion :: "int \<Rightarrow> int \<Rightarrow> int \<Rightarrow> Completion" where
  "ex_completion i j k = \<lparr> getI = i, getJ = j, getK = k, getDiameter = None,
     getConnectionTransmissibilityFactor = NaN \<rparr>"

definition ex_injectionProperties :: WellInjectionProperties where
  "ex_injectionProperties = \<lparr> injectorType = WellInjector_GAS, inj_controlMode = WellInjector_RATE,
     surfaceInjectionRate = Finite 50, reservoirInjectionRate = Finite 60,
     inj_BHPLimit = Finite 400, inj_THPLimit = Finite 0 \<rparr>"

definition ex_productionProperties :: WellProductionProperties where
  "ex_productionProperties = \<lparr> prod_controlMode = WellProducer_ORAT, OilRate = Finite 100,
     GasRate = Finite 0, WaterRate = Finite 0, LiquidRate = Finite 0, ResVRate = Finite 0,
     prod_BHPLimit = Finite 150, prod_THPLimit = Finite 0 \<rparr>"

definition ex_producer :: DeckWell where
  "ex_producer = \<lparr> name = ''PROD'', getStatus = (\<lambda>t. WellCommon_AUTO),
     isInjector = (\<lambda>t. False), isProducer = (\<lambda>t. True),
     getInjectionProperties = (\<lambda>t. ex_injectionProperties),
     getProductionProperties = (\<lambda>t. ex_productionProperties),
     getRefDepthDefaulted = True, getRefDepth = Finite 0,
     getCompletions = (\<lambda>t. [ex_completion 0 0 0]) \<rparr>"

definition ex_injector :: DeckWell where
  "ex_injector = \<lparr> name = ''INJ'', getStatus = (\<lambda>t. WellCommon_STOP),
     isInjector = (\<lambda>t. True), isProducer = (\<lambda>t. False),
     getInjectionProperties = (\<lambda>t. ex_injectionProperties),
     getProductionProperties = (\<lambda>t. ex_productionProperties),
     getRefDepthDefaulted = False, getRefDepth = Finite 2000,
     getCompletions = (\<lambda>t. [ex_completion 2 0 0]) \<rparr>"

definition ex_eclState :: EclipseState where
  "ex_eclState = \<lparr> getSchedule = \<lparr> getAllWells = [ex_producer, ex_injector],
       getWells = (\<lambda>t. [ex_producer, ex_injector]) \<rparr>,
     getNX = 3, getNY = 1 \<rparr>"

definition ex_simulator :: "nat \<Rightarrow> Simulator" where
  "ex_simulator t = \<lparr> episodeIndex = t, gridManager_eclState = ex_eclState,
     gridView = [\<lparr> partitionType = InteriorEntity, globalSpaceIndex = [0, 1] \<rparr>,
                 \<lparr> partitionType = GhostEntity, globalSpaceIndex = [2] \<rparr>],
     cartesianCellId = (\<lambda>g. int g) \<rparr>"

definition ex_manager :: EclWellManager where
  "ex_manager = init ex_eclState (EclWellManager_new {OtherModule 7})"

text \<open>
  A deck well of the report steps that \<^verbatim>\<open>init\<close> never saw: it is in
  \<^verbatim>\<open>getWells(reportStep)\<close> and not in \<^verbatim>\<open>getWells()\<close>.
\<close>

definition ex_ghost ::
  "bool \<Rightarrow> bool \<Rightarrow> InjectorTypeEnum \<Rightarrow> bool \<Rightarrow> Completion list \<Rightarrow> DeckWell" where
  "ex_ghost injector producer ty depthDefaulted completions =
     \<lparr> name = ''GHOST'', getStatus = (\<lambda>t. WellCommon_OPEN),
       isInjector = (\<lambda>t. injector), isProducer = (\<lambda>t. producer),
       getInjectionProperties = (\<lambda>t. ex_injectionProperties\<lparr>injectorType := ty\<rparr>),
       getProductionProperties = (\<lambda>t. ex_productionProperties),
       getRefDepthDefaulted = depthDefaulted, getRefDepth = Finite 1000,
       getCompletions = (\<lambda>t. completions) \<rparr>"

definition ex_drift_eclState :: "DeckWell \<Rightarrow> EclipseState" where
  "ex_drift_eclState ghost =
     \<lparr> getSchedule = \<lparr> getAllWells = [ex_producer, ex_injector],
                        getWells = (\<lambda>t. [ex_producer, ex_injector, ghost]) \<rparr>,
       getNX = 3, getNY = 1 \<rparr>"

definition ex_drift_simulator :: "DeckWell \<Rightarrow> nat \<Rightarrow> Simulator" where
  "ex_drift_simulator ghost t = (ex_simulator t)\<lparr>gridManager_eclState := ex_drift_eclState ghost\<rparr>"

text \<open>
  Deck wells under the names of wells that the manager knows: PROD flagged as neither an
  injector nor a producer, INJ with an undefined control mode, INJ completed in the cell
  of PROD.
\<close>

definition ex_neither :: DeckWell where
  "ex_neither = ex_producer\<lparr>isProducer := (\<lambda>t. False)\<rparr>"

definition ex_undefined :: DeckWell where
  "ex_undefined = ex_injector\<lparr>getInjectionProperties :=
     (\<lambda>t. ex_injectionProperties\<lparr>inj_controlMode := WellInjector_CMODE_UNDEFINED\<rparr>)\<rparr>"

definition ex_twin :: DeckWell where
  "ex_twin = ex_injector\<lparr>getCompletions := (\<lambda>t. [ex_completion 0 0 0])\<rparr>"

text \<open>
  A schedule with one well, in every report step, whose completions change: cell
  (0,0,0) in step 0, the cells (0,0,0) and (1,0,0) in step 1, cell (1,0,0) from step 2.
\<close>

definition ex_growing :: DeckWell where
  "ex_growing = ex_producer\<lparr>getCompletions :=
     (\<lambda>t. if t = 0 then [ex_completion 0 0 0]
          else if t = 1 then [ex_completion 0 0 0, ex_completion 1 0 0]
          else [ex_completion 1 0 0])\<rparr>"

definition ex_growing_eclState :: EclipseState where
  "ex_growing_eclState = \<lparr> getSchedule = \<lparr> getAllWells = [ex_growing],
       getWells = (\<lambda>t. [ex_growing]) \<rparr>, getNX = 3, getNY = 1 \<rparr>"

text \<open>
  A run on that schedule: \<^verbatim>\<open>init\<close>, then \<^verbatim>\<open>beginEpisode\<close> for the episodes 0 to
  \<open>t\<close>, on the grid of the first example. Each of these calls returns.
\<close>

definition ex_growing_simulator :: "nat \<Rightarrow> Simulator" where
  "ex_growing_simulator t = (ex_simulator t)\<lparr>gridManager_eclState := ex_growing_eclState\<rparr>"

definition ex_growing_manager :: "nat \<Rightarrow> EclWellManager" where
  "ex_growing_manager t =
     fold (\<lambda>episodeIdx m. projr (beginEpisode (ex_growing_simulator episodeIdx) ex_growing_eclState False m))
          [0 ..< Suc t]
          (init ex_growing_eclState (EclWellManager_new {}))"

text \<open>
  The manager with a topology that is out of date: INJ registered as an auxiliary module
  and owning the DOF 5.
\<close>

definition ex_stale_manager :: EclWellManager where
  "ex_stale_manager = ex_manager\<lparr> wells := [newWell ''PROD'', addDof 5 (newWell ''INJ'')],
     auxiliaryModules := {OtherModule 7, WellModule 1} \<rparr>"

text \<open>
  Schedules on the grid of the first example whose wells are the given deck wells, in
  every report step.
\<close>

definition ex_deck_eclState :: "DeckWell list \<Rightarrow> EclipseState" where
  "ex_deck_eclState deckWells =
     \<lparr> getSchedule = \<lparr> getAllWells = deckWells, getWells = (\<lambda>t. deckWells) \<rparr>,
       getNX = 3, getNY = 1 \<rparr>"

definition ex_deck_simulator :: "DeckWell list \<Rightarrow> nat \<Rightarrow> Simulator" where
  "ex_deck_simulator deckWells t = (ex_simulator t)\<lparr>gridManager_eclState := ex_deck_eclState deckWells\<rparr>"

text \<open>
  PROD as a producer whose control variable changes: the given one in report step 0 and
  BHP from report step 1, with the same rates and limits.
\<close>

definition ex_switch :: "ProducerCModeEnum \<Rightarrow> DeckWell" where
  "ex_switch c0 = ex_producer\<lparr>getProductionProperties :=
     (\<lambda>t. ex_productionProperties\<lparr>prod_controlMode := (if t = 0 then c0 else WellProducer_BHP)\<rparr>)\<rparr>"

text \<open>
  A run on such a schedule: \<^verbatim>\<open>init\<close>, then \<^verbatim>\<open>beginEpisode\<close> for the episodes 0 to
  \<open>t\<close>.
\<close>

definition ex_run :: "DeckWell list \<Rightarrow> nat \<Rightarrow> EclWellManager" where
  "ex_run deckWells t =
     fold (\<lambda>episodeIdx m.
             projr (beginEpisode (ex_deck_simulator deckWells episodeIdx) (ex_deck_eclState deckWells) False m))
          [0 ..< Suc t]
          (init (ex_deck_eclState deckWells) (EclWellManager_new {}))"

section \<open>Lemmas\<close>

lemmas Well_setters =
  setWellStatus_def setWellType_def setControlMode_def setInjectedPhaseIndex_def
  setVolumetricPhaseWeights_def setMaximumSurfaceRate_def setMaximumReservoirRate_def
  setTargetBottomHolePressure_def setTargetTubingHeadPressure_def setReferenceDepth_def

lemma wf_manager_new: "wf_manager (EclWellManager_new reg)"
  by (simp add: wf_manager_def EclWellManager_new_def)

lemma init_loop_wf: "wf_manager m \<Longrightarrow> wf_manager (init_loop ds m)"
proof (induction ds arbitrary: m)
  case Nil
  then show ?case by simp
next
  case (Cons d ds)
  have "wf_manager (m\<lparr> wellNameToIndex := (wellNameToIndex m)(name d \<mapsto> length (wells m)),
           wells := wells m @ [newWell (name d)] \<rparr>)"
    using Cons.prems
    by (fastforce simp: wf_manager_def nth_append newWell_def less_Suc_eq)
  then show ?case using Cons.IH by simp
qed

lemma init_wf: "wf_manager m \<Longrightarrow> wf_manager (init eclState' m)"
  by (simp add: init_def init_loop_wf)

lemma well_wf:
  "wf_manager m \<Longrightarrow> wellNameToIndex m n = Some i \<Longrightarrow> well m n = Inr i"
  by (simp add: well_def wellIndex_def wf_manager_def)

lemma well_Inr: "well m n = Inr i \<Longrightarrow> wellNameToIndex m n = Some i \<and> i < length (wells m)"
  by (auto simp: well_def wellIndex_def split: option.splits if_splits)

lemma hasWell_iff: "hasWell m n \<longleftrightarrow> (\<exists>i. wellNameToIndex m n = Some i)"
  by (simp add: hasWell_def)

text \<open>setDeckWell keeps the name and the DOFs.\<close>

lemma setInjector_frame:
  "setInjector p w = Inr w' \<Longrightarrow> wellName w' = wellName w \<and> dofVariables w' = dofVariables w"
  by (auto simp: setInjector_def Well_setters Let_def
      split: InjectorTypeEnum.splits InjectorCModeEnum.splits sum.splits)

lemma setProducer_frame:
  "setProducer p w = Inr w' \<Longrightarrow> wellName w' = wellName w \<and> dofVariables w' = dofVariables w"
  by (auto simp: setProducer_def Well_setters Let_def
      split: ProducerCModeEnum.splits sum.splits)

lemma setDeckWellStatus_frame:
  "wellName (setDeckWellStatus s w) = wellName w \<and> dofVariables (setDeckWellStatus s w) = dofVariables w"
  by (cases s) (simp_all add: setDeckWellStatus_def Well_setters)

lemma setDeckWell_frame:
  assumes "setDeckWell t d w = Inr w'"
  shows "wellName w' = wellName w \<and> dofVariables w' = dofVariables w"
proof -
  let ?w1 = "setDeckWellStatus (getStatus d t) w"
  from assms obtain w2 where
    a: "(if isInjector d t then setInjector (getInjectionProperties d t) ?w1 else Inr ?w1) = Inr w2"
    and b: "(if isProducer d t then setProducer (getProductionProperties d t) w2 else Inr w2) = Inr w'"
    by (auto simp: setDeckWell_def Let_def split: if_splits sum.splits)
  from a have "wellName w2 = wellName ?w1 \<and> dofVariables w2 = dofVariables ?w1"
    by (auto split: if_splits dest: setInjector_frame)
  moreover from b have "wellName w' = wellName w2 \<and> dofVariables w' = dofVariables w2"
    by (auto split: if_splits dest: setProducer_frame)
  ultimately show ?thesis by (simp add: setDeckWellStatus_frame)
qed

lemma map_update_same: "f y = f (xs ! i) \<Longrightarrow> map f (xs[i := y]) = map f xs"
  by (metis list_update_id map_update)

lemma same_wells_refl: "same_wells m m"
  by (simp add: same_wells_def)

lemma same_wells_trans: "same_wells m m1 \<Longrightarrow> same_wells m1 m2 \<Longrightarrow> same_wells m m2"
  by (simp add: same_wells_def)

lemma same_wells_length: "same_wells m m' \<Longrightarrow> length (wells m') = length (wells m)"
  by (metis same_wells_def length_map)

lemma same_wells_name:
  "same_wells m m' \<Longrightarrow> i < length (wells m) \<Longrightarrow> wellName (wells m' ! i) = wellName (wells m ! i)"
  by (metis same_wells_def length_map nth_map)

lemma same_wells_wf:
  assumes sw: "same_wells m m'" and wf: "wf_manager m"
  shows "wf_manager m'"
  unfolding wf_manager_def
proof (intro allI impI)
  fix n i
  assume "wellNameToIndex m' n = Some i"
  with sw have "wellNameToIndex m n = Some i" by (simp add: same_wells_def)
  with wf have i: "i < length (wells m)" and n: "wellName (wells m ! i) = n"
    by (simp_all add: wf_manager_def)
  from i show "i < length (wells m') \<and> wellName (wells m' ! i) = n"
    using same_wells_length[OF sw] same_wells_name[OF sw i] n by simp
qed

lemma same_wells_hasWell: "same_wells m m' \<Longrightarrow> hasWell m' n = hasWell m n"
  by (simp add: same_wells_def hasWell_def)

lemma same_wells_update:
  "wellName w = wellName (wells m ! i) \<Longrightarrow> same_wells m (m\<lparr>wells := (wells m)[i := w]\<rparr>)"
  by (simp add: same_wells_def map_update_same)

lemma deckWellLoop_same_wells:
  "deckWellLoop t ds m = Inr m' \<Longrightarrow> same_wells m m'"
proof (induction ds arbitrary: m)
  case Nil
  then show ?case by (simp add: same_wells_refl)
next
  case (Cons d ds)
  show ?case
  proof (cases "hasWell m (name d)")
    case False
    with Cons show ?thesis by simp
  next
    case True
    with Cons.prems obtain i w where
      i: "well m (name d) = Inr i" and w: "setDeckWell t d (wells m ! i) = Inr w"
      and rest: "deckWellLoop t ds (m\<lparr>wells := (wells m)[i := w]\<rparr>) = Inr m'"
      by (auto split: sum.splits)
    from w have "wellName w = wellName (wells m ! i)" by (simp add: setDeckWell_frame)
    then have "same_wells m (m\<lparr>wells := (wells m)[i := w]\<rparr>)" by (rule same_wells_update)
    then show ?thesis using Cons.IH[OF rest] by (rule same_wells_trans)
  qed
qed

lemma deckWellLoop_frame:
  "deckWellLoop t ds m = Inr m' \<Longrightarrow>
     auxiliaryModules m' = auxiliaryModules m \<and>
     map dofVariables (wells m') = map dofVariables (wells m)"
proof (induction ds arbitrary: m)
  case Nil
  then show ?case by simp
next
  case (Cons d ds)
  show ?case
  proof (cases "hasWell m (name d)")
    case False
    with Cons show ?thesis by simp
  next
    case True
    with Cons.prems obtain i w where
      i: "well m (name d) = Inr i" and w: "setDeckWell t d (wells m ! i) = Inr w"
      and rest: "deckWellLoop t ds (m\<lparr>wells := (wells m)[i := w]\<rparr>) = Inr m'"
      by (auto split: sum.splits)
    from w have "dofVariables w = dofVariables (wells m ! i)" by (simp add: setDeckWell_frame)
    then have "map dofVariables ((wells m)[i := w]) = map dofVariables (wells m)"
      by (rule map_update_same)
    with Cons.IH[OF rest] show ?thesis by simp
  qed
qed

lemma wf_index_inj:
  "wf_manager m \<Longrightarrow> wellNameToIndex m n = Some i \<Longrightarrow> wellNameToIndex m n' = Some i \<Longrightarrow> n' = n"
  by (metis wf_manager_def)

lemma deckWellLoop_untouched:
  "wf_manager m \<Longrightarrow> deckWellLoop t ds m = Inr m' \<Longrightarrow> wellNameToIndex m n = Some i \<Longrightarrow>
   lastDeckWellNamed n ds = None \<Longrightarrow> wells m' ! i = wells m ! i"
proof (induction ds arbitrary: m)
  case Nil
  then show ?case by simp
next
  case (Cons d ds)
  from Cons.prems(4) have none: "lastDeckWellNamed n ds = None" and ne: "name d \<noteq> n"
    by (auto split: option.splits if_splits)
  show ?case
  proof (cases "hasWell m (name d)")
    case False
    with Cons.prems have "deckWellLoop t ds m = Inr m'" by simp
    from Cons.IH[OF Cons.prems(1) this Cons.prems(3) none] show ?thesis .
  next
    case True
    with Cons.prems(2) obtain j w where
      j: "well m (name d) = Inr j" and w: "setDeckWell t d (wells m ! j) = Inr w"
      and rest: "deckWellLoop t ds (m\<lparr>wells := (wells m)[j := w]\<rparr>) = Inr m'"
      by (auto split: sum.splits)
    let ?m1 = "m\<lparr>wells := (wells m)[j := w]\<rparr>"
    from w have "wellName w = wellName (wells m ! j)" by (simp add: setDeckWell_frame)
    then have sw: "same_wells m ?m1" by (rule same_wells_update)
    then have wf1: "wf_manager ?m1" using Cons.prems(1) by (rule same_wells_wf)
    have idx1: "wellNameToIndex ?m1 n = Some i" using Cons.prems(3) by simp
    from j have "wellNameToIndex m (name d) = Some j" by (simp add: well_Inr)
    with Cons.prems(1,3) ne have "j \<noteq> i" by (metis wf_index_inj)
    then have "wells ?m1 ! i = wells m ! i" by simp
    with Cons.IH[OF wf1 rest idx1 none] show ?thesis by simp
  qed
qed

lemma deckWellLoop_last:
  "wf_manager m \<Longrightarrow> deckWellLoop t ds m = Inr m' \<Longrightarrow> wellNameToIndex m n = Some i \<Longrightarrow>
   lastDeckWellNamed n ds = Some dw \<Longrightarrow>
   \<exists>w0. wellName w0 = n \<and> setDeckWell t dw w0 = Inr (wells m' ! i)"
proof (induction ds arbitrary: m)
  case Nil
  then show ?case by simp
next
  case (Cons d ds)
  show ?case
  proof (cases "hasWell m (name d)")
    case False
    with Cons.prems(3) have ne: "name d \<noteq> n" by (auto simp: hasWell_def)
    with Cons.prems(4) have l: "lastDeckWellNamed n ds = Some dw"
      by (auto split: option.splits if_splits)
    from False Cons.prems(2) have "deckWellLoop t ds m = Inr m'" by simp
    from Cons.IH[OF Cons.prems(1) this Cons.prems(3) l] show ?thesis .
  next
    case True
    with Cons.prems(2) obtain j w where
      j: "well m (name d) = Inr j" and w: "setDeckWell t d (wells m ! j) = Inr w"
      and rest: "deckWellLoop t ds (m\<lparr>wells := (wells m)[j := w]\<rparr>) = Inr m'"
      by (auto split: sum.splits)
    let ?m1 = "m\<lparr>wells := (wells m)[j := w]\<rparr>"
    from w have "wellName w = wellName (wells m ! j)" by (simp add: setDeckWell_frame)
    then have sw: "same_wells m ?m1" by (rule same_wells_update)
    then have wf1: "wf_manager ?m1" using Cons.prems(1) by (rule same_wells_wf)
    have idx1: "wellNameToIndex ?m1 n = Some i" using Cons.prems(3) by simp
    show ?thesis
    proof (cases "lastDeckWellNamed n ds")
      case (Some d')
      with Cons.prems(4) have "lastDeckWellNamed n ds = Some dw" by simp
      from Cons.IH[OF wf1 rest idx1 this] show ?thesis .
    next
      case None
      with Cons.prems(4) have dw: "dw = d" and nm: "name d = n"
        by (auto split: if_splits)
      from j nm Cons.prems(3) have ji: "j = i" by (simp add: well_Inr)
      from j have "j < length (wells m)" by (simp add: well_Inr)
      with ji have "wells ?m1 ! i = w" by simp
      with deckWellLoop_untouched[OF wf1 rest idx1 None] have "wells m' ! i = w" by simp
      moreover from Cons.prems(1,3) have "wellName (wells m ! i) = n" by (simp add: wf_manager_def)
      ultimately show ?thesis using w dw ji by auto
    qed
  qed
qed

lemma addDof_wellName [simp]: "wellName (addDof g w) = wellName w"
  by (simp add: addDof_def split: option.splits)

lemma clear_wellName [simp]: "wellName (clear w) = wellName w"
  by (simp add: clear_def)

lemma setRadius_wellName [simp]: "wellName (setRadius g r w) = wellName w"
  by (simp add: setRadius_def split: option.splits)

lemma setCTF_wellName [simp]: "wellName (setConnectionTransmissibilityFactor g c w) = wellName w"
  by (simp add: setConnectionTransmissibilityFactor_def split: option.splits)

lemma applyCompletion_wellName [simp]: "wellName (applyCompletion g c w) = wellName w"
  by (simp add: applyCompletion_def Let_def split: option.splits)

lemma topologyDofLoop_names:
  "map wellName (fst (topologyDofLoop cc cm gs acc)) = map wellName (fst acc)"
proof (induction gs arbitrary: acc)
  case Nil
  then show ?case by simp
next
  case (Cons g gs)
  obtain ws wellSet where acc: "acc = (ws, wellSet)" by (cases acc)
  show ?case
    by (simp add: acc Cons.IH map_update_same split: option.splits prod.splits)
qed

lemma topologyElemLoop_names:
  "map wellName (fst (topologyElemLoop cc cm es acc)) = map wellName (fst acc)"
  by (induction es arbitrary: acc) (simp_all add: topologyDofLoop_names)

lemma updateWellTopology_same_wells: "same_wells m (updateWellTopology sim t cm m)"
proof -
  obtain ws wellSet where
    e: "topologyElemLoop (cartesianCellId sim) cm (gridView sim) (map clear (wells m), []) = (ws, wellSet)"
    by (cases "topologyElemLoop (cartesianCellId sim) cm (gridView sim) (map clear (wells m), [])")
  have "map wellName ws = map wellName (map clear (wells m))"
    using topologyElemLoop_names[of "cartesianCellId sim" cm "gridView sim" "(map clear (wells m), [])"]
    by (simp add: e)
  then show ?thesis
    by (simp add: same_wells_def updateWellTopology_def e Let_def comp_def)
qed

lemma parametersDofLoop_names:
  "map wellName (parametersDofLoop cc cm gs ws) = map wellName ws"
  by (induction gs arbitrary: ws) (simp_all add: map_update_same split: option.splits prod.splits)

lemma parametersElemLoop_names:
  "map wellName (parametersElemLoop cc cm es ws) = map wellName ws"
  by (induction es arbitrary: ws) (simp_all add: parametersDofLoop_names)

lemma refDepthLoop_same_wells: "refDepthLoop ds m = Inr m' \<Longrightarrow> same_wells m m'"
proof (induction ds arbitrary: m)
  case Nil
  then show ?case by (simp add: same_wells_refl)
next
  case (Cons d ds)
  show ?case
  proof (cases "getRefDepthDefaulted d")
    case True
    with Cons show ?thesis by simp
  next
    case False
    with Cons.prems obtain i where
      rest: "refDepthLoop ds (updWell i (setReferenceDepth (getRefDepth d)) m) = Inr m'"
      by (auto split: sum.splits)
    have "same_wells m (updWell i (setReferenceDepth (getRefDepth d)) m)"
      unfolding updWell_def by (rule same_wells_update) (simp add: setReferenceDepth_def)
    then show ?thesis using Cons.IH[OF rest] by (rule same_wells_trans)
  qed
qed

lemma updateWellParameters_same_wells:
  "updateWellParameters sim t cm m = Inr m' \<Longrightarrow> same_wells m m'"
proof -
  assume a: "updateWellParameters sim t cm m = Inr m'"
  then obtain m1 where
    r: "refDepthLoop (getWells (getSchedule (gridManager_eclState sim)) t) m = Inr m1"
    and m': "m' = m1\<lparr>wells := parametersElemLoop (cartesianCellId sim) cm (gridView sim) (wells m1)\<rparr>"
    by (auto simp: updateWellParameters_def Let_def split: sum.splits)
  have "same_wells m1 m'"
    by (simp add: m' same_wells_def parametersElemLoop_names)
  with refDepthLoop_same_wells[OF r] show ?thesis by (rule same_wells_trans)
qed

lemma beginEpisode_Inr:
  assumes "beginEpisode sim es r m = Inr m'"
  obtains cm m2 where
    "computeWellCompletionsMap sim m (episodeIndex sim) Map.empty = Inr cm"
    "updateWellParameters sim (episodeIndex sim) cm
       (if r \<or> wellTopologyChanged es (episodeIndex sim)
        then updateWellTopology sim (episodeIndex sim) cm m else m) = Inr m2"
    "deckWellLoop (episodeIndex sim) (getWells (getSchedule es) (episodeIndex sim)) m2 = Inr m'"
  using assms by (auto simp: beginEpisode_def Let_def split: sum.splits)

lemma beginEpisode_loop:
  assumes "beginEpisode sim es r m = Inr m'"
  obtains m2 where "same_wells m m2"
    "deckWellLoop (episodeIndex sim) (getWells (getSchedule es) (episodeIndex sim)) m2 = Inr m'"
proof -
  from assms obtain cm m2 where
    p: "updateWellParameters sim (episodeIndex sim) cm
       (if r \<or> wellTopologyChanged es (episodeIndex sim)
        then updateWellTopology sim (episodeIndex sim) cm m else m) = Inr m2"
    and l: "deckWellLoop (episodeIndex sim) (getWells (getSchedule es) (episodeIndex sim)) m2 = Inr m'"
    by (rule beginEpisode_Inr)
  have "same_wells m (if r \<or> wellTopologyChanged es (episodeIndex sim)
        then updateWellTopology sim (episodeIndex sim) cm m else m)"
    by (simp add: same_wells_refl updateWellTopology_same_wells)
  then have "same_wells m m2" using updateWellParameters_same_wells[OF p] by (rule same_wells_trans)
  with l that show thesis by blast
qed

text \<open>The well of a name after a successful beginEpisode: the result of the loop body
  for the last deck well of that name.\<close>

lemma beginEpisode_last:
  assumes wf: "wf_manager m" and ok: "beginEpisode sim es r m = Inr m'"
    and i: "wellNameToIndex m n = Some i"
    and dw: "lastDeckWellNamed n (getWells (getSchedule es) (episodeIndex sim)) = Some dw"
  shows "\<exists>w0. wellName w0 = n \<and> setDeckWell (episodeIndex sim) dw w0 = Inr (wells m' ! i)"
proof -
  from ok obtain m2 where sw: "same_wells m m2"
    and l: "deckWellLoop (episodeIndex sim) (getWells (getSchedule es) (episodeIndex sim)) m2 = Inr m'"
    by (rule beginEpisode_loop)
  from sw wf have wf2: "wf_manager m2" by (rule same_wells_wf)
  from sw i have i2: "wellNameToIndex m2 n = Some i" by (simp add: same_wells_def)
  from deckWellLoop_last[OF wf2 l i2 dw] show ?thesis .
qed

lemma not_Inr_Inl: "(\<nexists>y. x = Inr y) \<Longrightarrow> \<exists>e. x = Inl e"
  by (cases x) auto

text \<open>What a successful run of the loop body says about the deck well and the result.\<close>

lemma setDeckWell_Inr:
  assumes "setDeckWell t d w = Inr w'"
  obtains
    (injector) "isInjector d t" "\<not> isProducer d t"
      "setInjector (getInjectionProperties d t) (setDeckWellStatus (getStatus d t) w) = Inr w'"
  | (producer) "isProducer d t" "\<not> isInjector d t"
      "setProducer (getProductionProperties d t) (setDeckWellStatus (getStatus d t) w) = Inr w'"
  using assms by (auto simp: setDeckWell_def Let_def split: if_splits sum.splits)

lemma setInjector_Inr:
  assumes "setInjector p w = Inr w'"
  shows "wellType w' = Some Injector"
    and "wellStatus w' = wellStatus w"
    and "injectorType p \<noteq> WellInjector_MULTI"
    and "inj_controlMode p \<noteq> WellInjector_GRUP"
    and "inj_controlMode p \<noteq> WellInjector_CMODE_UNDEFINED"
    and "controlMode w' = Some (case inj_controlMode p of
            WellInjector_RATE \<Rightarrow> VolumetricSurfaceRate
          | WellInjector_RESV \<Rightarrow> VolumetricReservoirRate
          | WellInjector_BHP \<Rightarrow> BottomHolePressure
          | _ \<Rightarrow> TubingHeadPressure)"
    and "volumetricPhaseWeights w' = Some (case injectorType p of
            WellInjector_WATER \<Rightarrow> (Finite 0, Finite 0, Finite 1)
          | WellInjector_OIL \<Rightarrow> (Finite 1, Finite 0, Finite 0)
          | _ \<Rightarrow> (Finite 0, Finite 1, Finite 0))"
  using assms
  by (auto simp: setInjector_def Well_setters Let_def
      split: InjectorTypeEnum.splits InjectorCModeEnum.splits sum.splits)

lemma setProducer_Inr:
  assumes "setProducer p w = Inr w'"
  shows "wellType w' = Some Producer"
    and "wellStatus w' = wellStatus w"
    and "prod_controlMode p \<noteq> WellProducer_CRAT"
    and "prod_controlMode p \<noteq> WellProducer_GRUP"
    and "prod_controlMode p \<noteq> WellProducer_CMODE_UNDEFINED"
    and "prod_controlMode p = WellProducer_ORAT \<Longrightarrow>
           controlMode w' = Some VolumetricSurfaceRate \<and>
           volumetricPhaseWeights w' = Some (Finite 1, Finite 0, Finite 0) \<and>
           maximumSurfaceRate w' = Some (OilRate p)"
  using assms
  by (auto simp: setProducer_def Well_setters Let_def
      split: ProducerCModeEnum.splits sum.splits)

lemma setDeckWellStatus_wellStatus:
  "wellStatus (setDeckWellStatus s w) =
     Some (case s of WellCommon_AUTO \<Rightarrow> Open | WellCommon_OPEN \<Rightarrow> Open
           | WellCommon_STOP \<Rightarrow> Closed | WellCommon_SHUT \<Rightarrow> Shut)"
  by (cases s) (simp_all add: setDeckWellStatus_def setWellStatus_def)

lemma setDeckWell_wellStatus:
  assumes "setDeckWell t d w = Inr w'"
  shows "wellStatus w' =
     Some (case getStatus d t of WellCommon_AUTO \<Rightarrow> Open | WellCommon_OPEN \<Rightarrow> Open
           | WellCommon_STOP \<Rightarrow> Closed | WellCommon_SHUT \<Rightarrow> Shut)"
  using assms
  by (cases rule: setDeckWell_Inr)
     (simp_all add: setInjector_Inr(2) setProducer_Inr(2) setDeckWellStatus_wellStatus)

text \<open>A successful loop has run the body successfully for every deck well that the manager knows.\<close>

lemma lastDeckWellNamed_Some:
  "lastDeckWellNamed n ds = Some d \<Longrightarrow> d \<in> set ds \<and> name d = n"
  by (induction ds) (auto split: option.splits if_splits)

lemma deckWellLoop_all_ok:
  "deckWellLoop t ds m = Inr m' \<Longrightarrow> d \<in> set ds \<Longrightarrow> hasWell m (name d) \<Longrightarrow>
   \<exists>w0 w1. setDeckWell t d w0 = Inr w1"
proof (induction ds arbitrary: m)
  case Nil
  then show ?case by simp
next
  case (Cons a ds)
  show ?case
  proof (cases "hasWell m (name a)")
    case False
    with Cons.prems have "deckWellLoop t ds m = Inr m'" and "d \<in> set ds" by auto
    with Cons.IH Cons.prems(3) show ?thesis by blast
  next
    case True
    with Cons.prems(1) obtain j w where
      w: "setDeckWell t a (wells m ! j) = Inr w"
      and rest: "deckWellLoop t ds (m\<lparr>wells := (wells m)[j := w]\<rparr>) = Inr m'"
      by (auto split: sum.splits)
    show ?thesis
    proof (cases "d = a")
      case True
      with w show ?thesis by blast
    next
      case False
      with Cons.prems(2) have "d \<in> set ds" by simp
      moreover have "hasWell (m\<lparr>wells := (wells m)[j := w]\<rparr>) (name d)"
        using Cons.prems(3) by (simp add: hasWell_def)
      ultimately show ?thesis using Cons.IH[OF rest] by blast
    qed
  qed
qed

lemma beginEpisode_all_ok:
  assumes "beginEpisode sim es r m = Inr m'"
    and "d \<in> set (getWells (getSchedule es) (episodeIndex sim))" and "hasWell m (name d)"
  shows "\<exists>w0 w1. setDeckWell (episodeIndex sim) d w0 = Inr w1"
proof -
  from assms(1) obtain m2 where sw: "same_wells m m2"
    and l: "deckWellLoop (episodeIndex sim) (getWells (getSchedule es) (episodeIndex sim)) m2 = Inr m'"
    by (rule beginEpisode_loop)
  from sw assms(3) have "hasWell m2 (name d)" by (simp add: same_wells_hasWell)
  from deckWellLoop_all_ok[OF l assms(2) this] show ?thesis .
qed

subsection \<open>The example data, evaluated\<close>

lemmas ex_defs = ex_completion_def ex_injectionProperties_def ex_productionProperties_def
  ex_producer_def ex_injector_def ex_eclState_def ex_simulator_def ex_manager_def

lemma ex_manager_eq:
  "ex_manager = \<lparr> wells = [newWell ''PROD'', newWell ''INJ''],
      wellNameToIndex = [''PROD'' \<mapsto> 0, ''INJ'' \<mapsto> 1],
      auxiliaryModules = {OtherModule 7} \<rparr>"
  by (simp add: ex_defs init_def EclWellManager_new_def)

lemma ex_wf: "wf_manager ex_manager"
  by (simp add: ex_manager_def init_wf wf_manager_new)

lemma ex_cm:
  "computeWellCompletionsMap (ex_simulator t) ex_manager t Map.empty
     = Inr [0 \<mapsto> (ex_completion 0 0 0, 0), 2 \<mapsto> (ex_completion 2 0 0, 1)]"
  unfolding ex_manager_eq
  by (simp add: computeWellCompletionsMap_def ex_simulator_def ex_eclState_def ex_producer_def
      ex_injector_def hasWell_def well_def wellIndex_def cartIdxOf_def ex_completion_def)


lemma ex_simulator_simps [simp]:
  "episodeIndex (ex_simulator t) = t"
  "gridManager_eclState (ex_simulator t) = ex_eclState"
  "gridView (ex_simulator t) = [\<lparr> partitionType = InteriorEntity, globalSpaceIndex = [0, 1] \<rparr>,
                 \<lparr> partitionType = GhostEntity, globalSpaceIndex = [2] \<rparr>]"
  "cartesianCellId (ex_simulator t) = int"
  by (simp_all add: ex_simulator_def fun_eq_iff)

lemma ex_eclState_simps [simp]:
  "getWells (getSchedule ex_eclState) t = [ex_producer, ex_injector]"
  "getAllWells (getSchedule ex_eclState) = [ex_producer, ex_injector]"
  "getNX ex_eclState = 3" "getNY ex_eclState = 1"
  by (simp_all add: ex_eclState_def)

lemma ex_producer_simps [simp]:
  "name ex_producer = ''PROD''" "getStatus ex_producer t = WellCommon_AUTO"
  "isInjector ex_producer t = False" "isProducer ex_producer t = True"
  "getProductionProperties ex_producer t = ex_productionProperties"
  "getRefDepthDefaulted ex_producer = True"
  "getCompletions ex_producer t = [ex_completion 0 0 0]"
  by (simp_all add: ex_producer_def)

lemma ex_injector_simps [simp]:
  "name ex_injector = ''INJ''" "getStatus ex_injector t = WellCommon_STOP"
  "isInjector ex_injector t = True" "isProducer ex_injector t = False"
  "getInjectionProperties ex_injector t = ex_injectionProperties"
  "getRefDepthDefaulted ex_injector = False" "getRefDepth ex_injector = Finite 2000"
  "getCompletions ex_injector t = [ex_completion 2 0 0]"
  by (simp_all add: ex_injector_def)

lemmas ex_eval_steps =
  beginEpisode_def computeWellCompletionsMap_def cartIdxOf_def hasWell_def well_def wellIndex_def
  updateWellTopology_def clearAuxiliaryModules_def addAuxiliaryModule_def
  clear_def addDof_def updateWellParameters_def updWell_def applyCompletion_def
  setRadius_def setConnectionTransmissibilityFactor_def
  setDeckWell_def setDeckWellStatus_def setInjector_def setProducer_def Well_setters Let_def

lemmas ex_eval = ex_eval_steps wellTopologyChanged_def

lemma ex_beginEpisode_ok:
  "\<exists>m'. beginEpisode (ex_simulator 0) ex_eclState False ex_manager = Inr m'"
  unfolding ex_manager_eq
  by (simp add: ex_eval newWell_def ex_completion_def ex_injectionProperties_def ex_productionProperties_def)

lemma ex_drift_simps [simp]:
  "episodeIndex (ex_drift_simulator g t) = t"
  "gridManager_eclState (ex_drift_simulator g t) = ex_drift_eclState g"
  "gridView (ex_drift_simulator g t) = gridView (ex_simulator t)"
  "cartesianCellId (ex_drift_simulator g t) = int"
  "getWells (getSchedule (ex_drift_eclState g)) t = [ex_producer, ex_injector, g]"
  "getNX (ex_drift_eclState g) = 3" "getNY (ex_drift_eclState g) = 1"
  by (simp_all add: ex_drift_simulator_def ex_drift_eclState_def)

lemma ex_ghost_simps [simp]:
  "name (ex_ghost a b ty d cs) = ''GHOST''"
  "isInjector (ex_ghost a b ty d cs) t = a"
  "isProducer (ex_ghost a b ty d cs) t = b"
  "getRefDepthDefaulted (ex_ghost a b ty d cs) = d"
  "getCompletions (ex_ghost a b ty d cs) t = cs"
  "injectorType (getInjectionProperties (ex_ghost a b ty d cs) t) = ty"
  by (simp_all add: ex_ghost_def)

lemma ex_drift_ok:
  "\<exists>m'. beginEpisode (ex_drift_simulator (ex_ghost a b ty True cs) 0)
          (ex_drift_eclState (ex_ghost a b ty True cs)) False ex_manager = Inr m'"
  unfolding ex_manager_eq
  by (simp add: ex_eval newWell_def ex_completion_def ex_injectionProperties_def ex_productionProperties_def)

lemma ex_drift_depth:
  "beginEpisode (ex_drift_simulator (ex_ghost a b ty False cs) 0)
          (ex_drift_eclState (ex_ghost a b ty False cs)) False ex_manager
     = Inl (RuntimeError (''No well called '' @ [CHR 0x27] @ ''GHOST'' @ [CHR 0x27] @ ''found''))"
  unfolding ex_manager_eq
  by (simp add: ex_eval newWell_def ex_completion_def ex_injectionProperties_def ex_productionProperties_def)

subsection \<open>The loop body: type, errors\<close>

lemma lastDeckWellNamed_exists:
  "d \<in> set ds \<Longrightarrow> \<exists>d'. lastDeckWellNamed (name d) ds = Some d'"
  by (induction ds) (auto split: option.splits)

lemma setDeckWell_assert:
  "isInjector d t = isProducer d t \<Longrightarrow>
   setDeckWell t d w = Inl (AssertionFailed ''isInjector + isProducer == 1'')"
  by (simp add: setDeckWell_def Let_def)

lemma setDeckWell_wellType:
  assumes "setDeckWell t d w = Inr w'"
  shows "wellType w' = Some Injector \<and> isInjector d t \<and> \<not> isProducer d t
       \<or> wellType w' = Some Producer \<and> isProducer d t \<and> \<not> isInjector d t"
  using assms
  by (cases rule: setDeckWell_Inr) (simp_all add: setInjector_Inr(1) setProducer_Inr(1))

lemma setInjector_errors:
  shows "injectorType p = WellInjector_MULTI \<Longrightarrow>
           setInjector p w = Inl (notImplemented ''Multi-phase injector wells'')"
    and "injectorType p \<noteq> WellInjector_MULTI \<Longrightarrow> inj_controlMode p = WellInjector_GRUP \<Longrightarrow>
           setInjector p w = Inl (notImplemented ''Well groups'')"
    and "injectorType p \<noteq> WellInjector_MULTI \<Longrightarrow> inj_controlMode p = WellInjector_CMODE_UNDEFINED \<Longrightarrow>
           setInjector p w = Inl (controlModeUndefined (wellName w))"
  by (cases "injectorType p"; simp add: setInjector_def Well_setters Let_def)+

lemma setProducer_errors:
  shows "prod_controlMode p = WellProducer_CRAT \<Longrightarrow>
           setProducer p w = Inl (notImplemented ''Linearly combined rates'')"
    and "prod_controlMode p = WellProducer_GRUP \<Longrightarrow>
           setProducer p w = Inl (notImplemented ''Well groups'')"
    and "prod_controlMode p = WellProducer_CMODE_UNDEFINED \<Longrightarrow>
           setProducer p w = Inl (controlModeUndefined (wellName w))"
  by (simp_all add: setProducer_def Well_setters Let_def)

lemma setDeckWell_injector:
  "isInjector d t \<Longrightarrow> \<not> isProducer d t \<Longrightarrow>
   setDeckWell t d w = setInjector (getInjectionProperties d t) (setDeckWellStatus (getStatus d t) w)"
  by (simp add: setDeckWell_def Let_def split: sum.splits)

lemma setDeckWell_producer:
  "isProducer d t \<Longrightarrow> \<not> isInjector d t \<Longrightarrow>
   setDeckWell t d w = setProducer (getProductionProperties d t) (setDeckWellStatus (getStatus d t) w)"
  by (simp add: setDeckWell_def Let_def)

lemma setDeckWell_supported:
  assumes "setDeckWell t d w = Inr w'"
  shows "\<not> (isInjector d t \<and> injectorType (getInjectionProperties d t) = WellInjector_MULTI)"
    and "\<not> (isInjector d t \<and> inj_controlMode (getInjectionProperties d t) = WellInjector_GRUP)"
    and "\<not> (isInjector d t \<and> inj_controlMode (getInjectionProperties d t) = WellInjector_CMODE_UNDEFINED)"
    and "\<not> (isProducer d t \<and> prod_controlMode (getProductionProperties d t) = WellProducer_CRAT)"
    and "\<not> (isProducer d t \<and> prod_controlMode (getProductionProperties d t) = WellProducer_GRUP)"
    and "\<not> (isProducer d t \<and> prod_controlMode (getProductionProperties d t) = WellProducer_CMODE_UNDEFINED)"
  using assms
  by (cases rule: setDeckWell_Inr; simp add: setInjector_Inr(3,4,5) setProducer_Inr(3,4,5))+

subsection \<open>The completions map\<close>

lemma knownCompletions_simps [simp]:
  "knownCompletions m t [] = []"
  "knownCompletions m t (d # ds) =
     (if hasWell m (name d) then getCompletions d t @ knownCompletions m t ds
      else knownCompletions m t ds)"
  by (simp_all add: knownCompletions_def)

lemma completionLoop_Inr:
  assumes "well m n = Inr i"
  shows "completionLoop m nx ny n cs cm0 = Inr cm \<Longrightarrow>
     distinct (map (cartIdxOf nx ny) cs) \<and> cartIdxOf nx ny ` set cs \<inter> dom cm0 = {} \<and>
     dom cm = dom cm0 \<union> cartIdxOf nx ny ` set cs \<and>
     (\<forall>x. x \<notin> cartIdxOf nx ny ` set cs \<longrightarrow> cm x = cm0 x) \<and>
     (\<forall>c \<in> set cs. cm (cartIdxOf nx ny c) = Some (c, i))"
proof (induction cs arbitrary: cm0)
  case Nil
  then show ?case by simp
next
  case (Cons c cs)
  let ?k = "cartIdxOf nx ny c"
  from Cons.prems assms have free: "cm0 ?k = None"
    and rest: "completionLoop m nx ny n cs (cm0(?k \<mapsto> (c, i))) = Inr cm"
    by (cases "cm0 ?k"; simp add: Let_def)+
  note IH = Cons.IH[OF rest]
  from IH have nk: "?k \<notin> cartIdxOf nx ny ` set cs" by auto
  have 1: "distinct (map (cartIdxOf nx ny) (c # cs))" using IH nk by simp
  have 2: "cartIdxOf nx ny ` set (c # cs) \<inter> dom cm0 = {}" using IH free by auto
  have 3: "dom cm = dom cm0 \<union> cartIdxOf nx ny ` set (c # cs)" using IH by auto
  have 4: "\<forall>x. x \<notin> cartIdxOf nx ny ` set (c # cs) \<longrightarrow> cm x = cm0 x" using IH by auto
  have "cm ?k = Some (c, i)" using IH nk by simp
  then have 5: "\<forall>c' \<in> set (c # cs). cm (cartIdxOf nx ny c') = Some (c', i)" using IH by simp
  from 1 2 3 4 5 show ?case by blast
qed

lemma completionLoop_Inl:
  assumes "well m n = Inr i"
  shows "completionLoop m nx ny n cs cm0 = Inl e \<Longrightarrow>
     e = AssertionFailed ''cartesianIdxToCompletionMap.count(cartIdx) == 0'' \<and>
     \<not> (distinct (map (cartIdxOf nx ny) cs) \<and> cartIdxOf nx ny ` set cs \<inter> dom cm0 = {})"
proof (induction cs arbitrary: cm0)
  case Nil
  then show ?case by simp
next
  case (Cons c cs)
  let ?k = "cartIdxOf nx ny c"
  show ?case
  proof (cases "cm0 ?k")
    case (Some a)
    with Cons.prems show ?thesis by (auto simp: Let_def)
  next
    case None
    with Cons.prems assms have "completionLoop m nx ny n cs (cm0(?k \<mapsto> (c, i))) = Inl e"
      by (simp add: Let_def)
    from Cons.IH[OF this] have e: "e = AssertionFailed ''cartesianIdxToCompletionMap.count(cartIdx) == 0''"
      and n: "\<not> (distinct (map (cartIdxOf nx ny) cs) \<and>
                cartIdxOf nx ny ` set cs \<inter> dom (cm0(?k \<mapsto> (c, i))) = {})"
      by blast+
    have "\<not> (distinct (map (cartIdxOf nx ny) (c # cs)) \<and>
             cartIdxOf nx ny ` set (c # cs) \<inter> dom cm0 = {})"
    proof
      assume a: "distinct (map (cartIdxOf nx ny) (c # cs)) \<and>
             cartIdxOf nx ny ` set (c # cs) \<inter> dom cm0 = {}"
      then have "distinct (map (cartIdxOf nx ny) cs)" and "?k \<notin> cartIdxOf nx ny ` set cs"
        and "cartIdxOf nx ny ` set cs \<inter> dom cm0 = {}"
        by auto
      then have "distinct (map (cartIdxOf nx ny) cs) \<and>
                cartIdxOf nx ny ` set cs \<inter> dom (cm0(?k \<mapsto> (c, i))) = {}"
        by auto
      with n show False by blast
    qed
    with e show ?thesis by blast
  qed
qed

lemma deckWellCompletionsLoop_Inr:
  assumes wf: "wf_manager m"
  shows "deckWellCompletionsLoop m nx ny t ds cm0 = Inr cm \<Longrightarrow>
     distinct (map (cartIdxOf nx ny) (knownCompletions m t ds)) \<and>
     cartIdxOf nx ny ` set (knownCompletions m t ds) \<inter> dom cm0 = {} \<and>
     dom cm = dom cm0 \<union> cartIdxOf nx ny ` set (knownCompletions m t ds) \<and>
     (\<forall>x. x \<notin> cartIdxOf nx ny ` set (knownCompletions m t ds) \<longrightarrow> cm x = cm0 x) \<and>
     (\<forall>d \<in> set ds. \<forall>i. wellNameToIndex m (name d) = Some i \<longrightarrow>
        (\<forall>c \<in> set (getCompletions d t). cm (cartIdxOf nx ny c) = Some (c, i)))"
proof (induction ds arbitrary: cm0)
  case Nil
  then show ?case by simp
next
  case (Cons d ds)
  show ?case
  proof (cases "hasWell m (name d)")
    case False
    with Cons.prems have "deckWellCompletionsLoop m nx ny t ds cm0 = Inr cm" by simp
    from Cons.IH[OF this] False show ?thesis by (auto simp: hasWell_def)
  next
    case True
    then obtain i where i: "wellNameToIndex m (name d) = Some i" by (auto simp: hasWell_def)
    with wf have w: "well m (name d) = Inr i" by (rule well_wf)
    from True Cons.prems obtain cm1 where
      c1: "completionLoop m nx ny (name d) (getCompletions d t) cm0 = Inr cm1"
      and rest: "deckWellCompletionsLoop m nx ny t ds cm1 = Inr cm"
      by (auto split: sum.splits)
    note A = completionLoop_Inr[OF w c1]
    note B = Cons.IH[OF rest]
    let ?K = "cartIdxOf nx ny"
    let ?cs = "getCompletions d t"
    let ?ks = "knownCompletions m t ds"
    from A have A1: "distinct (map ?K ?cs)" and A2: "?K ` set ?cs \<inter> dom cm0 = {}"
      and A3: "dom cm1 = dom cm0 \<union> ?K ` set ?cs"
      and A4: "\<And>x. x \<notin> ?K ` set ?cs \<Longrightarrow> cm1 x = cm0 x"
      by blast+
    from B have B1: "distinct (map ?K ?ks)" and B2: "?K ` set ?ks \<inter> dom cm1 = {}"
      and B3: "dom cm = dom cm1 \<union> ?K ` set ?ks"
      and B4: "\<And>x. x \<notin> ?K ` set ?ks \<Longrightarrow> cm x = cm1 x"
      by blast+
    have disj: "?K ` set ?cs \<inter> ?K ` set ?ks = {}" using A3 B2 by auto
    have 1: "distinct (map ?K (knownCompletions m t (d # ds)))"
      using A1 B1 disj True by simp
    have 2: "?K ` set (knownCompletions m t (d # ds)) \<inter> dom cm0 = {}"
      using A2 A3 B2 True by auto
    have 3: "dom cm = dom cm0 \<union> ?K ` set (knownCompletions m t (d # ds))"
      using A3 B3 True by auto
    have 4: "\<forall>x. x \<notin> ?K ` set (knownCompletions m t (d # ds)) \<longrightarrow> cm x = cm0 x"
      using A4 B4 True by (simp add: image_Un)
    have 5: "\<forall>c \<in> set ?cs. cm (?K c) = Some (c, i)"
    proof
      fix c assume c: "c \<in> set ?cs"
      with disj have "?K c \<notin> ?K ` set ?ks" by auto
      with B have "cm (?K c) = cm1 (?K c)" by simp
      with A c show "cm (?K c) = Some (c, i)" by simp
    qed
    have 6: "\<forall>d' \<in> set (d # ds). \<forall>j. wellNameToIndex m (name d') = Some j \<longrightarrow>
        (\<forall>c \<in> set (getCompletions d' t). cm (?K c) = Some (c, j))"
      using 5 i B by auto
    from 1 2 3 4 6 show ?thesis by blast
  qed
qed

lemma deckWellCompletionsLoop_Inl:
  assumes wf: "wf_manager m"
  shows "deckWellCompletionsLoop m nx ny t ds cm0 = Inl e \<Longrightarrow>
     e = AssertionFailed ''cartesianIdxToCompletionMap.count(cartIdx) == 0''"
proof (induction ds arbitrary: cm0)
  case Nil
  then show ?case by simp
next
  case (Cons d ds)
  show ?case
  proof (cases "hasWell m (name d)")
    case False
    with Cons show ?thesis by simp
  next
    case True
    then obtain i where i: "wellNameToIndex m (name d) = Some i" by (auto simp: hasWell_def)
    with wf have w: "well m (name d) = Inr i" by (rule well_wf)
    show ?thesis
    proof (cases "completionLoop m nx ny (name d) (getCompletions d t) cm0")
      case (Inl e')
      with True Cons.prems have "e' = e" by simp
      with completionLoop_Inl[OF w Inl] show ?thesis by simp
    next
      case (Inr cm1)
      with True Cons.prems have "deckWellCompletionsLoop m nx ny t ds cm1 = Inl e" by simp
      from Cons.IH[OF this] show ?thesis .
    qed
  qed
qed

subsection \<open>The topology-change detector\<close>

lemma wellTopologyChanged_0: "wellTopologyChanged eclState' 0"
  by (simp add: wellTopologyChanged_def)

lemma prevCompletionLoop_same:
  "i < length cs \<Longrightarrow> \<not> prevCompletionLoop (cs ! i) cs i 0"
  by (cases cs) (simp_all add: prevCompletionLoop.simps[of _ _ _ 0] sameIJK_def)

lemma curCompletionLoop_same: "\<not> curCompletionLoop cs cs"
  by (simp add: curCompletionLoop_def list_ex_iff prevCompletionLoop_same)

text \<open>The previous completion set is read at the current report step: a deck well that
  is in both report steps is compared with itself.\<close>

lemma curWellLoop_same:
  "distinct (map name prev) \<Longrightarrow> set cur \<subseteq> set prev \<Longrightarrow> \<not> curWellLoop t prev cur"
proof (induction cur)
  case Nil
  then show ?case by simp
next
  case (Cons c cur)
  from Cons.prems have c: "c \<in> set prev" by simp
  have "find (\<lambda>p. name p = name c) prev = Some c"
    using Cons.prems(1) c
  proof (induction prev)
    case Nil
    then show ?case by simp
  next
    case (Cons p prev)
    then show ?case by (cases "p = c") force+
  qed
  with Cons show ?case by (simp add: curCompletionLoop_same)
qed

lemma wellTopologyChanged_same_wells:
  assumes "0 < t" and "distinct (map name (getWells (getSchedule eclState') (t - 1)))"
    and "getWells (getSchedule eclState') t = getWells (getSchedule eclState') (t - 1)"
  shows "\<not> wellTopologyChanged eclState' t"
  using assms by (simp add: wellTopologyChanged_def Let_def curWellLoop_same)

subsection \<open>The topology rebuild\<close>

lemma completionDofs_Nil [simp]: "completionDofs cc cm k [] = {}"
  by (simp add: completionDofs_def)

lemma completionDofs_Cons:
  "completionDofs cc cm k (g # gs) =
     (if \<exists>c. cm (cc g) = Some (c, k) then insert g (completionDofs cc cm k gs)
      else completionDofs cc cm k gs)"
  by (auto simp: completionDofs_def)

lemma completionDofs_append [simp]:
  "completionDofs cc cm k (gs @ hs) = completionDofs cc cm k gs \<union> completionDofs cc cm k hs"
  by (auto simp: completionDofs_def)

lemma addDof_dom: "dom (dofVariables (addDof g w)) = insert g (dom (dofVariables w))"
  by (auto simp: addDof_def split: option.splits)

lemma topologyDofLoop_char:
  assumes "\<forall>x c k. cm x = Some (c, k) \<longrightarrow> k < length ws"
  shows "length (fst (topologyDofLoop cc cm gs (ws, S))) = length ws
       \<and> (\<forall>k < length ws. dom (dofVariables (fst (topologyDofLoop cc cm gs (ws, S)) ! k))
              = dom (dofVariables (ws ! k)) \<union> completionDofs cc cm k gs)
       \<and> set (snd (topologyDofLoop cc cm gs (ws, S)))
              = set S \<union> {k. completionDofs cc cm k gs \<noteq> {}}"
  using assms
proof (induction gs arbitrary: ws S)
  case Nil
  then show ?case by simp
next
  case (Cons g gs)
  show ?case
  proof (cases "cm (cc g)")
    case None
    then have "\<And>k. completionDofs cc cm k (g # gs) = completionDofs cc cm k gs"
      by (simp add: completionDofs_Cons)
    with Cons.IH[OF Cons.prems, of S] None show ?thesis by simp
  next
    case (Some a)
    obtain c k0 where a: "a = (c, k0)" by (cases a)
    let ?ws1 = "ws[k0 := addDof g (ws ! k0)]"
    let ?S1 = "List.insert k0 S"
    let ?R = "topologyDofLoop cc cm gs (?ws1, ?S1)"
    have R: "topologyDofLoop cc cm (g # gs) (ws, S) = ?R" using Some a by simp
    from Some a Cons.prems have k0: "k0 < length ws" by blast
    have v1: "\<forall>x c k. cm x = Some (c, k) \<longrightarrow> k < length ?ws1" using Cons.prems by simp
    note IH = Cons.IH[OF v1, of ?S1]
    have cd: "\<And>k. completionDofs cc cm k (g # gs) =
        (if k = k0 then insert g (completionDofs cc cm k gs) else completionDofs cc cm k gs)"
      using Some a by (simp add: completionDofs_Cons)
    have 1: "length (fst ?R) = length ws" using IH by simp
    have 2: "\<forall>k < length ws. dom (dofVariables (fst ?R ! k))
              = dom (dofVariables (ws ! k)) \<union> completionDofs cc cm k (g # gs)"
    proof (intro allI impI)
      fix k assume k: "k < length ws"
      with IH have "dom (dofVariables (fst ?R ! k))
              = dom (dofVariables (?ws1 ! k)) \<union> completionDofs cc cm k gs" by simp
      also have "dom (dofVariables (?ws1 ! k)) =
          (if k = k0 then insert g (dom (dofVariables (ws ! k))) else dom (dofVariables (ws ! k)))"
        using k by (simp add: addDof_dom nth_list_update)
      finally show "dom (dofVariables (fst ?R ! k))
              = dom (dofVariables (ws ! k)) \<union> completionDofs cc cm k (g # gs)"
        by (auto simp: cd)
    qed
    have 3: "set (snd ?R) = set S \<union> {k. completionDofs cc cm k (g # gs) \<noteq> {}}"
      using IH by (auto simp: cd)
    from 1 2 3 show ?thesis unfolding R by blast
  qed
qed

lemma topologyElemLoop_char:
  assumes "\<forall>x c k. cm x = Some (c, k) \<longrightarrow> k < length ws"
  shows "length (fst (topologyElemLoop cc cm es (ws, S))) = length ws
       \<and> (\<forall>k < length ws. dom (dofVariables (fst (topologyElemLoop cc cm es (ws, S)) ! k))
              = dom (dofVariables (ws ! k)) \<union>
                completionDofs cc cm k
                  (concat (map globalSpaceIndex (filter (\<lambda>e. partitionType e = InteriorEntity) es))))
       \<and> set (snd (topologyElemLoop cc cm es (ws, S)))
              = set S \<union> {k. completionDofs cc cm k
                  (concat (map globalSpaceIndex (filter (\<lambda>e. partitionType e = InteriorEntity) es))) \<noteq> {}}"
  using assms
proof (induction es arbitrary: ws S)
  case Nil
  then show ?case by simp
next
  case (Cons e es)
  show ?case
  proof (cases "partitionType e = InteriorEntity")
    case False
    with Cons.IH[OF Cons.prems, of S] show ?thesis by simp
  next
    case True
    obtain ws1 S1 where d: "topologyDofLoop cc cm (globalSpaceIndex e) (ws, S) = (ws1, S1)"
      by (cases "topologyDofLoop cc cm (globalSpaceIndex e) (ws, S)")
    from topologyDofLoop_char[OF Cons.prems, of cc "globalSpaceIndex e" S] d
    have l1: "length ws1 = length ws"
      and d1: "\<forall>k < length ws. dom (dofVariables (ws1 ! k))
              = dom (dofVariables (ws ! k)) \<union> completionDofs cc cm k (globalSpaceIndex e)"
      and s1: "set S1 = set S \<union> {k. completionDofs cc cm k (globalSpaceIndex e) \<noteq> {}}"
      by simp_all
    from Cons.prems l1 have v1: "\<forall>x c k. cm x = Some (c, k) \<longrightarrow> k < length ws1" by simp
    note IH = Cons.IH[OF v1, of S1]
    have R: "topologyElemLoop cc cm (e # es) (ws, S) = topologyElemLoop cc cm es (ws1, S1)"
      using True d by simp
    show ?thesis
      unfolding R using IH l1 d1 s1 True by (auto simp: Un_assoc)
  qed
qed

lemma fold_addAuxiliaryModule:
  "fold (\<lambda>k. addAuxiliaryModule (WellModule k)) S reg = reg \<union> WellModule ` set S"
  by (induction S arbitrary: reg) (auto simp: addAuxiliaryModule_def)

lemma completionLoop_valid:
  "completionLoop m nx ny n cs cm0 = Inr cm \<Longrightarrow>
   \<forall>x c k. cm0 x = Some (c, k) \<longrightarrow> k < length (wells m) \<Longrightarrow>
   \<forall>x c k. cm x = Some (c, k) \<longrightarrow> k < length (wells m)"
proof (induction cs arbitrary: cm0)
  case Nil
  then show ?case by simp
next
  case (Cons a cs)
  from Cons.prems(1) obtain i where i: "well m n = Inr i"
    and rest: "completionLoop m nx ny n cs (cm0(cartIdxOf nx ny a \<mapsto> (a, i))) = Inr cm"
    by (auto simp: Let_def split: if_splits sum.splits)
  from i have "i < length (wells m)" by (simp add: well_Inr)
  with Cons.prems(2)
  have "\<forall>x c k. (cm0(cartIdxOf nx ny a \<mapsto> (a, i))) x = Some (c, k) \<longrightarrow> k < length (wells m)"
    by simp
  from Cons.IH[OF rest this] show ?case .
qed

lemma deckWellCompletionsLoop_valid:
  "deckWellCompletionsLoop m nx ny t ds cm0 = Inr cm \<Longrightarrow>
   \<forall>x c k. cm0 x = Some (c, k) \<longrightarrow> k < length (wells m) \<Longrightarrow>
   \<forall>x c k. cm x = Some (c, k) \<longrightarrow> k < length (wells m)"
proof (induction ds arbitrary: cm0)
  case Nil
  then show ?case by simp
next
  case (Cons d ds)
  show ?case
  proof (cases "hasWell m (name d)")
    case False
    with Cons.prems(1) have "deckWellCompletionsLoop m nx ny t ds cm0 = Inr cm" by simp
    from Cons.IH[OF this Cons.prems(2)] show ?thesis .
  next
    case True
    with Cons.prems(1) obtain cm1 where
      c1: "completionLoop m nx ny (name d) (getCompletions d t) cm0 = Inr cm1"
      and rest: "deckWellCompletionsLoop m nx ny t ds cm1 = Inr cm"
      by (auto split: sum.splits)
    from Cons.IH[OF rest completionLoop_valid[OF c1 Cons.prems(2)]] show ?thesis .
  qed
qed

lemma computeWellCompletionsMap_valid:
  "computeWellCompletionsMap sim m t Map.empty = Inr cm \<Longrightarrow>
   \<forall>x c k. cm x = Some (c, k) \<longrightarrow> k < length (wells m)"
  unfolding computeWellCompletionsMap_def Let_def
  by (erule deckWellCompletionsLoop_valid) simp

lemma updateWellTopology_char:
  assumes "\<forall>x c k. cm x = Some (c, k) \<longrightarrow> k < length (wells m)"
  shows "wellNameToIndex (updateWellTopology sim t cm m) = wellNameToIndex m"
    and "length (wells (updateWellTopology sim t cm m)) = length (wells m)"
    and "\<forall>k < length (wells m). dom (dofVariables (wells (updateWellTopology sim t cm m) ! k))
            = completionDofs (cartesianCellId sim) cm k (localDofs sim)"
    and "auxiliaryModules (updateWellTopology sim t cm m)
            = {a \<in> auxiliaryModules m. \<not> isWellModule a}
              \<union> WellModule ` {k. completionDofs (cartesianCellId sim) cm k (localDofs sim) \<noteq> {}}"
proof -
  obtain ws S where
    e: "topologyElemLoop (cartesianCellId sim) cm (gridView sim) (map clear (wells m), []) = (ws, S)"
    by (cases "topologyElemLoop (cartesianCellId sim) cm (gridView sim) (map clear (wells m), [])")
  have v: "\<forall>x c k. cm x = Some (c, k) \<longrightarrow> k < length (map clear (wells m))"
    using assms by simp
  from topologyElemLoop_char[OF v, of "cartesianCellId sim" "gridView sim" "[]"] e
  have l: "length ws = length (wells m)"
    and d: "\<forall>k < length (wells m). dom (dofVariables (ws ! k))
              = completionDofs (cartesianCellId sim) cm k (localDofs sim)"
    and s: "set S = {k. completionDofs (cartesianCellId sim) cm k (localDofs sim) \<noteq> {}}"
    by (simp_all add: localDofs_def clear_def)
  have u: "updateWellTopology sim t cm m =
      m\<lparr>wells := ws, auxiliaryModules := clearAuxiliaryModules (auxiliaryModules m) \<union> WellModule ` set S\<rparr>"
    by (simp add: updateWellTopology_def e Let_def fold_addAuxiliaryModule)
  show "wellNameToIndex (updateWellTopology sim t cm m) = wellNameToIndex m" by (simp add: u)
  show "length (wells (updateWellTopology sim t cm m)) = length (wells m)" by (simp add: u l)
  show "\<forall>k < length (wells m). dom (dofVariables (wells (updateWellTopology sim t cm m) ! k))
            = completionDofs (cartesianCellId sim) cm k (localDofs sim)" using d by (simp add: u)
  show "auxiliaryModules (updateWellTopology sim t cm m)
            = {a \<in> auxiliaryModules m. \<not> isWellModule a}
              \<union> WellModule ` {k. completionDofs (cartesianCellId sim) cm k (localDofs sim) \<noteq> {}}"
    by (simp add: u s clearAuxiliaryModules_def)
qed

lemma ex_stale_manager_eq:
  "ex_stale_manager = \<lparr> wells = [newWell ''PROD'', addDof 5 (newWell ''INJ'')],
      wellNameToIndex = [''PROD'' \<mapsto> 0, ''INJ'' \<mapsto> 1],
      auxiliaryModules = {OtherModule 7, WellModule 1} \<rparr>"
  by (simp add: ex_stale_manager_def ex_manager_eq)

lemma ex_stale_cm:
  "computeWellCompletionsMap (ex_simulator t) ex_stale_manager t Map.empty
     = Inr [0 \<mapsto> (ex_completion 0 0 0, 0), 2 \<mapsto> (ex_completion 2 0 0, 1)]"
  unfolding ex_stale_manager_eq
  by (simp add: computeWellCompletionsMap_def hasWell_def well_def wellIndex_def cartIdxOf_def
      ex_completion_def)

subsection \<open>What a rebuild depends on\<close>

lemma map_update_cong:
  assumes "map f xs = map f ys"
    and "k < length xs \<Longrightarrow> f (xs ! k) = f (ys ! k) \<Longrightarrow> f x' = f y'"
  shows "map f (xs[k := x']) = map f (ys[k := y'])"
proof (cases "k < length xs")
  case True
  from assms(1) have l: "length xs = length ys" by (metis length_map)
  from assms(1) True l have "f (xs ! k) = f (ys ! k)" by (metis nth_map)
  with assms(2) True have "f x' = f y'" by blast
  with assms(1) show ?thesis by (simp add: map_update)
next
  case False
  from assms(1) have l: "length xs = length ys" by (metis length_map)
  with False assms(1) show ?thesis by (simp add: list_update_beyond)
qed

lemma addDof_cong:
  "dofVariables w1 = dofVariables w2 \<Longrightarrow> dofVariables (addDof g w1) = dofVariables (addDof g w2)"
  by (simp add: addDof_def split: option.splits)

lemma applyCompletion_cong:
  "dofVariables w1 = dofVariables w2 \<Longrightarrow>
   dofVariables (applyCompletion g c w1) = dofVariables (applyCompletion g c w2)"
  by (simp add: applyCompletion_def setRadius_def setConnectionTransmissibilityFactor_def Let_def
      split: option.splits)

lemma topologyDofLoop_cong:
  "map dofVariables ws1 = map dofVariables ws2 \<Longrightarrow>
   map dofVariables (fst (topologyDofLoop cc cm gs (ws1, S1)))
     = map dofVariables (fst (topologyDofLoop cc cm gs (ws2, S2)))"
proof (induction gs arbitrary: ws1 ws2 S1 S2)
  case Nil
  then show ?case by simp
next
  case (Cons g gs)
  show ?case
  proof (cases "cm (cc g)")
    case None
    with Cons.IH[OF Cons.prems, of S1 S2] show ?thesis by simp
  next
    case (Some a)
    obtain c k where a: "a = (c, k)" by (cases a)
    have "map dofVariables (ws1[k := addDof g (ws1 ! k)])
            = map dofVariables (ws2[k := addDof g (ws2 ! k)])"
      using Cons.prems by (rule map_update_cong) (rule addDof_cong)
    from Cons.IH[OF this] Some a show ?thesis by simp
  qed
qed

lemma topologyElemLoop_cong:
  "map dofVariables ws1 = map dofVariables ws2 \<Longrightarrow>
   map dofVariables (fst (topologyElemLoop cc cm es (ws1, S1)))
     = map dofVariables (fst (topologyElemLoop cc cm es (ws2, S2)))"
proof (induction es arbitrary: ws1 ws2 S1 S2)
  case Nil
  then show ?case by simp
next
  case (Cons e es)
  show ?case
  proof (cases "partitionType e = InteriorEntity")
    case False
    with Cons.IH[OF Cons.prems, of S1 S2] show ?thesis by simp
  next
    case True
    obtain a1 T1 where d1: "topologyDofLoop cc cm (globalSpaceIndex e) (ws1, S1) = (a1, T1)"
      by (cases "topologyDofLoop cc cm (globalSpaceIndex e) (ws1, S1)")
    obtain a2 T2 where d2: "topologyDofLoop cc cm (globalSpaceIndex e) (ws2, S2) = (a2, T2)"
      by (cases "topologyDofLoop cc cm (globalSpaceIndex e) (ws2, S2)")
    from topologyDofLoop_cong[OF Cons.prems, of cc cm "globalSpaceIndex e" S1 S2] d1 d2
    have "map dofVariables a1 = map dofVariables a2" by simp
    from Cons.IH[OF this, of T1 T2] True d1 d2 show ?thesis by simp
  qed
qed

lemma updateWellTopology_cong:
  assumes "length (wells m1) = length (wells m2)"
  shows "map dofVariables (wells (updateWellTopology sim t cm m1))
       = map dofVariables (wells (updateWellTopology sim t cm m2))"
proof -
  have "map dofVariables (map clear (wells m1)) = map dofVariables (map clear (wells m2))"
    using assms by (simp add: clear_def comp_def map_replicate_const)
  from topologyElemLoop_cong[OF this, of "cartesianCellId sim" cm "gridView sim" "[]" "[]"]
  show ?thesis
    by (auto simp: updateWellTopology_def Let_def split: prod.splits)
qed

lemma parametersDofLoop_cong:
  "map dofVariables ws1 = map dofVariables ws2 \<Longrightarrow>
   map dofVariables (parametersDofLoop cc cm gs ws1) = map dofVariables (parametersDofLoop cc cm gs ws2)"
proof (induction gs arbitrary: ws1 ws2)
  case Nil
  then show ?case by simp
next
  case (Cons g gs)
  show ?case
  proof (cases "cm (cc g)")
    case None
    then have "parametersDofLoop cc cm (g # gs) ws = parametersDofLoop cc cm gs ws" for ws
      by simp
    with Cons.IH[OF Cons.prems] show ?thesis by (simp only:)
  next
    case (Some a)
    obtain c k where a: "a = (c, k)" by (cases a)
    have step: "parametersDofLoop cc cm (g # gs) ws
        = parametersDofLoop cc cm gs (ws[k := applyCompletion g c (ws ! k)])" for ws
      using Some a by simp
    have "map dofVariables (ws1[k := applyCompletion g c (ws1 ! k)])
            = map dofVariables (ws2[k := applyCompletion g c (ws2 ! k)])"
      using Cons.prems by (rule map_update_cong) (rule applyCompletion_cong)
    from Cons.IH[OF this] show ?thesis by (simp only: step)
  qed
qed

lemma parametersElemLoop_cong:
  "map dofVariables ws1 = map dofVariables ws2 \<Longrightarrow>
   map dofVariables (parametersElemLoop cc cm es ws1) = map dofVariables (parametersElemLoop cc cm es ws2)"
proof (induction es arbitrary: ws1 ws2)
  case Nil
  then show ?case by simp
next
  case (Cons e es)
  show ?case
  proof (cases "partitionType e = InteriorEntity")
    case False
    with Cons.IH[OF Cons.prems] show ?thesis by simp
  next
    case True
    from Cons.IH[OF parametersDofLoop_cong[OF Cons.prems, of cc cm "globalSpaceIndex e"]] True
    show ?thesis by simp
  qed
qed

lemma refDepthLoop_frame:
  "refDepthLoop ds m = Inr m' \<Longrightarrow>
   map dofVariables (wells m') = map dofVariables (wells m) \<and> auxiliaryModules m' = auxiliaryModules m"
proof (induction ds arbitrary: m)
  case Nil
  then show ?case by simp
next
  case (Cons d ds)
  show ?case
  proof (cases "getRefDepthDefaulted d")
    case True
    with Cons show ?thesis by simp
  next
    case False
    with Cons.prems obtain i where
      rest: "refDepthLoop ds (updWell i (setReferenceDepth (getRefDepth d)) m) = Inr m'"
      by (auto split: sum.splits)
    have "map dofVariables (wells (updWell i (setReferenceDepth (getRefDepth d)) m))
            = map dofVariables (wells m)"
      by (simp add: updWell_def map_update_same setReferenceDepth_def)
    with Cons.IH[OF rest] show ?thesis by (simp add: updWell_def)
  qed
qed

lemma updateWellParameters_cong:
  assumes "updateWellParameters sim t cm m1 = Inr r1" and "updateWellParameters sim t cm m2 = Inr r2"
    and "map dofVariables (wells m1) = map dofVariables (wells m2)"
  shows "map dofVariables (wells r1) = map dofVariables (wells r2)"
proof -
  from assms(1) obtain a1 where
    a1: "refDepthLoop (getWells (getSchedule (gridManager_eclState sim)) t) m1 = Inr a1"
    and r1: "r1 = a1\<lparr>wells := parametersElemLoop (cartesianCellId sim) cm (gridView sim) (wells a1)\<rparr>"
    by (auto simp: updateWellParameters_def Let_def split: sum.splits)
  from assms(2) obtain a2 where
    a2: "refDepthLoop (getWells (getSchedule (gridManager_eclState sim)) t) m2 = Inr a2"
    and r2: "r2 = a2\<lparr>wells := parametersElemLoop (cartesianCellId sim) cm (gridView sim) (wells a2)\<rparr>"
    by (auto simp: updateWellParameters_def Let_def split: sum.splits)
  from refDepthLoop_frame[OF a1] refDepthLoop_frame[OF a2] assms(3)
  have "map dofVariables (wells a1) = map dofVariables (wells a2)" by simp
  from parametersElemLoop_cong[OF this] show ?thesis by (simp add: r1 r2)
qed

lemma well_cong:
  "wellNameToIndex m1 = wellNameToIndex m2 \<Longrightarrow> length (wells m1) = length (wells m2) \<Longrightarrow>
   well m1 n = well m2 n"
  by (simp add: well_def wellIndex_def split: option.splits)

lemma completionLoop_cong:
  "wellNameToIndex m1 = wellNameToIndex m2 \<Longrightarrow> length (wells m1) = length (wells m2) \<Longrightarrow>
   completionLoop m1 nx ny n cs cm0 = completionLoop m2 nx ny n cs cm0"
  by (induction cs arbitrary: cm0) (simp_all add: well_cong[of m1 m2] Let_def split: sum.splits)

lemma deckWellCompletionsLoop_cong:
  "wellNameToIndex m1 = wellNameToIndex m2 \<Longrightarrow> length (wells m1) = length (wells m2) \<Longrightarrow>
   deckWellCompletionsLoop m1 nx ny t ds cm0 = deckWellCompletionsLoop m2 nx ny t ds cm0"
  by (induction ds arbitrary: cm0)
     (simp_all add: completionLoop_cong[of m1 m2] hasWell_def split: sum.splits)

lemma computeWellCompletionsMap_cong:
  "wellNameToIndex m1 = wellNameToIndex m2 \<Longrightarrow> length (wells m1) = length (wells m2) \<Longrightarrow>
   computeWellCompletionsMap sim m1 t cm0 = computeWellCompletionsMap sim m2 t cm0"
  by (simp add: computeWellCompletionsMap_def deckWellCompletionsLoop_cong[of m1 m2])

text \<open>The DOFs of the wells after a beginEpisode that rebuilds the topology do not depend
  on the wells' state before.\<close>

lemma beginEpisode_rebuild_cong:
  assumes i: "wellNameToIndex m1 = wellNameToIndex m2" and l: "length (wells m1) = length (wells m2)"
    and b1: "beginEpisode sim es1 w1 m1 = Inr r1" and c1: "w1 \<or> wellTopologyChanged es1 (episodeIndex sim)"
    and b2: "beginEpisode sim es2 w2 m2 = Inr r2" and c2: "w2 \<or> wellTopologyChanged es2 (episodeIndex sim)"
  shows "map dofVariables (wells r1) = map dofVariables (wells r2)"
proof -
  let ?t = "episodeIndex sim"
  from b1 c1 obtain cm1 p1 where
    m1: "computeWellCompletionsMap sim m1 ?t Map.empty = Inr cm1"
    and p1: "updateWellParameters sim ?t cm1 (updateWellTopology sim ?t cm1 m1) = Inr p1"
    and d1: "deckWellLoop ?t (getWells (getSchedule es1) ?t) p1 = Inr r1"
    by (auto elim!: beginEpisode_Inr)
  from b2 c2 obtain cm2 p2 where
    m2: "computeWellCompletionsMap sim m2 ?t Map.empty = Inr cm2"
    and p2: "updateWellParameters sim ?t cm2 (updateWellTopology sim ?t cm2 m2) = Inr p2"
    and d2: "deckWellLoop ?t (getWells (getSchedule es2) ?t) p2 = Inr r2"
    by (auto elim!: beginEpisode_Inr)
  from m1 m2 computeWellCompletionsMap_cong[OF i l, of sim ?t Map.empty] have cm: "cm2 = cm1" by simp
  from updateWellParameters_cong[OF p1 p2[unfolded cm] updateWellTopology_cong[OF l]]
  have "map dofVariables (wells p1) = map dofVariables (wells p2)" .
  with deckWellLoop_frame[OF d1] deckWellLoop_frame[OF d2] show ?thesis by simp
qed

subsection \<open>The sum of the wells' rates\<close>

lemma totalRatesLoop_sum:
  "totalRatesLoop wellPhysics context dofIdx timeIdx ws q =
     q + sum_list (map (\<lambda>w. Well_computeTotalRatesForDof wellPhysics w 0 context dofIdx timeIdx) ws)"
  by (induction ws arbitrary: q) (simp_all add: Let_def add.assoc)

lemma sum_list_map_mset:
  fixes f :: "'a \<Rightarrow> 'q::comm_monoid_add"
  shows "mset xs = mset ys \<Longrightarrow> sum_list (map f xs) = sum_list (map f ys)"
  by (metis mset_map sum_mset_sum_list)

subsection \<open>A run with a change that the detector misses\<close>

text \<open>
  After the episodes 0 and 1 of the run on the changing schedule the well owns the DOF 0
  only, the topology of episode 0; \<^verbatim>\<open>deserialize\<close> at episode 1 gives it the DOFs 0
  and 1.
\<close>

lemma ex_growing_changed:
  "wellTopologyChanged ex_growing_eclState 0" "\<not> wellTopologyChanged ex_growing_eclState (Suc 0)"
  by (simp_all add: ex_growing_eclState_def ex_growing_def ex_completion_def
      wellTopologyChanged_def curCompletionLoop_def prevCompletionLoop.simps sameIJK_def)

lemma ex_growing_simps [simp]:
  "episodeIndex (ex_growing_simulator t) = t"
  "gridManager_eclState (ex_growing_simulator t) = ex_growing_eclState"
  "gridView (ex_growing_simulator t) = gridView (ex_simulator t)"
  "cartesianCellId (ex_growing_simulator t) = int"
  "getWells (getSchedule ex_growing_eclState) t = [ex_growing]"
  "getAllWells (getSchedule ex_growing_eclState) = [ex_growing]"
  "getNX ex_growing_eclState = 3" "getNY ex_growing_eclState = 1"
  "name ex_growing = ''PROD''" "getStatus ex_growing t = WellCommon_AUTO"
  "isInjector ex_growing t = False" "isProducer ex_growing t = True"
  "getProductionProperties ex_growing t = ex_productionProperties"
  "getRefDepthDefaulted ex_growing = True"
  "getCompletions ex_growing 0 = [ex_completion 0 0 0]"
  "getCompletions ex_growing (Suc 0) = [ex_completion 0 0 0, ex_completion 1 0 0]"
  by (simp_all add: ex_growing_simulator_def ex_growing_eclState_def ex_growing_def)

lemma ex_growing_init:
  "init ex_growing_eclState (EclWellManager_new {})
     = \<lparr> wells = [newWell ''PROD''], wellNameToIndex = [''PROD'' \<mapsto> 0], auxiliaryModules = {} \<rparr>"
  by (simp add: init_def EclWellManager_new_def)

lemma ex_growing_stale:
  "dom (dofVariables (wells (ex_growing_manager 1) ! 0)) = {0}"
  "dom (dofVariables (wells (projr (deserialize (ex_growing_simulator 1)
          (snd (serialize (ex_growing_manager 1))) (fst (serialize (ex_growing_manager 1))))) ! 0)) = {0, 1}"
  unfolding ex_growing_manager_def ex_growing_init deserialize_def serialize_def
  by (simp_all add: ex_eval_steps ex_growing_changed newWell_def ex_completion_def
      ex_productionProperties_def insert_commute)

subsection \<open>The errors of beginEpisode\<close>

lemma well_wf_Inl:
  "wf_manager m \<Longrightarrow> well m n = Inl e \<Longrightarrow> \<forall>s. e \<noteq> OutOfRange s"
  by (auto simp: well_def wellIndex_def wf_manager_def split: option.splits if_splits)

lemma setInjector_Inl: "setInjector p w = Inl e \<Longrightarrow> \<forall>s. e \<noteq> OutOfRange s"
  by (auto simp: setInjector_def notImplemented_def controlModeUndefined_def Let_def
      split: InjectorTypeEnum.splits InjectorCModeEnum.splits sum.splits)

lemma setProducer_Inl: "setProducer p w = Inl e \<Longrightarrow> \<forall>s. e \<noteq> OutOfRange s"
  by (auto simp: setProducer_def notImplemented_def controlModeUndefined_def Let_def
      split: ProducerCModeEnum.splits sum.splits)

lemma setDeckWell_Inl: "setDeckWell t d w = Inl e \<Longrightarrow> \<forall>s. e \<noteq> OutOfRange s"
  by (auto simp: setDeckWell_def Let_def split: if_splits sum.splits
      dest: setInjector_Inl setProducer_Inl)

lemma deckWellLoop_Inl:
  "wf_manager m \<Longrightarrow> deckWellLoop t ds m = Inl e \<Longrightarrow> \<forall>s. e \<noteq> OutOfRange s"
proof (induction ds arbitrary: m)
  case Nil
  then show ?case by simp
next
  case (Cons d ds)
  show ?case
  proof (cases "hasWell m (name d)")
    case False
    with Cons show ?thesis by simp
  next
    case True
    show ?thesis
    proof (cases "well m (name d)")
      case (Inl e')
      with True Cons.prems have "e' = e" by simp
      with well_wf_Inl[OF Cons.prems(1) Inl] show ?thesis by simp
    next
      case (Inr i)
      show ?thesis
      proof (cases "setDeckWell t d (wells m ! i)")
        case (Inl e')
        with True Inr Cons.prems have "e' = e" by simp
        with setDeckWell_Inl[OF Inl] show ?thesis by simp
      next
        case w: (Inr w)
        from w have "wellName w = wellName (wells m ! i)" by (simp add: setDeckWell_frame)
        then have "same_wells m (m\<lparr>wells := (wells m)[i := w]\<rparr>)" by (rule same_wells_update)
        then have wf1: "wf_manager (m\<lparr>wells := (wells m)[i := w]\<rparr>)"
          using Cons.prems(1) by (rule same_wells_wf)
        from True Inr w Cons.prems(2)
        have "deckWellLoop t ds (m\<lparr>wells := (wells m)[i := w]\<rparr>) = Inl e" by simp
        from Cons.IH[OF wf1 this] show ?thesis .
      qed
    qed
  qed
qed

lemma refDepthLoop_Inl:
  "wf_manager m \<Longrightarrow> refDepthLoop ds m = Inl e \<Longrightarrow> \<forall>s. e \<noteq> OutOfRange s"
proof (induction ds arbitrary: m)
  case Nil
  then show ?case by simp
next
  case (Cons d ds)
  show ?case
  proof (cases "getRefDepthDefaulted d")
    case True
    with Cons show ?thesis by simp
  next
    case False
    show ?thesis
    proof (cases "well m (name d)")
      case (Inl e')
      with False Cons.prems have "e' = e" by simp
      with well_wf_Inl[OF Cons.prems(1) Inl] show ?thesis by simp
    next
      case (Inr i)
      have "same_wells m (updWell i (setReferenceDepth (getRefDepth d)) m)"
        unfolding updWell_def by (rule same_wells_update) (simp add: setReferenceDepth_def)
      then have wf1: "wf_manager (updWell i (setReferenceDepth (getRefDepth d)) m)"
        using Cons.prems(1) by (rule same_wells_wf)
      from False Inr Cons.prems(2)
      have "refDepthLoop ds (updWell i (setReferenceDepth (getRefDepth d)) m) = Inl e" by simp
      from Cons.IH[OF wf1 this] show ?thesis .
    qed
  qed
qed

text \<open>Under the invariant no index outside the vector arises in beginEpisode.\<close>

lemma beginEpisode_Inl:
  assumes wf: "wf_manager m" and e: "beginEpisode sim es r m = Inl e"
  shows "\<forall>s. e \<noteq> OutOfRange s"
proof (cases "computeWellCompletionsMap sim m (episodeIndex sim) Map.empty")
  case (Inl e')
  with e have "e' = e" by (simp add: beginEpisode_def Let_def)
  with Inl have "deckWellCompletionsLoop m (getNX (gridManager_eclState sim))
      (getNY (gridManager_eclState sim)) (episodeIndex sim)
      (getWells (getSchedule (gridManager_eclState sim)) (episodeIndex sim)) Map.empty = Inl e"
    by (simp add: computeWellCompletionsMap_def Let_def)
  from deckWellCompletionsLoop_Inl[OF wf this] show ?thesis by simp
next
  case (Inr cm)
  let ?m1 = "if r \<or> wellTopologyChanged es (episodeIndex sim)
             then updateWellTopology sim (episodeIndex sim) cm m else m"
  have sw1: "same_wells m ?m1" by (simp add: same_wells_refl updateWellTopology_same_wells)
  then have wf1: "wf_manager ?m1" using wf by (rule same_wells_wf)
  show ?thesis
  proof (cases "updateWellParameters sim (episodeIndex sim) cm ?m1")
    case (Inl e')
    with Inr e have "e' = e" by (simp add: beginEpisode_def Let_def)
    with Inl have "refDepthLoop (getWells (getSchedule (gridManager_eclState sim)) (episodeIndex sim)) ?m1
        = Inl e"
      by (auto simp: updateWellParameters_def Let_def split: sum.splits)
    from refDepthLoop_Inl[OF wf1 this] show ?thesis .
  next
    case p: (Inr m2)
    from updateWellParameters_same_wells[OF p] wf1 have wf2: "wf_manager m2" by (rule same_wells_wf)
    from Inr p e have "deckWellLoop (episodeIndex sim) (getWells (getSchedule es) (episodeIndex sim)) m2
        = Inl e"
      by (simp add: beginEpisode_def Let_def)
    from deckWellLoop_Inl[OF wf2 this] show ?thesis .
  qed
qed

subsection \<open>beginEpisode at one deck well\<close>

lemma deckWellLoop_append:
  "deckWellLoop t (pre @ ds) m =
     (case deckWellLoop t pre m of Inl e \<Rightarrow> Inl e | Inr m3 \<Rightarrow> deckWellLoop t ds m3)"
  by (induction pre arbitrary: m) (simp_all split: sum.splits)

text \<open>beginEpisode at the deck well where the loop has arrived, when nothing failed before.\<close>

lemma beginEpisode_at_deckWell:
  assumes wf: "wf_manager m"
    and cm: "computeWellCompletionsMap sim m (episodeIndex sim) Map.empty = Inr cm"
    and p: "updateWellParameters sim (episodeIndex sim) cm
              (if r \<or> wellTopologyChanged es (episodeIndex sim)
               then updateWellTopology sim (episodeIndex sim) cm m else m) = Inr m2"
    and ds: "getWells (getSchedule es) (episodeIndex sim) = pre @ d # post"
    and l: "deckWellLoop (episodeIndex sim) pre m2 = Inr m3"
    and i: "wellNameToIndex m (name d) = Some i"
  shows "beginEpisode sim es r m =
           (case setDeckWell (episodeIndex sim) d (wells m3 ! i) of
              Inl e \<Rightarrow> Inl e
            | Inr w \<Rightarrow> deckWellLoop (episodeIndex sim) post (m3\<lparr>wells := (wells m3)[i := w]\<rparr>))"
    and "wellName (wells m3 ! i) = name d"
proof -
  let ?m1 = "if r \<or> wellTopologyChanged es (episodeIndex sim)
             then updateWellTopology sim (episodeIndex sim) cm m else m"
  have "same_wells m ?m1" by (simp add: same_wells_refl updateWellTopology_same_wells)
  then have "same_wells m m2" using updateWellParameters_same_wells[OF p] by (rule same_wells_trans)
  then have sw: "same_wells m m3" using deckWellLoop_same_wells[OF l] by (rule same_wells_trans)
  then have wf3: "wf_manager m3" using wf by (rule same_wells_wf)
  from sw i have i3: "wellNameToIndex m3 (name d) = Some i" by (simp add: same_wells_def)
  then have h3: "hasWell m3 (name d)" by (simp add: hasWell_def)
  from wf3 i3 have w3: "well m3 (name d) = Inr i" by (rule well_wf)
  from wf3 i3 show "wellName (wells m3 ! i) = name d" by (simp add: wf_manager_def)
  have "beginEpisode sim es r m = deckWellLoop (episodeIndex sim) (pre @ d # post) m2"
    using cm p ds by (simp add: beginEpisode_def Let_def)
  also have "\<dots> = deckWellLoop (episodeIndex sim) (d # post) m3"
    using l by (simp add: deckWellLoop_append)
  also have "\<dots> = (case setDeckWell (episodeIndex sim) d (wells m3 ! i) of
              Inl e \<Rightarrow> Inl e
            | Inr w \<Rightarrow> deckWellLoop (episodeIndex sim) post (m3\<lparr>wells := (wells m3)[i := w]\<rparr>))"
    using h3 w3 by simp
  finally show "beginEpisode sim es r m =
           (case setDeckWell (episodeIndex sim) d (wells m3 ! i) of
              Inl e \<Rightarrow> Inl e
            | Inr w \<Rightarrow> deckWellLoop (episodeIndex sim) post (m3\<lparr>wells := (wells m3)[i := w]\<rparr>))" .
qed

lemma ex_deck_simps [simp]:
  "episodeIndex (ex_deck_simulator ds t) = t"
  "gridManager_eclState (ex_deck_simulator ds t) = ex_deck_eclState ds"
  "gridView (ex_deck_simulator ds t) = gridView (ex_simulator t)"
  "cartesianCellId (ex_deck_simulator ds t) = int"
  "getWells (getSchedule (ex_deck_eclState ds)) t = ds"
  "getAllWells (getSchedule (ex_deck_eclState ds)) = ds"
  "getNX (ex_deck_eclState ds) = 3" "getNY (ex_deck_eclState ds) = 1"
  by (simp_all add: ex_deck_simulator_def ex_deck_eclState_def)

lemma ex_deck_init:
  "init (ex_deck_eclState [d1, d2]) (EclWellManager_new reg)
     = \<lparr> wells = [newWell (name d1), newWell (name d2)],
         wellNameToIndex = [name d1 \<mapsto> 0, name d2 \<mapsto> 1], auxiliaryModules = reg \<rparr>"
  by (simp add: init_def EclWellManager_new_def)

subsection \<open>What the phases before the loop over the deck wells keep\<close>

text \<open>
  The topology and the parameters touch the DOFs and the reference depth of a well only:
  a field \<open>f\<close> of the well that \<^verbatim>\<open>clear\<close>, \<^verbatim>\<open>addDof\<close>, the body for a completion
  and \<^verbatim>\<open>setReferenceDepth\<close> keep is the same after them.
\<close>

lemma topologyDofLoop_keeps:
  assumes "\<And>g w. f (addDof g w) = f w"
  shows "map f (fst (topologyDofLoop cc cm gs acc)) = map f (fst acc)"
proof (induction gs arbitrary: acc)
  case Nil
  then show ?case by simp
next
  case (Cons g gs)
  obtain ws wellSet where acc: "acc = (ws, wellSet)" by (cases acc)
  show ?case
    by (simp add: acc Cons.IH assms map_update_same split: option.splits prod.splits)
qed

lemma topologyElemLoop_keeps:
  assumes "\<And>g w. f (addDof g w) = f w"
  shows "map f (fst (topologyElemLoop cc cm es acc)) = map f (fst acc)"
  by (induction es arbitrary: acc) (simp_all add: topologyDofLoop_keeps[of f, OF assms])

lemma updateWellTopology_keeps:
  assumes "\<And>g w. f (addDof g w) = f w" and "\<And>w. f (clear w) = f w"
  shows "map f (wells (updateWellTopology sim t cm m)) = map f (wells m)"
proof -
  obtain ws wellSet where
    e: "topologyElemLoop (cartesianCellId sim) cm (gridView sim) (map clear (wells m), []) = (ws, wellSet)"
    by (cases "topologyElemLoop (cartesianCellId sim) cm (gridView sim) (map clear (wells m), [])")
  have "map f ws = map f (map clear (wells m))"
    using topologyElemLoop_keeps[of f "cartesianCellId sim" cm "gridView sim" "(map clear (wells m), [])",
        OF assms(1)]
    by (simp add: e)
  then show ?thesis
    by (simp add: updateWellTopology_def e Let_def comp_def assms(2))
qed

lemma parametersDofLoop_keeps:
  assumes "\<And>g c w. f (applyCompletion g c w) = f w"
  shows "map f (parametersDofLoop cc cm gs ws) = map f ws"
  by (induction gs arbitrary: ws) (simp_all add: assms map_update_same split: option.splits prod.splits)

lemma parametersElemLoop_keeps:
  assumes "\<And>g c w. f (applyCompletion g c w) = f w"
  shows "map f (parametersElemLoop cc cm es ws) = map f ws"
  by (induction es arbitrary: ws) (simp_all add: parametersDofLoop_keeps[of f, OF assms])

lemma refDepthLoop_keeps:
  assumes "\<And>x w. f (setReferenceDepth x w) = f w"
  shows "refDepthLoop ds m = Inr m' \<Longrightarrow> map f (wells m') = map f (wells m)"
proof (induction ds arbitrary: m)
  case Nil
  then show ?case by simp
next
  case (Cons d ds)
  show ?case
  proof (cases "getRefDepthDefaulted d")
    case True
    with Cons show ?thesis by simp
  next
    case False
    with Cons.prems obtain i where
      rest: "refDepthLoop ds (updWell i (setReferenceDepth (getRefDepth d)) m) = Inr m'"
      by (auto split: sum.splits)
    have "map f (wells (updWell i (setReferenceDepth (getRefDepth d)) m)) = map f (wells m)"
      by (simp add: updWell_def assms map_update_same)
    with Cons.IH[OF rest] show ?thesis by simp
  qed
qed

lemma updateWellParameters_keeps:
  assumes "\<And>g c w. f (applyCompletion g c w) = f w" and "\<And>x w. f (setReferenceDepth x w) = f w"
    and "updateWellParameters sim t cm m = Inr m'"
  shows "map f (wells m') = map f (wells m)"
proof -
  from assms(3) obtain m1 where
    r: "refDepthLoop (getWells (getSchedule (gridManager_eclState sim)) t) m = Inr m1"
    and m': "m' = m1\<lparr>wells := parametersElemLoop (cartesianCellId sim) cm (gridView sim) (wells m1)\<rparr>"
    by (auto simp: updateWellParameters_def Let_def split: sum.splits)
  have "map f (wells m') = map f (wells m1)"
    by (simp add: m' parametersElemLoop_keeps[of f, OF assms(1)])
  with refDepthLoop_keeps[of f, OF assms(2) r] show ?thesis by simp
qed

lemma phases_keep:
  assumes "\<And>g w. f (addDof g w) = f w" and "\<And>w. f (clear w) = f w"
    and "\<And>g c w. f (applyCompletion g c w) = f w" and "\<And>x w. f (setReferenceDepth x w) = f w"
    and "updateWellParameters sim t cm (if c then updateWellTopology sim t cm m else m) = Inr m2"
  shows "map f (wells m2) = map f (wells m)"
  using updateWellParameters_keeps[of f, OF assms(3,4,5)] updateWellTopology_keeps[of f, OF assms(1,2)]
  by (simp split: if_splits)

lemma map_eq_nth:
  "map f xs = map f ys \<Longrightarrow> i < length ys \<Longrightarrow> f (xs ! i) = f (ys ! i)"
proof -
  assume e: "map f xs = map f ys" and i: "i < length ys"
  from e have "length xs = length ys" by (rule map_eq_imp_length_eq)
  with i have "map f xs ! i = f (xs ! i)" "map f ys ! i = f (ys ! i)" by simp_all
  with e show ?thesis by simp
qed

lemma phases_keep_operation:
  assumes "updateWellParameters sim t cm (if c then updateWellTopology sim t cm m else m) = Inr m2"
    and "i < length (wells m)"
  shows "volumetricPhaseWeights (wells m2 ! i) = volumetricPhaseWeights (wells m ! i)"
    and "maximumSurfaceRate (wells m2 ! i) = maximumSurfaceRate (wells m ! i)"
proof -
  have "map volumetricPhaseWeights (wells m2) = map volumetricPhaseWeights (wells m)"
    by (rule phases_keep[of volumetricPhaseWeights, OF _ _ _ _ assms(1)])
       (simp_all add: addDof_def clear_def applyCompletion_def setRadius_def
          setConnectionTransmissibilityFactor_def setReferenceDepth_def Let_def split: option.splits)
  from map_eq_nth[OF this assms(2)]
  show "volumetricPhaseWeights (wells m2 ! i) = volumetricPhaseWeights (wells m ! i)" .
  have "map maximumSurfaceRate (wells m2) = map maximumSurfaceRate (wells m)"
    by (rule phases_keep[of maximumSurfaceRate, OF _ _ _ _ assms(1)])
       (simp_all add: addDof_def clear_def applyCompletion_def setRadius_def
          setConnectionTransmissibilityFactor_def setReferenceDepth_def Let_def split: option.splits)
  from map_eq_nth[OF this assms(2)]
  show "maximumSurfaceRate (wells m2 ! i) = maximumSurfaceRate (wells m ! i)" .
qed

subsection \<open>The loop body and the operating mode\<close>

lemma lastDeckWellNamed_None: "lastDeckWellNamed n ds = None \<longleftrightarrow> n \<notin> name ` set ds"
  by (induction ds) (auto split: option.splits)

text \<open>In a schedule with distinct well names the loop body runs once for a name, on the
  well as the phases before the loop left it.\<close>

lemma deckWellLoop_distinct:
  assumes wf: "wf_manager m" and l: "deckWellLoop t ds m = Inr m'"
    and i: "wellNameToIndex m n = Some i"
    and d: "lastDeckWellNamed n ds = Some d" and dist: "distinct (map name ds)"
  shows "setDeckWell t d (wells m ! i) = Inr (wells m' ! i)"
proof -
  from lastDeckWellNamed_Some[OF d] have mem: "d \<in> set ds" and nm: "name d = n" by simp_all
  from mem obtain pre post where ds: "ds = pre @ d # post" by (auto dest: split_list)
  from dist ds nm have npre: "lastDeckWellNamed n pre = None" and npost: "lastDeckWellNamed n post = None"
    by (auto simp: lastDeckWellNamed_None)
  from l ds obtain m3 where pre: "deckWellLoop t pre m = Inr m3"
    and rest: "deckWellLoop t (d # post) m3 = Inr m'"
    by (auto simp: deckWellLoop_append split: sum.splits)
  from deckWellLoop_same_wells[OF pre] have sw: "same_wells m m3" .
  from sw wf have wf3: "wf_manager m3" by (rule same_wells_wf)
  from sw i have i3: "wellNameToIndex m3 n = Some i" by (simp add: same_wells_def)
  from deckWellLoop_untouched[OF wf pre i npre] have w3: "wells m3 ! i = wells m ! i" .
  from i3 nm have h: "hasWell m3 (name d)" and wl: "well m3 (name d) = Inr i"
    using well_wf[OF wf3, of "name d" i] by (simp_all add: hasWell_def)
  from rest h wl obtain w where w: "setDeckWell t d (wells m3 ! i) = Inr w"
    and post: "deckWellLoop t post (m3\<lparr>wells := (wells m3)[i := w]\<rparr>) = Inr m'"
    by (auto split: sum.splits)
  let ?m4 = "m3\<lparr>wells := (wells m3)[i := w]\<rparr>"
  from w have "wellName w = wellName (wells m3 ! i)" by (simp add: setDeckWell_frame)
  then have "same_wells m3 ?m4" by (rule same_wells_update)
  then have wf4: "wf_manager ?m4" using wf3 by (rule same_wells_wf)
  have i4: "wellNameToIndex ?m4 n = Some i" using i3 by simp
  from wf3 i3 have "i < length (wells m3)" by (simp add: wf_manager_def)
  then have "wells ?m4 ! i = w" by simp
  with deckWellLoop_untouched[OF wf4 post i4 npost] have "wells m' ! i = w" by simp
  with w w3 show ?thesis by simp
qed

lemma setProducer_resolution:
  assumes "setProducer p w = Inr w'"
  shows "controlMode w' = Some (case prod_controlMode p of
            WellProducer_RESV \<Rightarrow> VolumetricReservoirRate
          | WellProducer_BHP \<Rightarrow> BottomHolePressure
          | WellProducer_THP \<Rightarrow> TubingHeadPressure
          | _ \<Rightarrow> VolumetricSurfaceRate)"
    and "prod_controlMode p \<noteq> WellProducer_BHP \<Longrightarrow> prod_controlMode p \<noteq> WellProducer_THP \<Longrightarrow>
         volumetricPhaseWeights w' = Some (case prod_controlMode p of
            WellProducer_ORAT \<Rightarrow> (Finite 1, Finite 0, Finite 0)
          | WellProducer_GRAT \<Rightarrow> (Finite 0, Finite 1, Finite 0)
          | WellProducer_WRAT \<Rightarrow> (Finite 0, Finite 0, Finite 1)
          | WellProducer_LRAT \<Rightarrow> (Finite 1, Finite 0, Finite 1)
          | _ \<Rightarrow> (Finite 1, Finite 1, Finite 1))"
    and "prod_controlMode p \<noteq> WellProducer_BHP \<Longrightarrow> prod_controlMode p \<noteq> WellProducer_THP \<Longrightarrow>
         maximumSurfaceRate w' = Some (case prod_controlMode p of
            WellProducer_ORAT \<Rightarrow> OilRate p
          | WellProducer_GRAT \<Rightarrow> GasRate p
          | WellProducer_WRAT \<Rightarrow> WaterRate p
          | WellProducer_LRAT \<Rightarrow> LiquidRate p
          | _ \<Rightarrow> ResVRate p)"
    and "prod_controlMode p = WellProducer_BHP \<or> prod_controlMode p = WellProducer_THP \<Longrightarrow>
         volumetricPhaseWeights w' = volumetricPhaseWeights w \<and>
         maximumSurfaceRate w' = maximumSurfaceRate w"
  using assms
  by (auto simp: setProducer_def Well_setters Let_def
      split: ProducerCModeEnum.splits sum.splits)

lemma setInjector_maximumSurfaceRate:
  "setInjector p w = Inr w' \<Longrightarrow> maximumSurfaceRate w' = Some (surfaceInjectionRate p)"
  by (auto simp: setInjector_def Well_setters Let_def
      split: InjectorTypeEnum.splits InjectorCModeEnum.splits sum.splits)

lemma setDeckWellStatus_operation:
  "volumetricPhaseWeights (setDeckWellStatus s w) = volumetricPhaseWeights w"
  "maximumSurfaceRate (setDeckWellStatus s w) = maximumSurfaceRate w"
  by (cases s; simp add: setDeckWellStatus_def Well_setters)+

text \<open>
  Two runs of the loop body on deck wells of the same type, control variable and phase
  resolve the same control mode, from whatever wells; and the same phase weights, unless
  the deck well is a producer under BHP or THP; and then the same maximum surface rate
  when the declared properties are the same.
\<close>

lemma setDeckWell_resolution:
  assumes a: "setDeckWell t d w = Inr w'" and b: "setDeckWell t' d' v = Inr v'"
    and ty: "isInjector d' t' = isInjector d t" "isProducer d' t' = isProducer d t"
    and inj: "isInjector d t \<Longrightarrow>
                inj_controlMode (getInjectionProperties d' t') = inj_controlMode (getInjectionProperties d t) \<and>
                injectorType (getInjectionProperties d' t') = injectorType (getInjectionProperties d t)"
    and prod: "isProducer d t \<Longrightarrow>
                prod_controlMode (getProductionProperties d' t') = prod_controlMode (getProductionProperties d t)"
  shows "wellType v' = wellType w'"
    and "controlMode v' = controlMode w'"
    and "\<not> (isProducer d t \<and>
            (prod_controlMode (getProductionProperties d t) = WellProducer_BHP \<or>
             prod_controlMode (getProductionProperties d t) = WellProducer_THP))
         \<Longrightarrow> volumetricPhaseWeights v' = volumetricPhaseWeights w'"
    and "\<not> (isProducer d t \<and>
            (prod_controlMode (getProductionProperties d t) = WellProducer_BHP \<or>
             prod_controlMode (getProductionProperties d t) = WellProducer_THP))
         \<Longrightarrow> getInjectionProperties d' t' = getInjectionProperties d t
         \<Longrightarrow> getProductionProperties d' t' = getProductionProperties d t
         \<Longrightarrow> maximumSurfaceRate v' = maximumSurfaceRate w'"
proof -
  from a show "wellType v' = wellType w'"
  proof (cases rule: setDeckWell_Inr)
    case injector
    with b ty have "setInjector (getInjectionProperties d' t') (setDeckWellStatus (getStatus d' t') v) = Inr v'"
      by (simp add: setDeckWell_injector)
    with injector(3) show ?thesis by (simp add: setInjector_Inr(1))
  next
    case producer
    with b ty have "setProducer (getProductionProperties d' t') (setDeckWellStatus (getStatus d' t') v) = Inr v'"
      by (simp add: setDeckWell_producer)
    with producer(3) show ?thesis by (simp add: setProducer_Inr(1))
  qed
  from a show "controlMode v' = controlMode w'"
  proof (cases rule: setDeckWell_Inr)
    case injector
    with b ty have "setInjector (getInjectionProperties d' t') (setDeckWellStatus (getStatus d' t') v) = Inr v'"
      by (simp add: setDeckWell_injector)
    with injector inj show ?thesis by (simp add: setInjector_Inr(6))
  next
    case producer
    with b ty have "setProducer (getProductionProperties d' t') (setDeckWellStatus (getStatus d' t') v) = Inr v'"
      by (simp add: setDeckWell_producer)
    with producer prod show ?thesis by (simp add: setProducer_resolution(1))
  qed
  assume n: "\<not> (isProducer d t \<and>
            (prod_controlMode (getProductionProperties d t) = WellProducer_BHP \<or>
             prod_controlMode (getProductionProperties d t) = WellProducer_THP))"
  from a show "volumetricPhaseWeights v' = volumetricPhaseWeights w'"
  proof (cases rule: setDeckWell_Inr)
    case injector
    with b ty have "setInjector (getInjectionProperties d' t') (setDeckWellStatus (getStatus d' t') v) = Inr v'"
      by (simp add: setDeckWell_injector)
    with injector inj show ?thesis by (simp add: setInjector_Inr(7))
  next
    case producer
    with b ty have "setProducer (getProductionProperties d' t') (setDeckWellStatus (getStatus d' t') v) = Inr v'"
      by (simp add: setDeckWell_producer)
    with producer prod n show ?thesis by (simp add: setProducer_resolution(2))
  qed
  assume e: "getInjectionProperties d' t' = getInjectionProperties d t"
    "getProductionProperties d' t' = getProductionProperties d t"
  from a show "maximumSurfaceRate v' = maximumSurfaceRate w'"
  proof (cases rule: setDeckWell_Inr)
    case injector
    with b ty have "setInjector (getInjectionProperties d' t') (setDeckWellStatus (getStatus d' t') v) = Inr v'"
      by (simp add: setDeckWell_injector)
    with injector e show ?thesis by (simp add: setInjector_maximumSurfaceRate)
  next
    case producer
    with b ty have "setProducer (getProductionProperties d' t') (setDeckWellStatus (getStatus d' t') v) = Inr v'"
      by (simp add: setDeckWell_producer)
    with producer e n show ?thesis by (simp add: setProducer_resolution(3))
  qed
qed

text \<open>A producer under BHP or THP: the loop body sets the control mode and keeps the
  phase weights and the maximum surface rate of the well.\<close>

lemma setDeckWell_pressure_producer:
  assumes "setDeckWell t d w = Inr w'" and "isProducer d t"
    and "prod_controlMode (getProductionProperties d t) = WellProducer_BHP \<or>
         prod_controlMode (getProductionProperties d t) = WellProducer_THP"
  shows "controlMode w' = Some (if prod_controlMode (getProductionProperties d t) = WellProducer_BHP
                                then BottomHolePressure else TubingHeadPressure)"
    and "volumetricPhaseWeights w' = volumetricPhaseWeights w"
    and "maximumSurfaceRate w' = maximumSurfaceRate w"
proof -
  from assms(1) have p: "setProducer (getProductionProperties d t) (setDeckWellStatus (getStatus d t) w) = Inr w'"
  proof (cases rule: setDeckWell_Inr)
    case injector
    with assms(2) show ?thesis by simp
  next
    case producer
    then show ?thesis by simp
  qed
  from setProducer_resolution(1)[OF p] assms(3)
  show "controlMode w' = Some (if prod_controlMode (getProductionProperties d t) = WellProducer_BHP
                                then BottomHolePressure else TubingHeadPressure)"
    by auto
  from setProducer_resolution(4)[OF p assms(3)]
  show "volumetricPhaseWeights w' = volumetricPhaseWeights w"
    and "maximumSurfaceRate w' = maximumSurfaceRate w"
    by (simp_all add: setDeckWellStatus_operation)
qed

subsection \<open>Runs on a schedule whose producer changes its control variable\<close>

lemma beginEpisode_wf:
  assumes "wf_manager m" and "beginEpisode sim es r m = Inr m'"
  shows "wf_manager m'"
proof -
  from assms(2) obtain m2 where sw: "same_wells m m2"
    and l: "deckWellLoop (episodeIndex sim) (getWells (getSchedule es) (episodeIndex sim)) m2 = Inr m'"
    by (rule beginEpisode_loop)
  from sw deckWellLoop_same_wells[OF l] have "same_wells m m'" by (rule same_wells_trans)
  then show ?thesis using assms(1) by (rule same_wells_wf)
qed

lemma ex_switch_simps [simp]:
  "name (ex_switch c) = ''PROD''" "getStatus (ex_switch c) t = WellCommon_AUTO"
  "isInjector (ex_switch c) t = False" "isProducer (ex_switch c) t = True"
  "getProductionProperties (ex_switch c) 0 = ex_productionProperties\<lparr>prod_controlMode := c\<rparr>"
  "getProductionProperties (ex_switch c) (Suc t)
     = ex_productionProperties\<lparr>prod_controlMode := WellProducer_BHP\<rparr>"
  "getRefDepthDefaulted (ex_switch c) = True"
  "getCompletions (ex_switch c) t = [ex_completion 0 0 0]"
  by (simp_all add: ex_switch_def)

lemma ex_switch_init:
  "init (ex_deck_eclState [ex_switch c, ex_injector]) (EclWellManager_new {})
     = \<lparr> wells = [newWell ''PROD'', newWell ''INJ''],
         wellNameToIndex = [''PROD'' \<mapsto> 0, ''INJ'' \<mapsto> 1], auxiliaryModules = {} \<rparr>"
  by (simp add: init_def EclWellManager_new_def)

lemma ex_deck_unchanged:
  "distinct (map name ds) \<Longrightarrow> wellTopologyChanged (ex_deck_eclState ds) (Suc t) = False"
  by (simp add: wellTopologyChanged_same_wells)

lemma ex_run_0:
  "ex_run ds 0 = projr (beginEpisode (ex_deck_simulator ds 0) (ex_deck_eclState ds) False
                          (init (ex_deck_eclState ds) (EclWellManager_new {})))"
  by (simp add: ex_run_def)

lemma ex_run_ORAT_0:
  "\<not> isl (beginEpisode (ex_deck_simulator [ex_switch WellProducer_ORAT, ex_injector] 0)
           (ex_deck_eclState [ex_switch WellProducer_ORAT, ex_injector]) False
           (init (ex_deck_eclState [ex_switch WellProducer_ORAT, ex_injector]) (EclWellManager_new {})))"
  "wellNameToIndex (ex_run [ex_switch WellProducer_ORAT, ex_injector] 0) ''PROD'' = Some 0"
  "wellNameToIndex (ex_run [ex_switch WellProducer_ORAT, ex_injector] 0) ''INJ'' = Some 1"
  "volumetricPhaseWeights (wells (ex_run [ex_switch WellProducer_ORAT, ex_injector] 0) ! 0) = Some (Finite 1, Finite 0, Finite 0)"
  "maximumSurfaceRate (wells (ex_run [ex_switch WellProducer_ORAT, ex_injector] 0) ! 0) = Some (Finite 100)"
  unfolding ex_run_0 ex_switch_init
  by (simp_all add: ex_eval newWell_def ex_completion_def ex_injectionProperties_def
      ex_productionProperties_def)

lemma ex_run_ORAT_wf: "wf_manager (ex_run [ex_switch WellProducer_ORAT, ex_injector] 0)"
proof -
  let ?ds = "[ex_switch WellProducer_ORAT, ex_injector]"
  let ?b = "beginEpisode (ex_deck_simulator ?ds 0) (ex_deck_eclState ?ds) False
              (init (ex_deck_eclState ?ds) (EclWellManager_new {}))"
  from ex_run_ORAT_0(1) have "?b = Inr (ex_run ?ds 0)" by (simp add: ex_run_0)
  from beginEpisode_wf[OF _ this] show ?thesis by (simp add: init_wf wf_manager_new)
qed

lemma ex_run_ORAT_1:
  "\<not> isl (beginEpisode (ex_deck_simulator [ex_switch WellProducer_ORAT, ex_injector] (Suc 0))
           (ex_deck_eclState [ex_switch WellProducer_ORAT, ex_injector]) False
           (ex_run [ex_switch WellProducer_ORAT, ex_injector] 0))"
  "controlMode (wells (projr (beginEpisode (ex_deck_simulator [ex_switch WellProducer_ORAT, ex_injector] (Suc 0))
           (ex_deck_eclState [ex_switch WellProducer_ORAT, ex_injector]) False
           (ex_run [ex_switch WellProducer_ORAT, ex_injector] 0))) ! 0) = Some BottomHolePressure"
  "volumetricPhaseWeights (wells (projr (beginEpisode (ex_deck_simulator [ex_switch WellProducer_ORAT, ex_injector] (Suc 0))
           (ex_deck_eclState [ex_switch WellProducer_ORAT, ex_injector]) False
           (ex_run [ex_switch WellProducer_ORAT, ex_injector] 0))) ! 0) = Some (Finite 1, Finite 0, Finite 0)"
  "maximumSurfaceRate (wells (projr (beginEpisode (ex_deck_simulator [ex_switch WellProducer_ORAT, ex_injector] (Suc 0))
           (ex_deck_eclState [ex_switch WellProducer_ORAT, ex_injector]) False
           (ex_run [ex_switch WellProducer_ORAT, ex_injector] 0))) ! 0) = Some (Finite 100)"
  unfolding ex_run_0 ex_switch_init
  by (simp_all add: ex_eval_steps ex_deck_unchanged newWell_def ex_completion_def
      ex_injectionProperties_def ex_productionProperties_def)

lemma ex_run_WRAT_0:
  "\<not> isl (beginEpisode (ex_deck_simulator [ex_switch WellProducer_WRAT, ex_injector] 0)
           (ex_deck_eclState [ex_switch WellProducer_WRAT, ex_injector]) False
           (init (ex_deck_eclState [ex_switch WellProducer_WRAT, ex_injector]) (EclWellManager_new {})))"
  "wellNameToIndex (ex_run [ex_switch WellProducer_WRAT, ex_injector] 0) ''PROD'' = Some 0"
  "wellNameToIndex (ex_run [ex_switch WellProducer_WRAT, ex_injector] 0) ''INJ'' = Some 1"
  "volumetricPhaseWeights (wells (ex_run [ex_switch WellProducer_WRAT, ex_injector] 0) ! 0) = Some (Finite 0, Finite 0, Finite 1)"
  "maximumSurfaceRate (wells (ex_run [ex_switch WellProducer_WRAT, ex_injector] 0) ! 0) = Some (Finite 0)"
  unfolding ex_run_0 ex_switch_init
  by (simp_all add: ex_eval newWell_def ex_completion_def ex_injectionProperties_def
      ex_productionProperties_def)

lemma ex_run_WRAT_wf: "wf_manager (ex_run [ex_switch WellProducer_WRAT, ex_injector] 0)"
proof -
  let ?ds = "[ex_switch WellProducer_WRAT, ex_injector]"
  let ?b = "beginEpisode (ex_deck_simulator ?ds 0) (ex_deck_eclState ?ds) False
              (init (ex_deck_eclState ?ds) (EclWellManager_new {}))"
  from ex_run_WRAT_0(1) have "?b = Inr (ex_run ?ds 0)" by (simp add: ex_run_0)
  from beginEpisode_wf[OF _ this] show ?thesis by (simp add: init_wf wf_manager_new)
qed

lemma ex_run_WRAT_1:
  "\<not> isl (beginEpisode (ex_deck_simulator [ex_switch WellProducer_WRAT, ex_injector] (Suc 0))
           (ex_deck_eclState [ex_switch WellProducer_WRAT, ex_injector]) False
           (ex_run [ex_switch WellProducer_WRAT, ex_injector] 0))"
  "controlMode (wells (projr (beginEpisode (ex_deck_simulator [ex_switch WellProducer_WRAT, ex_injector] (Suc 0))
           (ex_deck_eclState [ex_switch WellProducer_WRAT, ex_injector]) False
           (ex_run [ex_switch WellProducer_WRAT, ex_injector] 0))) ! 0) = Some BottomHolePressure"
  "volumetricPhaseWeights (wells (projr (beginEpisode (ex_deck_simulator [ex_switch WellProducer_WRAT, ex_injector] (Suc 0))
           (ex_deck_eclState [ex_switch WellProducer_WRAT, ex_injector]) False
           (ex_run [ex_switch WellProducer_WRAT, ex_injector] 0))) ! 0) = Some (Finite 0, Finite 0, Finite 1)"
  "maximumSurfaceRate (wells (projr (beginEpisode (ex_deck_simulator [ex_switch WellProducer_WRAT, ex_injector] (Suc 0))
           (ex_deck_eclState [ex_switch WellProducer_WRAT, ex_injector]) False
           (ex_run [ex_switch WellProducer_WRAT, ex_injector] 0))) ! 0) = Some (Finite 0)"
  unfolding ex_run_0 ex_switch_init
  by (simp_all add: ex_eval_steps ex_deck_unchanged newWell_def ex_completion_def
      ex_injectionProperties_def ex_productionProperties_def)

lemma ex_run_1:
  "ex_run ds (Suc 0) = projr (beginEpisode (ex_deck_simulator ds (Suc 0)) (ex_deck_eclState ds) False (ex_run ds 0))"
  by (simp add: ex_run_def)

subsection \<open>serialize and deserialize\<close>

lemma serialize_nothing: "serialize m = (m, [])"
  by (simp add: serialize_def)

lemma deserialize_restart:
  "deserialize simulator (snd (serialize m)) (fst (serialize m))
     = beginEpisode simulator (gridManager_eclState simulator) True m"
  by (simp add: deserialize_def serialize_def)

text \<open>
  The DOFs of the wells after \<^verbatim>\<open>deserialize\<close> are those after any \<^verbatim>\<open>beginEpisode\<close>
  at that episode that rebuilds the topology, whatever the wells owned before; so they
  are those of the manager itself when it is the result of such a call.
\<close>

lemma deserialize_rebuilding:
  assumes "wellNameToIndex m2 = wellNameToIndex m" and "length (wells m2) = length (wells m)"
    and "deserialize simulator (snd (serialize m)) (fst (serialize m)) = Inr r1"
    and "beginEpisode simulator eclState' wasRestarted m2 = Inr r2"
    and "wasRestarted \<or> wellTopologyChanged eclState' (episodeIndex simulator)"
  shows "map dofVariables (wells r1) = map dofVariables (wells r2)"
proof -
  from assms(3) have b1: "beginEpisode simulator (gridManager_eclState simulator) True m = Inr r1"
    by (simp add: deserialize_restart)
  have c1: "True \<or> wellTopologyChanged (gridManager_eclState simulator) (episodeIndex simulator)"
    by simp
  from beginEpisode_rebuild_cong[OF assms(1)[symmetric] assms(2)[symmetric] b1 c1 assms(4,5)]
  show ?thesis .
qed

lemma deserialize_current:
  assumes "beginEpisode simulator eclState' wasRestarted m0 = Inr m"
    and "wasRestarted \<or> wellTopologyChanged eclState' (episodeIndex simulator)"
    and "deserialize simulator (snd (serialize m)) (fst (serialize m)) = Inr r1"
  shows "map dofVariables (wells r1) = map dofVariables (wells m)"
proof -
  from assms(1) obtain m2 where sw: "same_wells m0 m2"
    and l: "deckWellLoop (episodeIndex simulator)
              (getWells (getSchedule eclState') (episodeIndex simulator)) m2 = Inr m"
    by (rule beginEpisode_loop)
  from sw deckWellLoop_same_wells[OF l] have s: "same_wells m0 m" by (rule same_wells_trans)
  then have i: "wellNameToIndex m0 = wellNameToIndex m" by (simp add: same_wells_def)
  from s have "length (map wellName (wells m)) = length (map wellName (wells m0))"
    by (simp only: same_wells_def)
  then have len: "length (wells m0) = length (wells m)" by simp
  from deserialize_rebuilding[OF i len assms(3) assms(1) assms(2)] show ?thesis .
qed

lemma ex_growing_run:
  "ex_growing_manager 0
     = projr (beginEpisode (ex_growing_simulator 0) ex_growing_eclState False
                (init ex_growing_eclState (EclWellManager_new {})))"
  "ex_growing_manager 1
     = projr (beginEpisode (ex_growing_simulator 1) ex_growing_eclState False (ex_growing_manager 0))"
  by (simp_all add: ex_growing_manager_def)

lemma ex_growing_returns:
  "\<not> isl (beginEpisode (ex_growing_simulator 0) ex_growing_eclState False
            (init ex_growing_eclState (EclWellManager_new {})))"
  "\<not> isl (beginEpisode (ex_growing_simulator 1) ex_growing_eclState False (ex_growing_manager 0))"
  "\<not> isl (deserialize (ex_growing_simulator 1) (snd (serialize (ex_growing_manager 1)))
            (fst (serialize (ex_growing_manager 1))))"
  unfolding ex_growing_manager_def ex_growing_init deserialize_def serialize_def
  by (simp_all add: ex_eval_steps ex_growing_changed newWell_def ex_completion_def
      ex_productionProperties_def)

section \<open>The claims\<close>

text \<open>
  In the theorems on \<^verbatim>\<open>beginEpisode\<close>, \<open>m\<close> is the manager before the call and
  \<open>m'\<close> the manager after a call that returned; \<open>i\<close> is the index of the well named
  \<open>n\<close>, and \<open>deckWell\<close> the deck well that the loop over the schedule's wells of the
  episode handles last under that name (the deck well of that name, when the names of the
  schedule are unique).
\<close>

text \<open>
  C1. \<^verbatim>\<open>wellTopologyChanged_\<close> is to return true whenever a completion is added,
  removed or moved between the previous report step and the current one. It reads the
  completions of the previous step's well at the current step
  (\<^verbatim>\<open>(*prevWellIt)->getCompletions(reportStepIdx)\<close>), so a well that is in both steps is
  compared with itself. The example: one well in all report steps; step 1 adds the
  completion in cell (1,0,0), step 2 removes the one in cell (0,0,0); the detector
  returns false at both steps.
\<close>

theorem wellTopologyChanged_misses_completions:
  "getWells (getSchedule ex_growing_eclState) 0 = [ex_growing]
   \<and> getWells (getSchedule ex_growing_eclState) 1 = [ex_growing]
   \<and> getWells (getSchedule ex_growing_eclState) 2 = [ex_growing]
   \<and> map (\<lambda>c. (getI c, getJ c, getK c)) (getCompletions ex_growing 0) = [(0, 0, 0)]
   \<and> map (\<lambda>c. (getI c, getJ c, getK c)) (getCompletions ex_growing 1) = [(0, 0, 0), (1, 0, 0)]
   \<and> map (\<lambda>c. (getI c, getJ c, getK c)) (getCompletions ex_growing 2) = [(1, 0, 0)]
   \<and> wellTopologyChanged ex_growing_eclState 1 = False
   \<and> wellTopologyChanged ex_growing_eclState 2 = False"
  by (simp add: ex_growing_eclState_def ex_growing_def ex_completion_def
      wellTopologyChanged_def curCompletionLoop_def prevCompletionLoop.simps sameIJK_def)

text \<open>
  C2. A well of the schedule that \<^verbatim>\<open>init\<close> never created is not tolerated by every
  phase of \<^verbatim>\<open>beginEpisode\<close>: the first loop of \<^verbatim>\<open>updateWellParameters_\<close> asks
  \<^verbatim>\<open>wellIndex\<close> for it when its reference depth is not defaulted, and
  \<^verbatim>\<open>wellIndex\<close> throws. The example: the manager knows PROD and INJ, the report step
  also has GHOST with an explicit reference depth.
\<close>

theorem beginEpisode_unknown_well_refDepth_throws:
  "\<not> hasWell ex_manager (name (ex_ghost False True WellInjector_WATER False []))
   \<and> \<not> getRefDepthDefaulted (ex_ghost False True WellInjector_WATER False [])
   \<and> beginEpisode (ex_drift_simulator (ex_ghost False True WellInjector_WATER False []) 0)
        (ex_drift_eclState (ex_ghost False True WellInjector_WATER False [])) False ex_manager
     = Inl (RuntimeError (''No well called '' @ [CHR 0x27] @ ''GHOST'' @ [CHR 0x27] @ ''found''))"
  using ex_drift_depth[of False True WellInjector_WATER "[]"]
  by (simp add: hasWell_def ex_manager_eq)

text \<open>
  C3 (amended). The map that \<^verbatim>\<open>computeWellCompletionsMap_\<close> builds for a report step
  holds every completion of every deck well that the manager knows under a key of its
  own, the logical coordinate \<open>i + j*nx + k*nx*ny\<close>, with the well's index: no two of
  these completions have the same key. Building the map from a schedule in which two
  completions of wells that the manager knows (of one well or of two) have the same
  logical coordinate fails the assertion. The completions of a deck well that the manager
  does not know are not inserted, so they collide with nothing.
\<close>

theorem computeWellCompletionsMap_no_duplicates:
  assumes "wf_manager m"
  shows "(\<forall>cm. computeWellCompletionsMap simulator m reportStepIdx Map.empty = Inr cm \<longrightarrow>
            distinct (map (cartIdxOf (getNX (gridManager_eclState simulator))
                                     (getNY (gridManager_eclState simulator)))
                          (knownCompletions m reportStepIdx
                             (getWells (getSchedule (gridManager_eclState simulator)) reportStepIdx)))
          \<and> (\<forall>deckWell \<in> set (getWells (getSchedule (gridManager_eclState simulator)) reportStepIdx).
               \<forall>i. wellNameToIndex m (name deckWell) = Some i \<longrightarrow>
                 (\<forall>completion \<in> set (getCompletions deckWell reportStepIdx).
                    cm (cartIdxOf (getNX (gridManager_eclState simulator))
                                  (getNY (gridManager_eclState simulator)) completion)
                      = Some (completion, i))))
       \<and> (\<not> distinct (map (cartIdxOf (getNX (gridManager_eclState simulator))
                                       (getNY (gridManager_eclState simulator)))
                            (knownCompletions m reportStepIdx
                               (getWells (getSchedule (gridManager_eclState simulator)) reportStepIdx)))
            \<longrightarrow> computeWellCompletionsMap simulator m reportStepIdx Map.empty
                  = Inl (AssertionFailed ''cartesianIdxToCompletionMap.count(cartIdx) == 0''))"
proof (intro conjI allI impI)
  fix cm
  assume "computeWellCompletionsMap simulator m reportStepIdx Map.empty = Inr cm"
  then have l: "deckWellCompletionsLoop m (getNX (gridManager_eclState simulator))
      (getNY (gridManager_eclState simulator)) reportStepIdx
      (getWells (getSchedule (gridManager_eclState simulator)) reportStepIdx) Map.empty = Inr cm"
    by (simp add: computeWellCompletionsMap_def Let_def)
  note R = deckWellCompletionsLoop_Inr[OF assms l]
  from R show "distinct (map (cartIdxOf (getNX (gridManager_eclState simulator))
                                     (getNY (gridManager_eclState simulator)))
                          (knownCompletions m reportStepIdx
                             (getWells (getSchedule (gridManager_eclState simulator)) reportStepIdx)))"
    by blast
  from R show "\<forall>deckWell \<in> set (getWells (getSchedule (gridManager_eclState simulator)) reportStepIdx).
               \<forall>i. wellNameToIndex m (name deckWell) = Some i \<longrightarrow>
                 (\<forall>completion \<in> set (getCompletions deckWell reportStepIdx).
                    cm (cartIdxOf (getNX (gridManager_eclState simulator))
                                  (getNY (gridManager_eclState simulator)) completion)
                      = Some (completion, i))"
    by blast
next
  let ?r = "deckWellCompletionsLoop m (getNX (gridManager_eclState simulator))
      (getNY (gridManager_eclState simulator)) reportStepIdx
      (getWells (getSchedule (gridManager_eclState simulator)) reportStepIdx) Map.empty"
  assume nd: "\<not> distinct (map (cartIdxOf (getNX (gridManager_eclState simulator))
                                       (getNY (gridManager_eclState simulator)))
                            (knownCompletions m reportStepIdx
                               (getWells (getSchedule (gridManager_eclState simulator)) reportStepIdx)))"
  have "?r = Inl (AssertionFailed ''cartesianIdxToCompletionMap.count(cartIdx) == 0'')"
  proof (cases ?r)
    case (Inl e)
    with deckWellCompletionsLoop_Inl[OF assms Inl] show ?thesis by simp
  next
    case (Inr cm)
    from deckWellCompletionsLoop_Inr[OF assms Inr] nd show ?thesis by blast
  qed
  then show "computeWellCompletionsMap simulator m reportStepIdx Map.empty
                  = Inl (AssertionFailed ''cartesianIdxToCompletionMap.count(cartIdx) == 0'')"
    by (simp add: computeWellCompletionsMap_def Let_def)
qed

theorem computeWellCompletionsMap_no_duplicates_witness:
  "(\<exists>cm. computeWellCompletionsMap (ex_simulator 0) ex_manager 0 Map.empty = Inr cm
        \<and> cm 0 = Some (ex_completion 0 0 0, 0) \<and> cm 2 = Some (ex_completion 2 0 0, 1))
   \<and> \<not> distinct (map (cartIdxOf 3 1)
         (knownCompletions ex_manager 0 (getWells (getSchedule (ex_drift_eclState ex_twin)) 0)))
   \<and> computeWellCompletionsMap (ex_drift_simulator ex_twin 0) ex_manager 0 Map.empty
        = Inl (AssertionFailed ''cartesianIdxToCompletionMap.count(cartIdx) == 0'')"
proof -
  note T = computeWellCompletionsMap_no_duplicates[OF ex_wf]
  obtain cm where cm: "computeWellCompletionsMap (ex_simulator 0) ex_manager 0 Map.empty = Inr cm"
    using ex_cm by blast
  have i: "wellNameToIndex ex_manager (name ex_producer) = Some 0"
    "wellNameToIndex ex_manager (name ex_injector) = Some 1"
    by (simp_all add: ex_manager_eq)
  from T[of "ex_simulator 0" 0] cm i
  have a: "cm 0 = Some (ex_completion 0 0 0, 0) \<and> cm 2 = Some (ex_completion 2 0 0, 1)"
    by (simp add: cartIdxOf_def ex_completion_def)
  have nd: "\<not> distinct (map (cartIdxOf 3 1)
         (knownCompletions ex_manager 0 (getWells (getSchedule (ex_drift_eclState ex_twin)) 0)))"
    by (simp add: ex_twin_def hasWell_def ex_manager_eq)
  with T[of "ex_drift_simulator ex_twin 0" 0]
  have "computeWellCompletionsMap (ex_drift_simulator ex_twin 0) ex_manager 0 Map.empty
        = Inl (AssertionFailed ''cartesianIdxToCompletionMap.count(cartIdx) == 0'')"
    by simp
  with cm a nd show ?thesis by blast
qed

text \<open>
  The claim as the spec states it, for the completions of any two wells, fails: PROD and
  GHOST, which the manager does not know, are completed in the same cell, and the map is
  built.
\<close>

theorem computeWellCompletionsMap_no_duplicates_counterexample:
  "ex_producer \<in> set (getWells (getSchedule (ex_drift_eclState
       (ex_ghost False True WellInjector_WATER True [ex_completion 0 0 0]))) 0)
   \<and> ex_ghost False True WellInjector_WATER True [ex_completion 0 0 0]
       \<in> set (getWells (getSchedule (ex_drift_eclState
           (ex_ghost False True WellInjector_WATER True [ex_completion 0 0 0]))) 0)
   \<and> name ex_producer \<noteq> name (ex_ghost False True WellInjector_WATER True [ex_completion 0 0 0])
   \<and> ex_completion 0 0 0 \<in> set (getCompletions ex_producer 0)
   \<and> ex_completion 0 0 0
       \<in> set (getCompletions (ex_ghost False True WellInjector_WATER True [ex_completion 0 0 0]) 0)
   \<and> \<not> isl (computeWellCompletionsMap
              (ex_drift_simulator (ex_ghost False True WellInjector_WATER True [ex_completion 0 0 0]) 0)
              ex_manager 0 Map.empty)"
  unfolding ex_manager_eq
  by (simp add: computeWellCompletionsMap_def hasWell_def well_def wellIndex_def cartIdxOf_def
      ex_completion_def)

text \<open>
  C4 (amended). After a \<^verbatim>\<open>beginEpisode\<close> that returned, every well that the manager
  knows and that is in the schedule of the episode has exactly one of the types Injector
  and Producer, the one its deck well is flagged with; and \<^verbatim>\<open>beginEpisode\<close> on a
  schedule with a well that the manager knows and that is flagged as both an injector and
  a producer, or as neither, fails: the loop body fails its assertion on that well, and
  this is the error of \<^verbatim>\<open>beginEpisode\<close> when the completions map is built, the
  parameters are applied and the deck wells before that well pass.
  A deck well that the manager does not know is skipped before the assertion.
\<close>

theorem beginEpisode_wellType:
  assumes "wf_manager m"
  shows "(\<forall>m' n i deckWell.
            beginEpisode simulator eclState' wasRestarted m = Inr m' \<and>
            wellNameToIndex m n = Some i \<and>
            lastDeckWellNamed n (getWells (getSchedule eclState') (episodeIndex simulator)) = Some deckWell
            \<longrightarrow> wellType (wells m' ! i) = Some Injector
                  \<and> isInjector deckWell (episodeIndex simulator)
                  \<and> \<not> isProducer deckWell (episodeIndex simulator)
              \<or> wellType (wells m' ! i) = Some Producer
                  \<and> isProducer deckWell (episodeIndex simulator)
                  \<and> \<not> isInjector deckWell (episodeIndex simulator))
       \<and> (\<forall>m' i. \<forall>deckWell \<in> set (getWells (getSchedule eclState') (episodeIndex simulator)).
            beginEpisode simulator eclState' wasRestarted m = Inr m' \<and>
            wellNameToIndex m (name deckWell) = Some i
            \<longrightarrow> wellType (wells m' ! i) = Some Injector \<or> wellType (wells m' ! i) = Some Producer)
       \<and> (\<forall>deckWell \<in> set (getWells (getSchedule eclState') (episodeIndex simulator)).
            hasWell m (name deckWell) \<and>
            isInjector deckWell (episodeIndex simulator) = isProducer deckWell (episodeIndex simulator)
            \<longrightarrow> (\<exists>e. beginEpisode simulator eclState' wasRestarted m = Inl e
                     \<and> (\<forall>s. e \<noteq> OutOfRange s))
                \<and> (\<forall>w. setDeckWell (episodeIndex simulator) deckWell w
                         = Inl (AssertionFailed ''isInjector + isProducer == 1'')))
       \<and> (\<forall>wellCompMap m2 m3 pre post deckWell.
            computeWellCompletionsMap simulator m (episodeIndex simulator) Map.empty = Inr wellCompMap \<and>
            updateWellParameters simulator (episodeIndex simulator) wellCompMap
              (if wasRestarted \<or> wellTopologyChanged eclState' (episodeIndex simulator)
               then updateWellTopology simulator (episodeIndex simulator) wellCompMap m else m) = Inr m2 \<and>
            getWells (getSchedule eclState') (episodeIndex simulator) = pre @ deckWell # post \<and>
            deckWellLoop (episodeIndex simulator) pre m2 = Inr m3 \<and>
            hasWell m (name deckWell) \<and>
            isInjector deckWell (episodeIndex simulator) = isProducer deckWell (episodeIndex simulator)
            \<longrightarrow> beginEpisode simulator eclState' wasRestarted m
                  = Inl (AssertionFailed ''isInjector + isProducer == 1''))"
proof (intro conjI allI ballI impI)
  fix m' n i deckWell
  assume a: "beginEpisode simulator eclState' wasRestarted m = Inr m' \<and>
            wellNameToIndex m n = Some i \<and>
            lastDeckWellNamed n (getWells (getSchedule eclState') (episodeIndex simulator)) = Some deckWell"
  then obtain w0 where "setDeckWell (episodeIndex simulator) deckWell w0 = Inr (wells m' ! i)"
    using beginEpisode_last[OF assms, of simulator eclState' wasRestarted m' n i deckWell] by blast
  from setDeckWell_wellType[OF this]
  show "wellType (wells m' ! i) = Some Injector
                  \<and> isInjector deckWell (episodeIndex simulator)
                  \<and> \<not> isProducer deckWell (episodeIndex simulator)
              \<or> wellType (wells m' ! i) = Some Producer
                  \<and> isProducer deckWell (episodeIndex simulator)
                  \<and> \<not> isInjector deckWell (episodeIndex simulator)" .
next
  fix m' i deckWell
  assume d: "deckWell \<in> set (getWells (getSchedule eclState') (episodeIndex simulator))"
    and a: "beginEpisode simulator eclState' wasRestarted m = Inr m' \<and>
            wellNameToIndex m (name deckWell) = Some i"
  from lastDeckWellNamed_exists[OF d] obtain d' where
    "lastDeckWellNamed (name deckWell) (getWells (getSchedule eclState') (episodeIndex simulator)) = Some d'"
    by blast
  with a obtain w0 where "setDeckWell (episodeIndex simulator) d' w0 = Inr (wells m' ! i)"
    using beginEpisode_last[OF assms, of simulator eclState' wasRestarted m' "name deckWell" i d'] by blast
  from setDeckWell_wellType[OF this]
  show "wellType (wells m' ! i) = Some Injector \<or> wellType (wells m' ! i) = Some Producer"
    by blast
next
  fix deckWell
  assume d: "deckWell \<in> set (getWells (getSchedule eclState') (episodeIndex simulator))"
    and a: "hasWell m (name deckWell) \<and>
            isInjector deckWell (episodeIndex simulator) = isProducer deckWell (episodeIndex simulator)"
  have "\<nexists>m'. beginEpisode simulator eclState' wasRestarted m = Inr m'"
  proof
    assume "\<exists>m'. beginEpisode simulator eclState' wasRestarted m = Inr m'"
    then obtain m' where "beginEpisode simulator eclState' wasRestarted m = Inr m'" ..
    from beginEpisode_all_ok[OF this d] a obtain w0 w1 where
      "setDeckWell (episodeIndex simulator) deckWell w0 = Inr w1" by blast
    with a show False by (simp add: setDeckWell_assert)
  qed
  then obtain e where "beginEpisode simulator eclState' wasRestarted m = Inl e"
    using not_Inr_Inl by blast
  with beginEpisode_Inl[OF assms this]
  show "\<exists>e. beginEpisode simulator eclState' wasRestarted m = Inl e \<and> (\<forall>s. e \<noteq> OutOfRange s)"
    by blast
next
  fix deckWell :: DeckWell and w
  assume "hasWell m (name deckWell) \<and>
            isInjector deckWell (episodeIndex simulator) = isProducer deckWell (episodeIndex simulator)"
  then show "setDeckWell (episodeIndex simulator) deckWell w
                         = Inl (AssertionFailed ''isInjector + isProducer == 1'')"
    by (simp add: setDeckWell_assert)
next
  fix wellCompMap m2 m3 pre post and deckWell :: DeckWell
  assume a: "computeWellCompletionsMap simulator m (episodeIndex simulator) Map.empty = Inr wellCompMap \<and>
            updateWellParameters simulator (episodeIndex simulator) wellCompMap
              (if wasRestarted \<or> wellTopologyChanged eclState' (episodeIndex simulator)
               then updateWellTopology simulator (episodeIndex simulator) wellCompMap m else m) = Inr m2 \<and>
            getWells (getSchedule eclState') (episodeIndex simulator) = pre @ deckWell # post \<and>
            deckWellLoop (episodeIndex simulator) pre m2 = Inr m3 \<and>
            hasWell m (name deckWell) \<and>
            isInjector deckWell (episodeIndex simulator) = isProducer deckWell (episodeIndex simulator)"
  then obtain i where i: "wellNameToIndex m (name deckWell) = Some i"
    by (auto simp: hasWell_def)
  from a have cm: "computeWellCompletionsMap simulator m (episodeIndex simulator) Map.empty = Inr wellCompMap"
    and p: "updateWellParameters simulator (episodeIndex simulator) wellCompMap
              (if wasRestarted \<or> wellTopologyChanged eclState' (episodeIndex simulator)
               then updateWellTopology simulator (episodeIndex simulator) wellCompMap m else m) = Inr m2"
    and ds: "getWells (getSchedule eclState') (episodeIndex simulator) = pre @ deckWell # post"
    and l: "deckWellLoop (episodeIndex simulator) pre m2 = Inr m3"
    and f: "isInjector deckWell (episodeIndex simulator) = isProducer deckWell (episodeIndex simulator)"
    by blast+
  from beginEpisode_at_deckWell(1)[OF assms cm p ds l i] f
  show "beginEpisode simulator eclState' wasRestarted m
                  = Inl (AssertionFailed ''isInjector + isProducer == 1'')"
    by (simp add: setDeckWell_assert)
qed

theorem beginEpisode_wellType_witness:
  "(\<exists>m'. beginEpisode (ex_simulator 0) ex_eclState False ex_manager = Inr m'
        \<and> wellType (wells m' ! 0) = Some Producer \<and> wellType (wells m' ! 1) = Some Injector)
   \<and> init (ex_deck_eclState [ex_neither, ex_injector]) (EclWellManager_new {OtherModule 7}) = ex_manager
   \<and> getWells (getSchedule (ex_deck_eclState [ex_neither, ex_injector])) 0 = [ex_neither, ex_injector]
   \<and> hasWell ex_manager (name ex_neither)
   \<and> isInjector ex_neither 0 = isProducer ex_neither 0
   \<and> \<not> isl (computeWellCompletionsMap (ex_deck_simulator [ex_neither, ex_injector] 0) ex_manager 0
               Map.empty)
   \<and> beginEpisode (ex_deck_simulator [ex_neither, ex_injector] 0)
        (ex_deck_eclState [ex_neither, ex_injector]) False ex_manager
       = Inl (AssertionFailed ''isInjector + isProducer == 1'')"
proof -
  obtain m' where ok: "beginEpisode (ex_simulator 0) ex_eclState False ex_manager = Inr m'"
    using ex_beginEpisode_ok by blast
  have i0: "wellNameToIndex ex_manager ''PROD'' = Some 0"
    and i1: "wellNameToIndex ex_manager ''INJ'' = Some 1"
    by (simp_all add: ex_manager_eq)
  have l0: "lastDeckWellNamed ''PROD'' (getWells (getSchedule ex_eclState) (episodeIndex (ex_simulator 0)))
             = Some ex_producer"
    and l1: "lastDeckWellNamed ''INJ'' (getWells (getSchedule ex_eclState) (episodeIndex (ex_simulator 0)))
             = Some ex_injector"
    by simp_all
  note T = beginEpisode_wellType[OF ex_wf]
  from T[of "ex_simulator 0" ex_eclState False] ok i0 l0
  have t0: "wellType (wells m' ! 0) = Some Producer" by fastforce
  from T[of "ex_simulator 0" ex_eclState False] ok i1 l1
  have t1: "wellType (wells m' ! 1) = Some Injector" by fastforce
  let ?ds = "[ex_neither, ex_injector]"
  let ?sim = "ex_deck_simulator ?ds 0"
  let ?es = "ex_deck_eclState ?ds"
  let ?cm = "[0 \<mapsto> (ex_completion 0 0 0, 0), 2 \<mapsto> (ex_completion 2 0 0, 1)]"
  let ?u = "updateWellParameters ?sim (episodeIndex ?sim) ?cm
              (if False \<or> wellTopologyChanged ?es (episodeIndex ?sim)
               then updateWellTopology ?sim (episodeIndex ?sim) ?cm ex_manager else ex_manager)"
  have cm: "computeWellCompletionsMap ?sim ex_manager (episodeIndex ?sim) Map.empty = Inr ?cm"
    unfolding ex_manager_eq
    by (simp add: computeWellCompletionsMap_def hasWell_def well_def wellIndex_def cartIdxOf_def
        ex_completion_def ex_neither_def)
  have "\<not> isl ?u"
    unfolding ex_manager_eq
    by (simp add: ex_eval newWell_def ex_completion_def ex_neither_def)
  then have p: "?u = Inr (projr ?u)" by simp
  have ds: "getWells (getSchedule ?es) (episodeIndex ?sim) = [] @ ex_neither # [ex_injector]"
    by simp
  have l: "deckWellLoop (episodeIndex ?sim) [] (projr ?u) = Inr (projr ?u)" by simp
  have h: "hasWell ex_manager (name ex_neither)" "isInjector ex_neither 0 = isProducer ex_neither 0"
    by (simp_all add: ex_neither_def hasWell_def ex_manager_eq)
  have h': "hasWell ex_manager (name ex_neither)"
    "isInjector ex_neither (episodeIndex ?sim) = isProducer ex_neither (episodeIndex ?sim)"
    using h by simp_all
  have f: "beginEpisode ?sim ?es False ex_manager = Inl (AssertionFailed ''isInjector + isProducer == 1'')"
    by (rule T[of ?sim ?es False, THEN conjunct2, THEN conjunct2, THEN conjunct2, rule_format,
          of ?cm "projr ?u" "[]" ex_neither "[ex_injector]" "projr ?u"])
       (intro conjI cm p ds l h')
  from cm have c: "\<not> isl (computeWellCompletionsMap ?sim ex_manager 0 Map.empty)" by simp
  have ini: "init ?es (EclWellManager_new {OtherModule 7}) = ex_manager"
    by (simp add: ex_deck_init ex_manager_eq ex_neither_def)
  from ok t0 t1 h c f ini show ?thesis by auto
qed

text \<open>
  The claim as the spec states it, for every well of the schedule, fails: GHOST, which the
  manager does not know, is flagged as neither an injector nor a producer, and
  \<^verbatim>\<open>beginEpisode\<close> returns.
\<close>

theorem beginEpisode_wellType_counterexample:
  "ex_ghost False False WellInjector_WATER True []
     \<in> set (getWells (getSchedule (ex_drift_eclState (ex_ghost False False WellInjector_WATER True []))) 0)
   \<and> \<not> isInjector (ex_ghost False False WellInjector_WATER True []) 0
   \<and> \<not> isProducer (ex_ghost False False WellInjector_WATER True []) 0
   \<and> \<not> isl (beginEpisode (ex_drift_simulator (ex_ghost False False WellInjector_WATER True []) 0)
          (ex_drift_eclState (ex_ghost False False WellInjector_WATER True [])) False ex_manager)"
  using ex_drift_ok[of False False WellInjector_WATER "[]"] by auto

text \<open>
  C5 (amended). The control mode that \<^verbatim>\<open>beginEpisode\<close> resolves depends on the deck
  well's type and control variable only, and the phase weights on type, control variable
  and phase only, whatever the well's state was before, except for a producer under BHP
  or THP: for it \<^verbatim>\<open>beginEpisode\<close> sets the control mode only, and in a schedule with
  distinct well names the well keeps the phase weights and the maximum surface rate that
  it had before the call. Two calls on deck wells of the same type, control variable and
  phase, on whatever managers, resolve the same well type and control mode, the same
  phase weights unless the deck well is such a producer, and then the same maximum
  surface rate when the declared properties are the same. A producer under ORAT gets the
  control mode VolumetricSurfaceRate, the phase weights oil 1, gas 0, water 0 and the
  declared oil rate as maximum surface rate; an injector under RATE that injects GAS gets
  the control mode VolumetricSurfaceRate and the phase weights oil 0, gas 1, water 0.
\<close>

theorem beginEpisode_controlMode:
  assumes "wf_manager m"
    and "beginEpisode simulator eclState' wasRestarted m = Inr m'"
    and "wellNameToIndex m n = Some i"
    and "lastDeckWellNamed n (getWells (getSchedule eclState') (episodeIndex simulator)) = Some deckWell"
  shows "(isProducer deckWell (episodeIndex simulator) \<and>
          prod_controlMode (getProductionProperties deckWell (episodeIndex simulator)) = WellProducer_ORAT
            \<longrightarrow> wellType (wells m' ! i) = Some Producer
              \<and> controlMode (wells m' ! i) = Some VolumetricSurfaceRate
              \<and> volumetricPhaseWeights (wells m' ! i) = Some (Finite 1, Finite 0, Finite 0)
              \<and> maximumSurfaceRate (wells m' ! i)
                  = Some (OilRate (getProductionProperties deckWell (episodeIndex simulator))))
       \<and> (isInjector deckWell (episodeIndex simulator) \<and>
          inj_controlMode (getInjectionProperties deckWell (episodeIndex simulator)) = WellInjector_RATE \<and>
          injectorType (getInjectionProperties deckWell (episodeIndex simulator)) = WellInjector_GAS
            \<longrightarrow> wellType (wells m' ! i) = Some Injector
              \<and> controlMode (wells m' ! i) = Some VolumetricSurfaceRate
              \<and> volumetricPhaseWeights (wells m' ! i) = Some (Finite 0, Finite 1, Finite 0))
       \<and> (\<forall>simulator2 eclState2 wasRestarted2 m2 m2' n2 i2 deckWell2.
            wf_manager m2 \<and>
            beginEpisode simulator2 eclState2 wasRestarted2 m2 = Inr m2' \<and>
            wellNameToIndex m2 n2 = Some i2 \<and>
            lastDeckWellNamed n2 (getWells (getSchedule eclState2) (episodeIndex simulator2)) = Some deckWell2 \<and>
            isInjector deckWell2 (episodeIndex simulator2) = isInjector deckWell (episodeIndex simulator) \<and>
            isProducer deckWell2 (episodeIndex simulator2) = isProducer deckWell (episodeIndex simulator) \<and>
            (isInjector deckWell (episodeIndex simulator) \<longrightarrow>
               inj_controlMode (getInjectionProperties deckWell2 (episodeIndex simulator2))
                 = inj_controlMode (getInjectionProperties deckWell (episodeIndex simulator)) \<and>
               injectorType (getInjectionProperties deckWell2 (episodeIndex simulator2))
                 = injectorType (getInjectionProperties deckWell (episodeIndex simulator))) \<and>
            (isProducer deckWell (episodeIndex simulator) \<longrightarrow>
               prod_controlMode (getProductionProperties deckWell2 (episodeIndex simulator2))
                 = prod_controlMode (getProductionProperties deckWell (episodeIndex simulator)))
            \<longrightarrow> wellType (wells m2' ! i2) = wellType (wells m' ! i)
              \<and> controlMode (wells m2' ! i2) = controlMode (wells m' ! i)
              \<and> (\<not> (isProducer deckWell (episodeIndex simulator) \<and>
                     (prod_controlMode (getProductionProperties deckWell (episodeIndex simulator))
                        = WellProducer_BHP \<or>
                      prod_controlMode (getProductionProperties deckWell (episodeIndex simulator))
                        = WellProducer_THP))
                   \<longrightarrow> volumetricPhaseWeights (wells m2' ! i2) = volumetricPhaseWeights (wells m' ! i)
                     \<and> (getInjectionProperties deckWell2 (episodeIndex simulator2)
                          = getInjectionProperties deckWell (episodeIndex simulator) \<and>
                        getProductionProperties deckWell2 (episodeIndex simulator2)
                          = getProductionProperties deckWell (episodeIndex simulator)
                        \<longrightarrow> maximumSurfaceRate (wells m2' ! i2) = maximumSurfaceRate (wells m' ! i))))
       \<and> (isProducer deckWell (episodeIndex simulator) \<and>
          (prod_controlMode (getProductionProperties deckWell (episodeIndex simulator)) = WellProducer_BHP \<or>
           prod_controlMode (getProductionProperties deckWell (episodeIndex simulator)) = WellProducer_THP)
            \<longrightarrow> wellType (wells m' ! i) = Some Producer
              \<and> controlMode (wells m' ! i)
                  = Some (if prod_controlMode (getProductionProperties deckWell (episodeIndex simulator))
                             = WellProducer_BHP
                          then BottomHolePressure else TubingHeadPressure)
              \<and> (distinct (map name (getWells (getSchedule eclState') (episodeIndex simulator)))
                   \<longrightarrow> volumetricPhaseWeights (wells m' ! i) = volumetricPhaseWeights (wells m ! i)
                     \<and> maximumSurfaceRate (wells m' ! i) = maximumSurfaceRate (wells m ! i)))"
proof -
  let ?t = "episodeIndex simulator"
  from beginEpisode_last[OF assms] obtain w0 where
    w: "setDeckWell ?t deckWell w0 = Inr (wells m' ! i)" by blast
  have instances: "(isProducer deckWell ?t \<and>
          prod_controlMode (getProductionProperties deckWell ?t) = WellProducer_ORAT
            \<longrightarrow> wellType (wells m' ! i) = Some Producer
              \<and> controlMode (wells m' ! i) = Some VolumetricSurfaceRate
              \<and> volumetricPhaseWeights (wells m' ! i) = Some (Finite 1, Finite 0, Finite 0)
              \<and> maximumSurfaceRate (wells m' ! i) = Some (OilRate (getProductionProperties deckWell ?t)))
       \<and> (isInjector deckWell ?t \<and>
          inj_controlMode (getInjectionProperties deckWell ?t) = WellInjector_RATE \<and>
          injectorType (getInjectionProperties deckWell ?t) = WellInjector_GAS
            \<longrightarrow> wellType (wells m' ! i) = Some Injector
              \<and> controlMode (wells m' ! i) = Some VolumetricSurfaceRate
              \<and> volumetricPhaseWeights (wells m' ! i) = Some (Finite 0, Finite 1, Finite 0))"
    using w
  proof (cases rule: setDeckWell_Inr)
    case injector
    from setInjector_Inr[OF injector(3)] injector(1,2) show ?thesis by simp
  next
    case producer
    from setProducer_Inr[OF producer(3)] producer(1,2) show ?thesis by simp
  qed
  have determined: "wellType (wells m2' ! i2) = wellType (wells m' ! i)
              \<and> controlMode (wells m2' ! i2) = controlMode (wells m' ! i)
              \<and> (\<not> (isProducer deckWell ?t \<and>
                     (prod_controlMode (getProductionProperties deckWell ?t) = WellProducer_BHP \<or>
                      prod_controlMode (getProductionProperties deckWell ?t) = WellProducer_THP))
                   \<longrightarrow> volumetricPhaseWeights (wells m2' ! i2) = volumetricPhaseWeights (wells m' ! i)
                     \<and> (getInjectionProperties deckWell2 (episodeIndex simulator2)
                          = getInjectionProperties deckWell ?t \<and>
                        getProductionProperties deckWell2 (episodeIndex simulator2)
                          = getProductionProperties deckWell ?t
                        \<longrightarrow> maximumSurfaceRate (wells m2' ! i2) = maximumSurfaceRate (wells m' ! i)))"
    if h: "wf_manager m2 \<and>
            beginEpisode simulator2 eclState2 wasRestarted2 m2 = Inr m2' \<and>
            wellNameToIndex m2 n2 = Some i2 \<and>
            lastDeckWellNamed n2 (getWells (getSchedule eclState2) (episodeIndex simulator2)) = Some deckWell2 \<and>
            isInjector deckWell2 (episodeIndex simulator2) = isInjector deckWell ?t \<and>
            isProducer deckWell2 (episodeIndex simulator2) = isProducer deckWell ?t \<and>
            (isInjector deckWell ?t \<longrightarrow>
               inj_controlMode (getInjectionProperties deckWell2 (episodeIndex simulator2))
                 = inj_controlMode (getInjectionProperties deckWell ?t) \<and>
               injectorType (getInjectionProperties deckWell2 (episodeIndex simulator2))
                 = injectorType (getInjectionProperties deckWell ?t)) \<and>
            (isProducer deckWell ?t \<longrightarrow>
               prod_controlMode (getProductionProperties deckWell2 (episodeIndex simulator2))
                 = prod_controlMode (getProductionProperties deckWell ?t))"
    for simulator2 eclState2 wasRestarted2 m2 m2' n2 i2 and deckWell2 :: DeckWell
  proof -
    from h have r: "wf_manager m2" "beginEpisode simulator2 eclState2 wasRestarted2 m2 = Inr m2'"
      "wellNameToIndex m2 n2 = Some i2"
      "lastDeckWellNamed n2 (getWells (getSchedule eclState2) (episodeIndex simulator2)) = Some deckWell2"
      by blast+
    from beginEpisode_last[OF r] obtain v0 where
      v: "setDeckWell (episodeIndex simulator2) deckWell2 v0 = Inr (wells m2' ! i2)" by blast
    from h have ty: "isInjector deckWell2 (episodeIndex simulator2) = isInjector deckWell ?t"
      "isProducer deckWell2 (episodeIndex simulator2) = isProducer deckWell ?t" by blast+
    from h have inj: "isInjector deckWell ?t \<Longrightarrow>
               inj_controlMode (getInjectionProperties deckWell2 (episodeIndex simulator2))
                 = inj_controlMode (getInjectionProperties deckWell ?t) \<and>
               injectorType (getInjectionProperties deckWell2 (episodeIndex simulator2))
                 = injectorType (getInjectionProperties deckWell ?t)" by blast
    from h have prod: "isProducer deckWell ?t \<Longrightarrow>
               prod_controlMode (getProductionProperties deckWell2 (episodeIndex simulator2))
                 = prod_controlMode (getProductionProperties deckWell ?t)" by blast
    note s = setDeckWell_resolution[OF w v ty inj prod]
    from s(1) s(2) s(3) s(4) show ?thesis by blast
  qed
  have pressure: "wellType (wells m' ! i) = Some Producer
              \<and> controlMode (wells m' ! i)
                  = Some (if prod_controlMode (getProductionProperties deckWell ?t) = WellProducer_BHP
                          then BottomHolePressure else TubingHeadPressure)
              \<and> (distinct (map name (getWells (getSchedule eclState') ?t))
                   \<longrightarrow> volumetricPhaseWeights (wells m' ! i) = volumetricPhaseWeights (wells m ! i)
                     \<and> maximumSurfaceRate (wells m' ! i) = maximumSurfaceRate (wells m ! i))"
    if p: "isProducer deckWell ?t \<and>
          (prod_controlMode (getProductionProperties deckWell ?t) = WellProducer_BHP \<or>
           prod_controlMode (getProductionProperties deckWell ?t) = WellProducer_THP)"
  proof -
    from p have pr: "isProducer deckWell ?t"
      and bt: "prod_controlMode (getProductionProperties deckWell ?t) = WellProducer_BHP \<or>
           prod_controlMode (getProductionProperties deckWell ?t) = WellProducer_THP" by blast+
    from setDeckWell_wellType[OF w] pr have ty: "wellType (wells m' ! i) = Some Producer" by blast
    note c = setDeckWell_pressure_producer(1)[OF w pr bt]
    have keep: "volumetricPhaseWeights (wells m' ! i) = volumetricPhaseWeights (wells m ! i)
                     \<and> maximumSurfaceRate (wells m' ! i) = maximumSurfaceRate (wells m ! i)"
      if dist: "distinct (map name (getWells (getSchedule eclState') ?t))"
    proof -
      from assms(2) obtain cm m2 where
        u: "updateWellParameters simulator ?t cm
              (if wasRestarted \<or> wellTopologyChanged eclState' ?t
               then updateWellTopology simulator ?t cm m else m) = Inr m2"
        and l: "deckWellLoop ?t (getWells (getSchedule eclState') ?t) m2 = Inr m'"
        by (rule beginEpisode_Inr)
      have "same_wells m (if wasRestarted \<or> wellTopologyChanged eclState' ?t
                          then updateWellTopology simulator ?t cm m else m)"
        by (simp add: same_wells_refl updateWellTopology_same_wells)
      then have sw: "same_wells m m2" using updateWellParameters_same_wells[OF u] by (rule same_wells_trans)
      from sw assms(1) have wf2: "wf_manager m2" by (rule same_wells_wf)
      from sw assms(3) have i2: "wellNameToIndex m2 n = Some i" by (simp add: same_wells_def)
      from deckWellLoop_distinct[OF wf2 l i2 assms(4) dist]
      have b: "setDeckWell ?t deckWell (wells m2 ! i) = Inr (wells m' ! i)" .
      from assms(1,3) have len: "i < length (wells m)" by (simp add: wf_manager_def)
      from setDeckWell_pressure_producer(2,3)[OF b pr bt] phases_keep_operation[OF u len]
      show ?thesis by simp
    qed
    from ty c keep show ?thesis by blast
  qed
  from instances determined pressure show ?thesis by blast
qed

theorem beginEpisode_controlMode_witness:
  "(\<exists>m'. beginEpisode (ex_simulator 0) ex_eclState False ex_manager = Inr m'
      \<and> controlMode (wells m' ! 0) = Some VolumetricSurfaceRate
      \<and> volumetricPhaseWeights (wells m' ! 0) = Some (Finite 1, Finite 0, Finite 0)
      \<and> maximumSurfaceRate (wells m' ! 0) = Some (Finite 100)
      \<and> controlMode (wells m' ! 1) = Some VolumetricSurfaceRate
      \<and> volumetricPhaseWeights (wells m' ! 1) = Some (Finite 0, Finite 1, Finite 0))
   \<and> wf_manager (ex_run [ex_switch WellProducer_ORAT, ex_injector] 0)
   \<and> wf_manager (ex_run [ex_switch WellProducer_WRAT, ex_injector] 0)
   \<and> wellNameToIndex (ex_run [ex_switch WellProducer_ORAT, ex_injector] 0) ''PROD'' = Some 0
   \<and> wellNameToIndex (ex_run [ex_switch WellProducer_WRAT, ex_injector] 0) ''PROD'' = Some 0
   \<and> lastDeckWellNamed ''PROD'' [ex_switch WellProducer_ORAT, ex_injector]
       = Some (ex_switch WellProducer_ORAT)
   \<and> lastDeckWellNamed ''PROD'' [ex_switch WellProducer_WRAT, ex_injector]
       = Some (ex_switch WellProducer_WRAT)
   \<and> isProducer (ex_switch WellProducer_ORAT) 1
   \<and> prod_controlMode (getProductionProperties (ex_switch WellProducer_ORAT) 1) = WellProducer_BHP
   \<and> prod_controlMode (getProductionProperties (ex_switch WellProducer_WRAT) 1) = WellProducer_BHP
   \<and> distinct (map name [ex_switch WellProducer_ORAT, ex_injector])
   \<and> beginEpisode (ex_deck_simulator [ex_switch WellProducer_ORAT, ex_injector] 1)
        (ex_deck_eclState [ex_switch WellProducer_ORAT, ex_injector]) False
        (ex_run [ex_switch WellProducer_ORAT, ex_injector] 0)
       = Inr (ex_run [ex_switch WellProducer_ORAT, ex_injector] 1)
   \<and> beginEpisode (ex_deck_simulator [ex_switch WellProducer_WRAT, ex_injector] 1)
        (ex_deck_eclState [ex_switch WellProducer_WRAT, ex_injector]) False
        (ex_run [ex_switch WellProducer_WRAT, ex_injector] 0)
       = Inr (ex_run [ex_switch WellProducer_WRAT, ex_injector] 1)
   \<and> controlMode (wells (ex_run [ex_switch WellProducer_ORAT, ex_injector] 1) ! 0)
       = Some BottomHolePressure
   \<and> controlMode (wells (ex_run [ex_switch WellProducer_WRAT, ex_injector] 1) ! 0)
       = controlMode (wells (ex_run [ex_switch WellProducer_ORAT, ex_injector] 1) ! 0)
   \<and> volumetricPhaseWeights (wells (ex_run [ex_switch WellProducer_ORAT, ex_injector] 1) ! 0)
       = volumetricPhaseWeights (wells (ex_run [ex_switch WellProducer_ORAT, ex_injector] 0) ! 0)
   \<and> maximumSurfaceRate (wells (ex_run [ex_switch WellProducer_ORAT, ex_injector] 1) ! 0)
       = maximumSurfaceRate (wells (ex_run [ex_switch WellProducer_ORAT, ex_injector] 0) ! 0)"
proof -
  obtain m' where ok: "beginEpisode (ex_simulator 0) ex_eclState False ex_manager = Inr m'"
    using ex_beginEpisode_ok by blast
  have i0: "wellNameToIndex ex_manager ''PROD'' = Some 0"
    and i1: "wellNameToIndex ex_manager ''INJ'' = Some 1"
    by (simp_all add: ex_manager_eq)
  have l0: "lastDeckWellNamed ''PROD'' (getWells (getSchedule ex_eclState) (episodeIndex (ex_simulator 0)))
             = Some ex_producer"
    and l1: "lastDeckWellNamed ''INJ'' (getWells (getSchedule ex_eclState) (episodeIndex (ex_simulator 0)))
             = Some ex_injector"
    by simp_all
  from beginEpisode_controlMode[OF ex_wf ok i0 l0, THEN conjunct1]
    beginEpisode_controlMode[OF ex_wf ok i1 l1, THEN conjunct2, THEN conjunct1] ok
  have first: "\<exists>m'. beginEpisode (ex_simulator 0) ex_eclState False ex_manager = Inr m'
      \<and> controlMode (wells m' ! 0) = Some VolumetricSurfaceRate
      \<and> volumetricPhaseWeights (wells m' ! 0) = Some (Finite 1, Finite 0, Finite 0)
      \<and> maximumSurfaceRate (wells m' ! 0) = Some (Finite 100)
      \<and> controlMode (wells m' ! 1) = Some VolumetricSurfaceRate
      \<and> volumetricPhaseWeights (wells m' ! 1) = Some (Finite 0, Finite 1, Finite 0)"
    by (simp add: ex_productionProperties_def ex_injectionProperties_def)
  let ?a = "[ex_switch WellProducer_ORAT, ex_injector]"
  let ?b = "[ex_switch WellProducer_WRAT, ex_injector]"
  let ?sa = "ex_deck_simulator ?a 1" and ?sb = "ex_deck_simulator ?b 1"
  let ?ea = "ex_deck_eclState ?a" and ?eb = "ex_deck_eclState ?b"
  have ra: "beginEpisode ?sa ?ea False (ex_run ?a 0) = Inr (ex_run ?a 1)"
    using ex_run_ORAT_1(1) by (simp add: ex_run_1)
  have rb: "beginEpisode ?sb ?eb False (ex_run ?b 0) = Inr (ex_run ?b 1)"
    using ex_run_WRAT_1(1) by (simp add: ex_run_1)
  have la: "lastDeckWellNamed ''PROD'' (getWells (getSchedule ?ea) (episodeIndex ?sa))
              = Some (ex_switch WellProducer_ORAT)"
    and lb: "lastDeckWellNamed ''PROD'' (getWells (getSchedule ?eb) (episodeIndex ?sb))
              = Some (ex_switch WellProducer_WRAT)"
    by simp_all
  have pa: "isProducer (ex_switch WellProducer_ORAT) (episodeIndex ?sa) \<and>
          (prod_controlMode (getProductionProperties (ex_switch WellProducer_ORAT) (episodeIndex ?sa))
             = WellProducer_BHP \<or>
           prod_controlMode (getProductionProperties (ex_switch WellProducer_ORAT) (episodeIndex ?sa))
             = WellProducer_THP)"
    by simp
  have da: "distinct (map name (getWells (getSchedule ?ea) (episodeIndex ?sa)))" by simp
  note T = beginEpisode_controlMode[OF ex_run_ORAT_wf ra ex_run_ORAT_0(2) la]
  note P = T[THEN conjunct2, THEN conjunct2, THEN conjunct2, rule_format, OF pa]
  from P have c: "controlMode (wells (ex_run ?a 1) ! 0) = Some BottomHolePressure" by simp
  from P da have k: "volumetricPhaseWeights (wells (ex_run ?a 1) ! 0)
                       = volumetricPhaseWeights (wells (ex_run ?a 0) ! 0)"
    "maximumSurfaceRate (wells (ex_run ?a 1) ! 0) = maximumSurfaceRate (wells (ex_run ?a 0) ! 0)"
    by blast+
  have same: "wf_manager (ex_run ?b 0) \<and>
            beginEpisode ?sb ?eb False (ex_run ?b 0) = Inr (ex_run ?b 1) \<and>
            wellNameToIndex (ex_run ?b 0) ''PROD'' = Some 0 \<and>
            lastDeckWellNamed ''PROD'' (getWells (getSchedule ?eb) (episodeIndex ?sb))
              = Some (ex_switch WellProducer_WRAT) \<and>
            isInjector (ex_switch WellProducer_WRAT) (episodeIndex ?sb)
              = isInjector (ex_switch WellProducer_ORAT) (episodeIndex ?sa) \<and>
            isProducer (ex_switch WellProducer_WRAT) (episodeIndex ?sb)
              = isProducer (ex_switch WellProducer_ORAT) (episodeIndex ?sa) \<and>
            (isInjector (ex_switch WellProducer_ORAT) (episodeIndex ?sa) \<longrightarrow>
               inj_controlMode (getInjectionProperties (ex_switch WellProducer_WRAT) (episodeIndex ?sb))
                 = inj_controlMode (getInjectionProperties (ex_switch WellProducer_ORAT) (episodeIndex ?sa)) \<and>
               injectorType (getInjectionProperties (ex_switch WellProducer_WRAT) (episodeIndex ?sb))
                 = injectorType (getInjectionProperties (ex_switch WellProducer_ORAT) (episodeIndex ?sa))) \<and>
            (isProducer (ex_switch WellProducer_ORAT) (episodeIndex ?sa) \<longrightarrow>
               prod_controlMode (getProductionProperties (ex_switch WellProducer_WRAT) (episodeIndex ?sb))
                 = prod_controlMode (getProductionProperties (ex_switch WellProducer_ORAT) (episodeIndex ?sa)))"
    using ex_run_WRAT_wf rb ex_run_WRAT_0(2) lb by simp
  from T[THEN conjunct2, THEN conjunct2, THEN conjunct1, rule_format, OF same]
  have f: "controlMode (wells (ex_run ?b 1) ! 0) = controlMode (wells (ex_run ?a 1) ! 0)" by blast
  have facts: "lastDeckWellNamed ''PROD'' ?a = Some (ex_switch WellProducer_ORAT)"
    "lastDeckWellNamed ''PROD'' ?b = Some (ex_switch WellProducer_WRAT)"
    "isProducer (ex_switch WellProducer_ORAT) 1"
    "prod_controlMode (getProductionProperties (ex_switch WellProducer_ORAT) 1) = WellProducer_BHP"
    "prod_controlMode (getProductionProperties (ex_switch WellProducer_WRAT) 1) = WellProducer_BHP"
    "distinct (map name ?a)"
    by simp_all
  from first ex_run_ORAT_wf ex_run_WRAT_wf ex_run_ORAT_0(2) ex_run_WRAT_0(2) facts ra rb c f k
  show ?thesis by (intro conjI)
qed

text \<open>
  The claim as the spec states it, for every type, control variable and phase, fails. Two
  runs from \<^verbatim>\<open>init\<close> on the grid of the first example, on schedules with the wells
  PROD and INJ: PROD is a producer under ORAT in report step 0 of the first schedule and
  under WRAT in report step 0 of the second, and under BHP with the same declared
  properties from report step 1 in both. After \<^verbatim>\<open>beginEpisode\<close> for the episodes 0 and
  1 the deck wells of episode 1 have the same type, control variable and properties, and
  PROD has the phase weights oil 1, gas 0, water 0 and the maximum surface rate 100 in
  the first run, and the phase weights oil 0, gas 0, water 1 and the maximum surface
  rate 0 in the second.
\<close>

theorem beginEpisode_controlMode_counterexample:
  "ex_run [ex_switch WellProducer_ORAT, ex_injector] 0
     = projr (beginEpisode (ex_deck_simulator [ex_switch WellProducer_ORAT, ex_injector] 0)
                (ex_deck_eclState [ex_switch WellProducer_ORAT, ex_injector]) False
                (init (ex_deck_eclState [ex_switch WellProducer_ORAT, ex_injector]) (EclWellManager_new {})))
   \<and> ex_run [ex_switch WellProducer_WRAT, ex_injector] 0
     = projr (beginEpisode (ex_deck_simulator [ex_switch WellProducer_WRAT, ex_injector] 0)
                (ex_deck_eclState [ex_switch WellProducer_WRAT, ex_injector]) False
                (init (ex_deck_eclState [ex_switch WellProducer_WRAT, ex_injector]) (EclWellManager_new {})))
   \<and> \<not> isl (beginEpisode (ex_deck_simulator [ex_switch WellProducer_ORAT, ex_injector] 0)
                (ex_deck_eclState [ex_switch WellProducer_ORAT, ex_injector]) False
                (init (ex_deck_eclState [ex_switch WellProducer_ORAT, ex_injector]) (EclWellManager_new {})))
   \<and> \<not> isl (beginEpisode (ex_deck_simulator [ex_switch WellProducer_WRAT, ex_injector] 0)
                (ex_deck_eclState [ex_switch WellProducer_WRAT, ex_injector]) False
                (init (ex_deck_eclState [ex_switch WellProducer_WRAT, ex_injector]) (EclWellManager_new {})))
   \<and> \<not> isl (beginEpisode (ex_deck_simulator [ex_switch WellProducer_ORAT, ex_injector] 1)
                (ex_deck_eclState [ex_switch WellProducer_ORAT, ex_injector]) False
                (ex_run [ex_switch WellProducer_ORAT, ex_injector] 0))
   \<and> \<not> isl (beginEpisode (ex_deck_simulator [ex_switch WellProducer_WRAT, ex_injector] 1)
                (ex_deck_eclState [ex_switch WellProducer_WRAT, ex_injector]) False
                (ex_run [ex_switch WellProducer_WRAT, ex_injector] 0))
   \<and> wellNameToIndex (ex_run [ex_switch WellProducer_ORAT, ex_injector] 0) ''PROD'' = Some 0
   \<and> wellNameToIndex (ex_run [ex_switch WellProducer_WRAT, ex_injector] 0) ''PROD'' = Some 0
   \<and> lastDeckWellNamed ''PROD''
        (getWells (getSchedule (ex_deck_eclState [ex_switch WellProducer_ORAT, ex_injector])) 1)
       = Some (ex_switch WellProducer_ORAT)
   \<and> lastDeckWellNamed ''PROD''
        (getWells (getSchedule (ex_deck_eclState [ex_switch WellProducer_WRAT, ex_injector])) 1)
       = Some (ex_switch WellProducer_WRAT)
   \<and> isProducer (ex_switch WellProducer_ORAT) 1 \<and> \<not> isInjector (ex_switch WellProducer_ORAT) 1
   \<and> isProducer (ex_switch WellProducer_WRAT) 1 \<and> \<not> isInjector (ex_switch WellProducer_WRAT) 1
   \<and> prod_controlMode (getProductionProperties (ex_switch WellProducer_ORAT) 1) = WellProducer_BHP
   \<and> getProductionProperties (ex_switch WellProducer_WRAT) 1
       = getProductionProperties (ex_switch WellProducer_ORAT) 1
   \<and> getInjectionProperties (ex_switch WellProducer_WRAT) 1
       = getInjectionProperties (ex_switch WellProducer_ORAT) 1
   \<and> volumetricPhaseWeights
        (wells (projr (beginEpisode (ex_deck_simulator [ex_switch WellProducer_ORAT, ex_injector] 1)
                         (ex_deck_eclState [ex_switch WellProducer_ORAT, ex_injector]) False
                         (ex_run [ex_switch WellProducer_ORAT, ex_injector] 0))) ! 0)
       = Some (Finite 1, Finite 0, Finite 0)
   \<and> volumetricPhaseWeights
        (wells (projr (beginEpisode (ex_deck_simulator [ex_switch WellProducer_WRAT, ex_injector] 1)
                         (ex_deck_eclState [ex_switch WellProducer_WRAT, ex_injector]) False
                         (ex_run [ex_switch WellProducer_WRAT, ex_injector] 0))) ! 0)
       = Some (Finite 0, Finite 0, Finite 1)
   \<and> maximumSurfaceRate
        (wells (projr (beginEpisode (ex_deck_simulator [ex_switch WellProducer_ORAT, ex_injector] 1)
                         (ex_deck_eclState [ex_switch WellProducer_ORAT, ex_injector]) False
                         (ex_run [ex_switch WellProducer_ORAT, ex_injector] 0))) ! 0)
       = Some (Finite 100)
   \<and> maximumSurfaceRate
        (wells (projr (beginEpisode (ex_deck_simulator [ex_switch WellProducer_WRAT, ex_injector] 1)
                         (ex_deck_eclState [ex_switch WellProducer_WRAT, ex_injector]) False
                         (ex_run [ex_switch WellProducer_WRAT, ex_injector] 0))) ! 0)
       = Some (Finite 0)"
proof -
  have facts: "lastDeckWellNamed ''PROD''
        (getWells (getSchedule (ex_deck_eclState [ex_switch WellProducer_ORAT, ex_injector])) 1)
       = Some (ex_switch WellProducer_ORAT)"
    "lastDeckWellNamed ''PROD''
        (getWells (getSchedule (ex_deck_eclState [ex_switch WellProducer_WRAT, ex_injector])) 1)
       = Some (ex_switch WellProducer_WRAT)"
    "isProducer (ex_switch WellProducer_ORAT) 1" "\<not> isInjector (ex_switch WellProducer_ORAT) 1"
    "isProducer (ex_switch WellProducer_WRAT) 1" "\<not> isInjector (ex_switch WellProducer_WRAT) 1"
    "prod_controlMode (getProductionProperties (ex_switch WellProducer_ORAT) 1) = WellProducer_BHP"
    "getProductionProperties (ex_switch WellProducer_WRAT) 1
       = getProductionProperties (ex_switch WellProducer_ORAT) 1"
    "getInjectionProperties (ex_switch WellProducer_WRAT) 1
       = getInjectionProperties (ex_switch WellProducer_ORAT) 1"
    by (simp_all add: ex_switch_def)
  note one = ex_run_ORAT_1[unfolded One_nat_def[symmetric]] ex_run_WRAT_1[unfolded One_nat_def[symmetric]]
  from ex_run_0[of "[ex_switch WellProducer_ORAT, ex_injector]"]
    ex_run_0[of "[ex_switch WellProducer_WRAT, ex_injector]"]
    ex_run_ORAT_0(1) ex_run_WRAT_0(1) one(1) one(5) ex_run_ORAT_0(2) ex_run_WRAT_0(2) facts
    one(3) one(7) one(4) one(8)
  show ?thesis by (intro conjI)
qed

text \<open>
  C6 (amended). \<^verbatim>\<open>beginEpisode\<close> fails for every unsupported operating declaration of
  a well that the manager knows: an injector of type MULTI, an injector or producer under
  GRUP, a producer under CRAT, and an undefined control mode. When the completions map
  is built, the parameters are applied and the deck wells before that well pass,
  \<^verbatim>\<open>beginEpisode\<close> throws "Not implemented: ..." for the first three and "Control mode
  of well NAME is undefined." for the last, with the well's name, which is the error of
  the loop body on that well; an injector of type MULTI throws the multi-phase error
  whatever its control mode is, since its type is looked at first. A deck well that the
  manager does not know is skipped, whatever it declares.
\<close>

theorem beginEpisode_unsupported:
  assumes "wf_manager m"
    and "deckWell \<in> set (getWells (getSchedule eclState') (episodeIndex simulator))"
    and "hasWell m (name deckWell)"
  shows "(\<forall>wellCompMap m2 m3 pre post.
            computeWellCompletionsMap simulator m (episodeIndex simulator) Map.empty = Inr wellCompMap \<and>
            updateWellParameters simulator (episodeIndex simulator) wellCompMap
              (if wasRestarted \<or> wellTopologyChanged eclState' (episodeIndex simulator)
               then updateWellTopology simulator (episodeIndex simulator) wellCompMap m else m) = Inr m2 \<and>
            getWells (getSchedule eclState') (episodeIndex simulator) = pre @ deckWell # post \<and>
            deckWellLoop (episodeIndex simulator) pre m2 = Inr m3
            \<longrightarrow>
              (isInjector deckWell (episodeIndex simulator) \<and>
               \<not> isProducer deckWell (episodeIndex simulator) \<and>
               injectorType (getInjectionProperties deckWell (episodeIndex simulator)) = WellInjector_MULTI
               \<longrightarrow> beginEpisode simulator eclState' wasRestarted m
                     = Inl (RuntimeError ''Not implemented: Multi-phase injector wells''))
            \<and> (isInjector deckWell (episodeIndex simulator) \<and>
               \<not> isProducer deckWell (episodeIndex simulator) \<and>
               injectorType (getInjectionProperties deckWell (episodeIndex simulator)) \<noteq> WellInjector_MULTI \<and>
               inj_controlMode (getInjectionProperties deckWell (episodeIndex simulator)) = WellInjector_GRUP
               \<longrightarrow> beginEpisode simulator eclState' wasRestarted m
                     = Inl (RuntimeError ''Not implemented: Well groups''))
            \<and> (isInjector deckWell (episodeIndex simulator) \<and>
               \<not> isProducer deckWell (episodeIndex simulator) \<and>
               injectorType (getInjectionProperties deckWell (episodeIndex simulator)) \<noteq> WellInjector_MULTI \<and>
               inj_controlMode (getInjectionProperties deckWell (episodeIndex simulator))
                 = WellInjector_CMODE_UNDEFINED
               \<longrightarrow> beginEpisode simulator eclState' wasRestarted m
                     = Inl (RuntimeError (''Control mode of well '' @ name deckWell @ '' is undefined.'')))
            \<and> (isProducer deckWell (episodeIndex simulator) \<and>
               \<not> isInjector deckWell (episodeIndex simulator) \<and>
               prod_controlMode (getProductionProperties deckWell (episodeIndex simulator)) = WellProducer_CRAT
               \<longrightarrow> beginEpisode simulator eclState' wasRestarted m
                     = Inl (RuntimeError ''Not implemented: Linearly combined rates''))
            \<and> (isProducer deckWell (episodeIndex simulator) \<and>
               \<not> isInjector deckWell (episodeIndex simulator) \<and>
               prod_controlMode (getProductionProperties deckWell (episodeIndex simulator)) = WellProducer_GRUP
               \<longrightarrow> beginEpisode simulator eclState' wasRestarted m
                     = Inl (RuntimeError ''Not implemented: Well groups''))
            \<and> (isProducer deckWell (episodeIndex simulator) \<and>
               \<not> isInjector deckWell (episodeIndex simulator) \<and>
               prod_controlMode (getProductionProperties deckWell (episodeIndex simulator))
                 = WellProducer_CMODE_UNDEFINED
               \<longrightarrow> beginEpisode simulator eclState' wasRestarted m
                     = Inl (RuntimeError (''Control mode of well '' @ name deckWell @ '' is undefined.''))))
       \<and> ((isInjector deckWell (episodeIndex simulator) \<and>
            (injectorType (getInjectionProperties deckWell (episodeIndex simulator)) = WellInjector_MULTI \<or>
             inj_controlMode (getInjectionProperties deckWell (episodeIndex simulator)) = WellInjector_GRUP \<or>
             inj_controlMode (getInjectionProperties deckWell (episodeIndex simulator))
               = WellInjector_CMODE_UNDEFINED)
          \<or> isProducer deckWell (episodeIndex simulator) \<and>
            (prod_controlMode (getProductionProperties deckWell (episodeIndex simulator)) = WellProducer_CRAT \<or>
             prod_controlMode (getProductionProperties deckWell (episodeIndex simulator)) = WellProducer_GRUP \<or>
             prod_controlMode (getProductionProperties deckWell (episodeIndex simulator))
               = WellProducer_CMODE_UNDEFINED))
            \<longrightarrow> (\<exists>e. beginEpisode simulator eclState' wasRestarted m = Inl e
                   \<and> (\<forall>s. e \<noteq> OutOfRange s)))
       \<and> (\<forall>w. isInjector deckWell (episodeIndex simulator) \<and>
               \<not> isProducer deckWell (episodeIndex simulator) \<and>
               injectorType (getInjectionProperties deckWell (episodeIndex simulator)) = WellInjector_MULTI
            \<longrightarrow> setDeckWell (episodeIndex simulator) deckWell w
                  = Inl (RuntimeError ''Not implemented: Multi-phase injector wells''))
       \<and> (\<forall>w. isInjector deckWell (episodeIndex simulator) \<and>
               \<not> isProducer deckWell (episodeIndex simulator) \<and>
               injectorType (getInjectionProperties deckWell (episodeIndex simulator)) \<noteq> WellInjector_MULTI \<and>
               inj_controlMode (getInjectionProperties deckWell (episodeIndex simulator)) = WellInjector_GRUP
            \<longrightarrow> setDeckWell (episodeIndex simulator) deckWell w
                  = Inl (RuntimeError ''Not implemented: Well groups''))
       \<and> (\<forall>w. isInjector deckWell (episodeIndex simulator) \<and>
               \<not> isProducer deckWell (episodeIndex simulator) \<and>
               injectorType (getInjectionProperties deckWell (episodeIndex simulator)) \<noteq> WellInjector_MULTI \<and>
               inj_controlMode (getInjectionProperties deckWell (episodeIndex simulator))
                 = WellInjector_CMODE_UNDEFINED \<and>
               wellName w = name deckWell
            \<longrightarrow> setDeckWell (episodeIndex simulator) deckWell w
                  = Inl (RuntimeError (''Control mode of well '' @ name deckWell @ '' is undefined.'')))
       \<and> (\<forall>w. isProducer deckWell (episodeIndex simulator) \<and>
               \<not> isInjector deckWell (episodeIndex simulator) \<and>
               prod_controlMode (getProductionProperties deckWell (episodeIndex simulator)) = WellProducer_CRAT
            \<longrightarrow> setDeckWell (episodeIndex simulator) deckWell w
                  = Inl (RuntimeError ''Not implemented: Linearly combined rates''))
       \<and> (\<forall>w. isProducer deckWell (episodeIndex simulator) \<and>
               \<not> isInjector deckWell (episodeIndex simulator) \<and>
               prod_controlMode (getProductionProperties deckWell (episodeIndex simulator)) = WellProducer_GRUP
            \<longrightarrow> setDeckWell (episodeIndex simulator) deckWell w
                  = Inl (RuntimeError ''Not implemented: Well groups''))
       \<and> (\<forall>w. isProducer deckWell (episodeIndex simulator) \<and>
               \<not> isInjector deckWell (episodeIndex simulator) \<and>
               prod_controlMode (getProductionProperties deckWell (episodeIndex simulator))
                 = WellProducer_CMODE_UNDEFINED \<and>
               wellName w = name deckWell
            \<longrightarrow> setDeckWell (episodeIndex simulator) deckWell w
                  = Inl (RuntimeError (''Control mode of well '' @ name deckWell @ '' is undefined.'')))"
proof -
  have fails: "\<exists>e. beginEpisode simulator eclState' wasRestarted m = Inl e \<and> (\<forall>s. e \<noteq> OutOfRange s)"
    if u: "(isInjector deckWell (episodeIndex simulator) \<and>
                  (injectorType (getInjectionProperties deckWell (episodeIndex simulator)) = WellInjector_MULTI \<or>
                   inj_controlMode (getInjectionProperties deckWell (episodeIndex simulator)) = WellInjector_GRUP \<or>
                   inj_controlMode (getInjectionProperties deckWell (episodeIndex simulator))
                     = WellInjector_CMODE_UNDEFINED)
                \<or> isProducer deckWell (episodeIndex simulator) \<and>
                  (prod_controlMode (getProductionProperties deckWell (episodeIndex simulator)) = WellProducer_CRAT \<or>
                   prod_controlMode (getProductionProperties deckWell (episodeIndex simulator)) = WellProducer_GRUP \<or>
                   prod_controlMode (getProductionProperties deckWell (episodeIndex simulator))
                     = WellProducer_CMODE_UNDEFINED))"
  proof -
    have "\<nexists>m'. beginEpisode simulator eclState' wasRestarted m = Inr m'"
    proof
      assume "\<exists>m'. beginEpisode simulator eclState' wasRestarted m = Inr m'"
      then obtain m' where "beginEpisode simulator eclState' wasRestarted m = Inr m'" ..
      from beginEpisode_all_ok[OF this assms(2,3)] obtain w0 w1 where
        "setDeckWell (episodeIndex simulator) deckWell w0 = Inr w1" by blast
      from setDeckWell_supported[OF this] u show False
        by blast
    qed
    then obtain e where e: "beginEpisode simulator eclState' wasRestarted m = Inl e"
      using not_Inr_Inl by blast
    with beginEpisode_Inl[OF assms(1) this] show ?thesis by blast
  qed
  have name_status: "wellName (setDeckWellStatus s w) = wellName w" for s w
    by (simp add: setDeckWellStatus_frame)
  have level: "(\<forall>wellCompMap m2 m3 pre post.
              computeWellCompletionsMap simulator m (episodeIndex simulator) Map.empty = Inr wellCompMap \<and>
              updateWellParameters simulator (episodeIndex simulator) wellCompMap
                (if wasRestarted \<or> wellTopologyChanged eclState' (episodeIndex simulator)
                 then updateWellTopology simulator (episodeIndex simulator) wellCompMap m else m) = Inr m2 \<and>
              getWells (getSchedule eclState') (episodeIndex simulator) = pre @ deckWell # post \<and>
              deckWellLoop (episodeIndex simulator) pre m2 = Inr m3
              \<longrightarrow>
                (isInjector deckWell (episodeIndex simulator) \<and>
                 \<not> isProducer deckWell (episodeIndex simulator) \<and>
                 injectorType (getInjectionProperties deckWell (episodeIndex simulator)) = WellInjector_MULTI
                 \<longrightarrow> beginEpisode simulator eclState' wasRestarted m
                       = Inl (RuntimeError ''Not implemented: Multi-phase injector wells''))
              \<and> (isInjector deckWell (episodeIndex simulator) \<and>
                 \<not> isProducer deckWell (episodeIndex simulator) \<and>
                 injectorType (getInjectionProperties deckWell (episodeIndex simulator)) \<noteq> WellInjector_MULTI \<and>
                 inj_controlMode (getInjectionProperties deckWell (episodeIndex simulator)) = WellInjector_GRUP
                 \<longrightarrow> beginEpisode simulator eclState' wasRestarted m
                       = Inl (RuntimeError ''Not implemented: Well groups''))
              \<and> (isInjector deckWell (episodeIndex simulator) \<and>
                 \<not> isProducer deckWell (episodeIndex simulator) \<and>
                 injectorType (getInjectionProperties deckWell (episodeIndex simulator)) \<noteq> WellInjector_MULTI \<and>
                 inj_controlMode (getInjectionProperties deckWell (episodeIndex simulator))
                   = WellInjector_CMODE_UNDEFINED
                 \<longrightarrow> beginEpisode simulator eclState' wasRestarted m
                       = Inl (RuntimeError (''Control mode of well '' @ name deckWell @ '' is undefined.'')))
              \<and> (isProducer deckWell (episodeIndex simulator) \<and>
                 \<not> isInjector deckWell (episodeIndex simulator) \<and>
                 prod_controlMode (getProductionProperties deckWell (episodeIndex simulator)) = WellProducer_CRAT
                 \<longrightarrow> beginEpisode simulator eclState' wasRestarted m
                       = Inl (RuntimeError ''Not implemented: Linearly combined rates''))
              \<and> (isProducer deckWell (episodeIndex simulator) \<and>
                 \<not> isInjector deckWell (episodeIndex simulator) \<and>
                 prod_controlMode (getProductionProperties deckWell (episodeIndex simulator)) = WellProducer_GRUP
                 \<longrightarrow> beginEpisode simulator eclState' wasRestarted m
                       = Inl (RuntimeError ''Not implemented: Well groups''))
              \<and> (isProducer deckWell (episodeIndex simulator) \<and>
                 \<not> isInjector deckWell (episodeIndex simulator) \<and>
                 prod_controlMode (getProductionProperties deckWell (episodeIndex simulator))
                   = WellProducer_CMODE_UNDEFINED
                 \<longrightarrow> beginEpisode simulator eclState' wasRestarted m
                       = Inl (RuntimeError (''Control mode of well '' @ name deckWell @ '' is undefined.''))))"
  proof (intro allI impI)
    fix wellCompMap m2 m3 pre post
    assume a: "computeWellCompletionsMap simulator m (episodeIndex simulator) Map.empty = Inr wellCompMap \<and>
              updateWellParameters simulator (episodeIndex simulator) wellCompMap
                (if wasRestarted \<or> wellTopologyChanged eclState' (episodeIndex simulator)
                 then updateWellTopology simulator (episodeIndex simulator) wellCompMap m else m) = Inr m2 \<and>
              getWells (getSchedule eclState') (episodeIndex simulator) = pre @ deckWell # post \<and>
              deckWellLoop (episodeIndex simulator) pre m2 = Inr m3"
    from assms(3) obtain i where i: "wellNameToIndex m (name deckWell) = Some i"
      by (auto simp: hasWell_def)
    from a have cm: "computeWellCompletionsMap simulator m (episodeIndex simulator) Map.empty = Inr wellCompMap"
      and p: "updateWellParameters simulator (episodeIndex simulator) wellCompMap
              (if wasRestarted \<or> wellTopologyChanged eclState' (episodeIndex simulator)
               then updateWellTopology simulator (episodeIndex simulator) wellCompMap m else m) = Inr m2"
      and ds: "getWells (getSchedule eclState') (episodeIndex simulator) = pre @ deckWell # post"
      and l: "deckWellLoop (episodeIndex simulator) pre m2 = Inr m3"
      by blast+
    note b = beginEpisode_at_deckWell[OF assms(1) cm p ds l i]
    show "(isInjector deckWell (episodeIndex simulator) \<and>
                   \<not> isProducer deckWell (episodeIndex simulator) \<and>
                   injectorType (getInjectionProperties deckWell (episodeIndex simulator)) = WellInjector_MULTI
                   \<longrightarrow> beginEpisode simulator eclState' wasRestarted m
                         = Inl (RuntimeError ''Not implemented: Multi-phase injector wells''))
                \<and> (isInjector deckWell (episodeIndex simulator) \<and>
                   \<not> isProducer deckWell (episodeIndex simulator) \<and>
                   injectorType (getInjectionProperties deckWell (episodeIndex simulator)) \<noteq> WellInjector_MULTI \<and>
                   inj_controlMode (getInjectionProperties deckWell (episodeIndex simulator)) = WellInjector_GRUP
                   \<longrightarrow> beginEpisode simulator eclState' wasRestarted m
                         = Inl (RuntimeError ''Not implemented: Well groups''))
                \<and> (isInjector deckWell (episodeIndex simulator) \<and>
                   \<not> isProducer deckWell (episodeIndex simulator) \<and>
                   injectorType (getInjectionProperties deckWell (episodeIndex simulator)) \<noteq> WellInjector_MULTI \<and>
                   inj_controlMode (getInjectionProperties deckWell (episodeIndex simulator))
                     = WellInjector_CMODE_UNDEFINED
                   \<longrightarrow> beginEpisode simulator eclState' wasRestarted m
                         = Inl (RuntimeError (''Control mode of well '' @ name deckWell @ '' is undefined.'')))
                \<and> (isProducer deckWell (episodeIndex simulator) \<and>
                   \<not> isInjector deckWell (episodeIndex simulator) \<and>
                   prod_controlMode (getProductionProperties deckWell (episodeIndex simulator)) = WellProducer_CRAT
                   \<longrightarrow> beginEpisode simulator eclState' wasRestarted m
                         = Inl (RuntimeError ''Not implemented: Linearly combined rates''))
                \<and> (isProducer deckWell (episodeIndex simulator) \<and>
                   \<not> isInjector deckWell (episodeIndex simulator) \<and>
                   prod_controlMode (getProductionProperties deckWell (episodeIndex simulator)) = WellProducer_GRUP
                   \<longrightarrow> beginEpisode simulator eclState' wasRestarted m
                         = Inl (RuntimeError ''Not implemented: Well groups''))
                \<and> (isProducer deckWell (episodeIndex simulator) \<and>
                   \<not> isInjector deckWell (episodeIndex simulator) \<and>
                   prod_controlMode (getProductionProperties deckWell (episodeIndex simulator))
                     = WellProducer_CMODE_UNDEFINED
                   \<longrightarrow> beginEpisode simulator eclState' wasRestarted m
                         = Inl (RuntimeError (''Control mode of well '' @ name deckWell @ '' is undefined.'')))"
      by (simp add: b setDeckWell_injector setDeckWell_producer setInjector_errors setProducer_errors
          notImplemented_def controlModeUndefined_def name_status)
  qed
  show ?thesis
    apply (rule conjI)
     apply (rule level)
    using fails
    apply (simp add: setDeckWell_injector setDeckWell_producer setInjector_errors setProducer_errors
        notImplemented_def controlModeUndefined_def name_status)
    done
qed


theorem beginEpisode_unsupported_witness:
  "init (ex_deck_eclState [ex_producer, ex_undefined]) (EclWellManager_new {OtherModule 7}) = ex_manager
   \<and> getWells (getSchedule (ex_deck_eclState [ex_producer, ex_undefined])) 0 = [ex_producer, ex_undefined]
   \<and> hasWell ex_manager (name ex_undefined)
   \<and> isInjector ex_undefined 0
   \<and> \<not> isProducer ex_undefined 0
   \<and> inj_controlMode (getInjectionProperties ex_undefined 0) = WellInjector_CMODE_UNDEFINED
   \<and> \<not> isl (computeWellCompletionsMap (ex_deck_simulator [ex_producer, ex_undefined] 0) ex_manager 0
               Map.empty)
   \<and> beginEpisode (ex_deck_simulator [ex_producer, ex_undefined] 0)
        (ex_deck_eclState [ex_producer, ex_undefined]) False ex_manager
       = Inl (RuntimeError ''Control mode of well INJ is undefined.'')
   \<and> setDeckWell 0 ex_undefined (wells ex_manager ! 1)
        = Inl (RuntimeError ''Control mode of well INJ is undefined.'')"
proof -
  let ?ds = "[ex_producer, ex_undefined]"
  let ?sim = "ex_deck_simulator ?ds 0"
  let ?es = "ex_deck_eclState ?ds"
  let ?cm = "[0 \<mapsto> (ex_completion 0 0 0, 0), 2 \<mapsto> (ex_completion 2 0 0, 1)]"
  let ?u = "updateWellParameters ?sim (episodeIndex ?sim) ?cm
              (if False \<or> wellTopologyChanged ?es (episodeIndex ?sim)
               then updateWellTopology ?sim (episodeIndex ?sim) ?cm ex_manager else ex_manager)"
  let ?l = "deckWellLoop (episodeIndex ?sim) [ex_producer] (projr ?u)"
  have h: "ex_undefined \<in> set (getWells (getSchedule ?es) (episodeIndex ?sim))"
    "hasWell ex_manager (name ex_undefined)"
    by (simp_all add: ex_undefined_def hasWell_def ex_manager_eq)
  have p: "isInjector ex_undefined 0" "\<not> isProducer ex_undefined 0"
    "inj_controlMode (getInjectionProperties ex_undefined 0) = WellInjector_CMODE_UNDEFINED"
    "injectorType (getInjectionProperties ex_undefined 0) \<noteq> WellInjector_MULTI"
    "wellName (wells ex_manager ! 1) = name ex_undefined"
    by (simp_all add: ex_undefined_def ex_injectionProperties_def ex_manager_eq newWell_def)
  have n: "name ex_undefined = ''INJ''" by (simp add: ex_undefined_def)
  note T = beginEpisode_unsupported[OF ex_wf h, of False]
  have cm: "computeWellCompletionsMap ?sim ex_manager (episodeIndex ?sim) Map.empty = Inr ?cm"
    unfolding ex_manager_eq
    by (simp add: computeWellCompletionsMap_def hasWell_def well_def wellIndex_def cartIdxOf_def
        ex_completion_def ex_undefined_def)
  have "\<not> isl ?u"
    unfolding ex_manager_eq
    by (simp add: ex_eval newWell_def ex_completion_def ex_undefined_def)
  then have u: "?u = Inr (projr ?u)" by simp
  have "\<not> isl ?l"
    unfolding ex_manager_eq
    by (simp add: ex_eval newWell_def ex_completion_def ex_undefined_def ex_productionProperties_def)
  then have l: "?l = Inr (projr ?l)" by simp
  have ds: "getWells (getSchedule ?es) (episodeIndex ?sim) = [ex_producer] @ ex_undefined # []"
    by simp
  have p': "isInjector ex_undefined (episodeIndex ?sim)" "\<not> isProducer ex_undefined (episodeIndex ?sim)"
    "injectorType (getInjectionProperties ex_undefined (episodeIndex ?sim)) \<noteq> WellInjector_MULTI"
    "inj_controlMode (getInjectionProperties ex_undefined (episodeIndex ?sim)) = WellInjector_CMODE_UNDEFINED"
    using p by simp_all
  have "beginEpisode ?sim ?es False ex_manager
          = Inl (RuntimeError (''Control mode of well '' @ name ex_undefined @ '' is undefined.''))"
    by (rule T[THEN conjunct1, rule_format, of ?cm "projr ?u" "[ex_producer]" "[]" "projr ?l",
          THEN conjunct2, THEN conjunct2, THEN conjunct1, rule_format])
       (intro conjI cm u ds l p')+
  then have f: "beginEpisode ?sim ?es False ex_manager
          = Inl (RuntimeError ''Control mode of well INJ is undefined.'')"
    by (simp add: n)
  from T p have s: "setDeckWell 0 ex_undefined (wells ex_manager ! 1)
        = Inl (RuntimeError ''Control mode of well INJ is undefined.'')"
    by (simp add: ex_undefined_def)
  from cm have c: "\<not> isl (computeWellCompletionsMap ?sim ex_manager 0 Map.empty)" by simp
  have ini: "init ?es (EclWellManager_new {OtherModule 7}) = ex_manager"
    by (simp add: ex_deck_init ex_manager_eq ex_undefined_def)
  from h p f s c ini show ?thesis by simp
qed

text \<open>
  The claim as the spec states it, for every declaration, fails: GHOST, which the manager
  does not know, is an injector of type MULTI, and \<^verbatim>\<open>beginEpisode\<close> returns.
\<close>

theorem beginEpisode_unsupported_counterexample:
  "ex_ghost True False WellInjector_MULTI True []
     \<in> set (getWells (getSchedule (ex_drift_eclState (ex_ghost True False WellInjector_MULTI True []))) 0)
   \<and> isInjector (ex_ghost True False WellInjector_MULTI True []) 0
   \<and> injectorType (getInjectionProperties (ex_ghost True False WellInjector_MULTI True []) 0)
        = WellInjector_MULTI
   \<and> \<not> isl (beginEpisode (ex_drift_simulator (ex_ghost True False WellInjector_MULTI True []) 0)
          (ex_drift_eclState (ex_ghost True False WellInjector_MULTI True [])) False ex_manager)"
  using ex_drift_ok[of True False WellInjector_MULTI "[]"] by auto

text \<open>
  C7. \<^verbatim>\<open>computeTotalRatesForDof\<close> starts from the zero rate vector and returns the sum
  of the wells' contributions at the DOF. At a DOF that no well owns the result is the
  zero vector; at a DOF that exactly one well owns it is that well's contribution; and
  the result is the same for every order of the wells.
\<close>

theorem computeTotalRatesForDof_sum:
  fixes wellPhysics :: "Well \<Rightarrow> nat \<Rightarrow> 'q::comm_monoid_add"
  shows "computeTotalRatesForDof wellPhysics m context dofIdx timeIdx
           = sum_list (map (\<lambda>w. Well_computeTotalRatesForDof wellPhysics w 0 context dofIdx timeIdx)
                           (wells m))
       \<and> ((\<forall>w \<in> set (wells m). dofVariables w (context dofIdx timeIdx) = None)
            \<longrightarrow> computeTotalRatesForDof wellPhysics m context dofIdx timeIdx = 0)
       \<and> (\<forall>pre w post.
             wells m = pre @ w # post \<and> dofVariables w (context dofIdx timeIdx) \<noteq> None \<and>
             (\<forall>w' \<in> set pre \<union> set post. dofVariables w' (context dofIdx timeIdx) = None)
            \<longrightarrow> computeTotalRatesForDof wellPhysics m context dofIdx timeIdx
                  = Well_computeTotalRatesForDof wellPhysics w 0 context dofIdx timeIdx
              \<and> computeTotalRatesForDof wellPhysics m context dofIdx timeIdx
                  = wellPhysics w (context dofIdx timeIdx))
       \<and> (\<forall>m2. mset (wells m2) = mset (wells m)
            \<longrightarrow> computeTotalRatesForDof wellPhysics m2 context dofIdx timeIdx
                  = computeTotalRatesForDof wellPhysics m context dofIdx timeIdx)"
proof -
  let ?c = "\<lambda>w. Well_computeTotalRatesForDof wellPhysics w 0 context dofIdx timeIdx"
  have s: "computeTotalRatesForDof wellPhysics m' context dofIdx timeIdx = sum_list (map ?c (wells m'))"
    for m'
    by (simp add: computeTotalRatesForDof_def totalRatesLoop_sum)
  have z: "sum_list (map ?c ws) = 0"
    if "\<forall>w \<in> set ws. dofVariables w (context dofIdx timeIdx) = None" for ws
    using that by (induction ws) (simp_all add: Well_computeTotalRatesForDof_def Let_def)
  have one: "sum_list (map ?c (pre @ w # post)) = ?c w \<and> ?c w = wellPhysics w (context dofIdx timeIdx)"
    if "dofVariables w (context dofIdx timeIdx) \<noteq> None"
      and "\<forall>w' \<in> set pre \<union> set post. dofVariables w' (context dofIdx timeIdx) = None"
    for pre w post
  proof -
    from that(2) have "sum_list (map ?c pre) = 0" and "sum_list (map ?c post) = 0"
      by (simp_all add: z)
    moreover from that(1) have "?c w = wellPhysics w (context dofIdx timeIdx)"
      by (auto simp: Well_computeTotalRatesForDof_def Let_def)
    ultimately show ?thesis by simp
  qed
  have p: "sum_list (map ?c (wells m2)) = sum_list (map ?c (wells m))"
    if "mset (wells m2) = mset (wells m)" for m2
    using that by (rule sum_list_map_mset)
  show ?thesis
  proof (intro conjI allI impI)
    show "computeTotalRatesForDof wellPhysics m context dofIdx timeIdx = sum_list (map ?c (wells m))"
      by (rule s)
  next
    assume "\<forall>w \<in> set (wells m). dofVariables w (context dofIdx timeIdx) = None"
    then show "computeTotalRatesForDof wellPhysics m context dofIdx timeIdx = 0"
      by (simp add: s z)
  next
    fix pre w post
    assume a: "wells m = pre @ w # post \<and> dofVariables w (context dofIdx timeIdx) \<noteq> None \<and>
             (\<forall>w' \<in> set pre \<union> set post. dofVariables w' (context dofIdx timeIdx) = None)"
    then have e: "wells m = pre @ w # post"
      and n: "dofVariables w (context dofIdx timeIdx) \<noteq> None"
      and r: "\<forall>w' \<in> set pre \<union> set post. dofVariables w' (context dofIdx timeIdx) = None"
      by blast+
    from one[OF n r] have o: "sum_list (map ?c (wells m)) = ?c w"
      and w: "?c w = wellPhysics w (context dofIdx timeIdx)"
      unfolding e by blast+
    from o show "computeTotalRatesForDof wellPhysics m context dofIdx timeIdx = ?c w"
      by (simp only: s)
    from o w show "computeTotalRatesForDof wellPhysics m context dofIdx timeIdx
                  = wellPhysics w (context dofIdx timeIdx)"
      by (simp only: s)
  next
    fix m2 :: EclWellManager
    assume "mset (wells m2) = mset (wells m)"
    then have "sum_list (map ?c (wells m2)) = sum_list (map ?c (wells m))" by (rule p)
    then show "computeTotalRatesForDof wellPhysics m2 context dofIdx timeIdx
                  = computeTotalRatesForDof wellPhysics m context dofIdx timeIdx"
      by (simp only: s)
  qed
qed

theorem computeTotalRatesForDof_sum_witness:
  "dofVariables (newWell ''PROD'') 4 = None
   \<and> dofVariables (addDof 5 (newWell ''INJ'')) 4 = None
   \<and> computeTotalRatesForDof (\<lambda>w g. 7 :: int) ex_stale_manager (\<lambda>dofIdx timeIdx. dofIdx + 4) 0 0 = 0
   \<and> wells ex_stale_manager = [newWell ''PROD''] @ addDof 5 (newWell ''INJ'') # []
   \<and> dofVariables (addDof 5 (newWell ''INJ'')) 5 \<noteq> None
   \<and> dofVariables (newWell ''PROD'') 5 = None
   \<and> computeTotalRatesForDof (\<lambda>w g. 7 :: int) ex_stale_manager (\<lambda>dofIdx timeIdx. dofIdx + 4) 1 0 = 7
   \<and> mset (wells (ex_stale_manager\<lparr>wells := rev (wells ex_stale_manager)\<rparr>)) = mset (wells ex_stale_manager)
   \<and> computeTotalRatesForDof (\<lambda>w g. 7 :: int) (ex_stale_manager\<lparr>wells := rev (wells ex_stale_manager)\<rparr>)
         (\<lambda>dofIdx timeIdx. dofIdx + 4) 1 0 = 7"
proof -
  let ?ctx = "\<lambda>dofIdx timeIdx :: nat. dofIdx + 4"
  let ?phys = "\<lambda>(w :: Well) (g :: nat). 7 :: int"
  have a: "\<forall>w \<in> set (wells ex_stale_manager). dofVariables w (?ctx 0 0) = None"
    by (simp add: ex_stale_manager_eq addDof_def newWell_def)
  have b: "wells ex_stale_manager = [newWell ''PROD''] @ addDof 5 (newWell ''INJ'') # []"
    "dofVariables (addDof 5 (newWell ''INJ'')) (?ctx 1 0) \<noteq> None"
    "\<forall>w' \<in> set [newWell ''PROD''] \<union> set []. dofVariables w' (?ctx 1 0) = None"
    by (simp_all add: ex_stale_manager_eq addDof_def newWell_def)
  have c: "mset (wells (ex_stale_manager\<lparr>wells := rev (wells ex_stale_manager)\<rparr>))
             = mset (wells ex_stale_manager)"
    by simp
  note T0 = computeTotalRatesForDof_sum[of ?phys ex_stale_manager ?ctx 0 0]
  note T1 = computeTotalRatesForDof_sum[of ?phys ex_stale_manager ?ctx 1 0]
  from T0 a have r0: "computeTotalRatesForDof ?phys ex_stale_manager ?ctx 0 0 = 0" by blast
  from T1 b have r1: "computeTotalRatesForDof ?phys ex_stale_manager ?ctx 1 0 = 7" by blast
  from T1 c have "computeTotalRatesForDof ?phys (ex_stale_manager\<lparr>wells := rev (wells ex_stale_manager)\<rparr>) ?ctx 1 0
      = computeTotalRatesForDof ?phys ex_stale_manager ?ctx 1 0" by blast
  with r1 have r2: "computeTotalRatesForDof ?phys (ex_stale_manager\<lparr>wells := rev (wells ex_stale_manager)\<rparr>) ?ctx 1 0 = 7"
    by simp
  have a': "dofVariables (newWell ''PROD'') 4 = None"
    "dofVariables (addDof 5 (newWell ''INJ'')) 4 = None"
    by (simp_all add: addDof_def newWell_def)
  from a' b c r0 r1 r2 show ?thesis by simp
qed

text \<open>
  C8. \<^verbatim>\<open>serialize\<close> writes nothing and \<^verbatim>\<open>deserialize\<close> is \<^verbatim>\<open>beginEpisode\<close> with
  \<^verbatim>\<open>wasRestarted = true\<close>, which rebuilds the topology; its DOFs are to be those of
  the \<^verbatim>\<open>beginEpisode\<close> of the run at that episode. They are when that call rebuilt the
  topology (lemma \<open>deserialize_current\<close>), and the call is to rebuild it when the
  completions changed. The run on the schedule of C1: \<^verbatim>\<open>init\<close>, then
  \<^verbatim>\<open>beginEpisode\<close> for the episodes 0 and 1. Report step 1 adds the completion in
  cell (1,0,0), whose DOF is in the interior element; the detector misses it, so the
  well owns the DOF 0 only after \<^verbatim>\<open>beginEpisode\<close> for episode 1, and the DOFs 0 and 1
  after \<^verbatim>\<open>serialize\<close> and \<^verbatim>\<open>deserialize\<close> at that episode.
\<close>

theorem deserialize_after_missed_change:
  "\<not> isl (beginEpisode (ex_growing_simulator 0) ex_growing_eclState False
            (init ex_growing_eclState (EclWellManager_new {})))
   \<and> ex_growing_manager 0
       = projr (beginEpisode (ex_growing_simulator 0) ex_growing_eclState False
                  (init ex_growing_eclState (EclWellManager_new {})))
   \<and> \<not> isl (beginEpisode (ex_growing_simulator 1) ex_growing_eclState False (ex_growing_manager 0))
   \<and> ex_growing_manager 1
       = projr (beginEpisode (ex_growing_simulator 1) ex_growing_eclState False (ex_growing_manager 0))
   \<and> map (\<lambda>c. (getI c, getJ c, getK c)) (getCompletions ex_growing 0) = [(0, 0, 0)]
   \<and> map (\<lambda>c. (getI c, getJ c, getK c)) (getCompletions ex_growing 1) = [(0, 0, 0), (1, 0, 0)]
   \<and> localDofs (ex_growing_simulator 1) = [0, 1]
   \<and> serialize (ex_growing_manager 1) = (ex_growing_manager 1, [])
   \<and> \<not> isl (deserialize (ex_growing_simulator 1) (snd (serialize (ex_growing_manager 1)))
              (fst (serialize (ex_growing_manager 1))))
   \<and> dom (dofVariables (wells (ex_growing_manager 1) ! 0)) = {0}
   \<and> dom (dofVariables (wells (projr (deserialize (ex_growing_simulator 1)
              (snd (serialize (ex_growing_manager 1))) (fst (serialize (ex_growing_manager 1))))) ! 0))
       = {0, 1}"
proof -
  have c: "map (\<lambda>c. (getI c, getJ c, getK c)) (getCompletions ex_growing 0) = [(0, 0, 0)]"
    "map (\<lambda>c. (getI c, getJ c, getK c)) (getCompletions ex_growing 1) = [(0, 0, 0), (1, 0, 0)]"
    by (simp_all add: ex_completion_def)
  have d: "localDofs (ex_growing_simulator 1) = [0, 1]"
    by (simp add: localDofs_def)
  from ex_growing_returns ex_growing_run c d serialize_nothing[of "ex_growing_manager 1"] ex_growing_stale
  show ?thesis by (intro conjI)
qed

text \<open>
  C9. A topology rebuild (\<^verbatim>\<open>updateWellTopology_\<close>) drops the wells' registrations as
  auxiliary modules and every well's DOFs, whatever they were. Afterwards a well owns
  the DOFs of the interior elements whose Cartesian cell the completions map gives to it,
  and the registered wells are the wells that own a DOF: a well without a local DOF is not
  registered. The modules of another kind are registered as before, and the wells keep
  their names and indices.
\<close>

theorem updateWellTopology_registration:
  assumes "computeWellCompletionsMap simulator m reportStepIdx Map.empty = Inr wellCompletions"
  shows "(\<forall>k < length (wells m).
            dom (dofVariables (wells (updateWellTopology simulator reportStepIdx wellCompletions m) ! k))
              = completionDofs (cartesianCellId simulator) wellCompletions k (localDofs simulator))
       \<and> (\<forall>k. WellModule k \<in> auxiliaryModules (updateWellTopology simulator reportStepIdx wellCompletions m)
              \<longleftrightarrow> k < length (wells m) \<and>
                  dofVariables (wells (updateWellTopology simulator reportStepIdx wellCompletions m) ! k)
                    \<noteq> Map.empty)
       \<and> (\<forall>a. OtherModule a \<in> auxiliaryModules (updateWellTopology simulator reportStepIdx wellCompletions m)
              \<longleftrightarrow> OtherModule a \<in> auxiliaryModules m)
       \<and> wellNameToIndex (updateWellTopology simulator reportStepIdx wellCompletions m) = wellNameToIndex m
       \<and> map wellName (wells (updateWellTopology simulator reportStepIdx wellCompletions m))
           = map wellName (wells m)"
proof -
  let ?m' = "updateWellTopology simulator reportStepIdx wellCompletions m"
  let ?D = "\<lambda>k. completionDofs (cartesianCellId simulator) wellCompletions k (localDofs simulator)"
  from assms have v: "\<forall>x c k. wellCompletions x = Some (c, k) \<longrightarrow> k < length (wells m)"
    by (rule computeWellCompletionsMap_valid)
  note U = updateWellTopology_char[OF v, of simulator reportStepIdx]
  have d: "\<forall>k < length (wells m). dom (dofVariables (wells ?m' ! k)) = ?D k" by (rule U(3))
  have lt: "k < length (wells m)" if "?D k \<noteq> {}" for k
    using that v by (auto simp: completionDofs_def)
  have w: "WellModule k \<in> auxiliaryModules ?m' \<longleftrightarrow>
             k < length (wells m) \<and> dofVariables (wells ?m' ! k) \<noteq> Map.empty" for k
  proof -
    have "WellModule k \<in> auxiliaryModules ?m' \<longleftrightarrow> ?D k \<noteq> {}"
      unfolding U(4) by auto
    also have "\<dots> \<longleftrightarrow> k < length (wells m) \<and> dom (dofVariables (wells ?m' ! k)) \<noteq> {}"
    proof (cases "k < length (wells m)")
      case True
      with d have "dom (dofVariables (wells ?m' ! k)) = ?D k" by blast
      with True show ?thesis by simp
    next
      case False
      with lt[of k] show ?thesis by blast
    qed
    finally show ?thesis by (simp only: dom_eq_empty_conv)
  qed
  have o: "OtherModule a \<in> auxiliaryModules ?m' \<longleftrightarrow> OtherModule a \<in> auxiliaryModules m" for a
    unfolding U(4) by auto
  have n: "map wellName (wells ?m') = map wellName (wells m)"
    using updateWellTopology_same_wells[of m simulator reportStepIdx wellCompletions]
    by (simp add: same_wells_def)
  from d w o U(1) n show ?thesis by blast
qed

theorem updateWellTopology_registration_witness:
  "computeWellCompletionsMap (ex_simulator 0) ex_stale_manager 0 Map.empty
     = Inr [0 \<mapsto> (ex_completion 0 0 0, 0), 2 \<mapsto> (ex_completion 2 0 0, 1)]
   \<and> WellModule 1 \<in> auxiliaryModules ex_stale_manager
   \<and> dofVariables (wells ex_stale_manager ! 1) 5 \<noteq> None
   \<and> dom (dofVariables (wells (updateWellTopology (ex_simulator 0) 0
        [0 \<mapsto> (ex_completion 0 0 0, 0), 2 \<mapsto> (ex_completion 2 0 0, 1)] ex_stale_manager) ! 0)) = {0}
   \<and> dom (dofVariables (wells (updateWellTopology (ex_simulator 0) 0
        [0 \<mapsto> (ex_completion 0 0 0, 0), 2 \<mapsto> (ex_completion 2 0 0, 1)] ex_stale_manager) ! 1)) = {}
   \<and> WellModule 0 \<in> auxiliaryModules (updateWellTopology (ex_simulator 0) 0
        [0 \<mapsto> (ex_completion 0 0 0, 0), 2 \<mapsto> (ex_completion 2 0 0, 1)] ex_stale_manager)
   \<and> WellModule 1 \<notin> auxiliaryModules (updateWellTopology (ex_simulator 0) 0
        [0 \<mapsto> (ex_completion 0 0 0, 0), 2 \<mapsto> (ex_completion 2 0 0, 1)] ex_stale_manager)
   \<and> OtherModule 7 \<in> auxiliaryModules (updateWellTopology (ex_simulator 0) 0
        [0 \<mapsto> (ex_completion 0 0 0, 0), 2 \<mapsto> (ex_completion 2 0 0, 1)] ex_stale_manager)"
proof -
  let ?cm = "[0 \<mapsto> (ex_completion 0 0 0, 0), 2 \<mapsto> (ex_completion 2 0 0, 1)]"
  let ?m' = "updateWellTopology (ex_simulator 0) 0 ?cm ex_stale_manager"
  note T = updateWellTopology_registration[OF ex_stale_cm[of 0]]
  have len: "length (wells ex_stale_manager) = 2" by (simp add: ex_stale_manager_eq)
  have D0: "completionDofs (cartesianCellId (ex_simulator 0)) ?cm 0 (localDofs (ex_simulator 0)) = {0}"
    and D1: "completionDofs (cartesianCellId (ex_simulator 0)) ?cm 1 (localDofs (ex_simulator 0)) = {}"
    by (simp_all add: localDofs_def completionDofs_Cons)
  from T have T1: "\<And>k. k < length (wells ex_stale_manager) \<Longrightarrow>
        dom (dofVariables (wells ?m' ! k))
          = completionDofs (cartesianCellId (ex_simulator 0)) ?cm k (localDofs (ex_simulator 0))"
    and T2: "\<And>k. WellModule k \<in> auxiliaryModules ?m' \<longleftrightarrow>
        k < length (wells ex_stale_manager) \<and> dofVariables (wells ?m' ! k) \<noteq> Map.empty"
    and T3: "\<And>a. OtherModule a \<in> auxiliaryModules ?m' \<longleftrightarrow>
        OtherModule a \<in> auxiliaryModules ex_stale_manager"
    by blast+
  from T1[of 0] len D0 have d0: "dom (dofVariables (wells ?m' ! 0)) = {0}" by simp
  from T1[of 1] len D1 have d1: "dom (dofVariables (wells ?m' ! 1)) = {}" by simp
  from d0 have "dofVariables (wells ?m' ! 0) \<noteq> Map.empty" by auto
  with T2[of 0] len have r0: "WellModule 0 \<in> auxiliaryModules ?m'" by simp
  from d1 have "dofVariables (wells ?m' ! 1) = Map.empty" by simp
  with T2[of 1] have r1: "WellModule 1 \<notin> auxiliaryModules ?m'" by simp
  from T3[of 7] have r7: "OtherModule 7 \<in> auxiliaryModules ?m'" by (simp add: ex_stale_manager_eq)
  have pre: "WellModule 1 \<in> auxiliaryModules ex_stale_manager"
    "dofVariables (wells ex_stale_manager ! 1) 5 \<noteq> None"
    by (simp_all add: ex_stale_manager_eq addDof_def newWell_def)
  from ex_stale_cm[of 0] pre d0 d1 r0 r1 r7 show ?thesis by blast
qed

text \<open>
  C10. \<^verbatim>\<open>beginEpisode\<close> maps the deck status AUTO to the runtime status Open, as it
  maps OPEN; STOP becomes Closed and SHUT becomes Shut. After the call the well of a deck
  well declared AUTO is an open well.
\<close>

theorem beginEpisode_wellStatus:
  assumes "wf_manager m"
    and "beginEpisode simulator eclState' wasRestarted m = Inr m'"
    and "wellNameToIndex m n = Some i"
    and "lastDeckWellNamed n (getWells (getSchedule eclState') (episodeIndex simulator)) = Some deckWell"
  shows "(getStatus deckWell (episodeIndex simulator) = WellCommon_AUTO
            \<longrightarrow> wellStatus (wells m' ! i) = Some Open)
       \<and> (getStatus deckWell (episodeIndex simulator) = WellCommon_OPEN
            \<longrightarrow> wellStatus (wells m' ! i) = Some Open)
       \<and> (getStatus deckWell (episodeIndex simulator) = WellCommon_STOP
            \<longrightarrow> wellStatus (wells m' ! i) = Some Closed)
       \<and> (getStatus deckWell (episodeIndex simulator) = WellCommon_SHUT
            \<longrightarrow> wellStatus (wells m' ! i) = Some Shut)"
proof -
  from beginEpisode_last[OF assms] obtain w0 where
    "setDeckWell (episodeIndex simulator) deckWell w0 = Inr (wells m' ! i)" by blast
  from setDeckWell_wellStatus[OF this] show ?thesis by simp
qed

theorem beginEpisode_wellStatus_witness:
  "\<exists>m'. beginEpisode (ex_simulator 0) ex_eclState False ex_manager = Inr m'
      \<and> getStatus ex_producer 0 = WellCommon_AUTO
      \<and> wellStatus (wells m' ! 0) = Some Open"
proof -
  obtain m' where ok: "beginEpisode (ex_simulator 0) ex_eclState False ex_manager = Inr m'"
    using ex_beginEpisode_ok by blast
  have i: "wellNameToIndex ex_manager ''PROD'' = Some 0"
    by (simp add: ex_manager_eq)
  have l: "lastDeckWellNamed ''PROD'' (getWells (getSchedule ex_eclState) (episodeIndex (ex_simulator 0)))
             = Some ex_producer"
    by simp
  from beginEpisode_wellStatus[OF ex_wf ok i l] have "wellStatus (wells m' ! 0) = Some Open"
    by simp
  with ok show ?thesis by simp
qed

end
